(* ===== verification/Prelude.thy ===== *)
theory Prelude
  imports Complex_Main "HOL-Library.Log_Nat"
begin

text \<open>
  Shared vocabulary of the development: the sample type of interferograms and spectra,
  the exceptions the widget code can raise (as values of a datatype), Python slicing
  with its negative-index rule, numpy's elementwise binary operations with broadcasting,
  Python's \<open>'%d'\<close> formatting of naturals with its inverse (round trip
  \<open>parse_py_str_nat\<close>), and the generic list lemmas the component theories share. Samples are modelled as
  \<open>real\<close>: the IEEE rounding of numpy's float64 is not modelled, and neither are NaN
  and infinities.
\<close>

section \<open>Types and collections\<close>

type_synonym signal = "real list"

named_theorems np_simps "evaluation rules of the numpy and Python primitives"

text \<open>
  The exceptions of \<open>owfft.py\<close>. \<open>ValueError\<close>s are split by the place that raises
  them (numpy's \<open>argmax\<close> of an empty array, \<open>hsplit\<close> into unequal halves, a failed
  broadcast, the size check of \<open>apodization\<close>, the zpd check of
  \<open>fft_single_sweep\<close>/\<open>compute_phase\<close>, \<open>interp\<close> with no
  sample points, \<open>rfft\<close> of no points); the others are Python's \<open>ZeroDivisionError\<close>,
  the \<open>UnboundLocalError\<close> of \<open>apodization\<close> for an unknown function index, the
  \<open>IndexError\<close> of \<open>data.X[0]\<close> on a table with no rows, and the \<open>TypeError\<close> or
  \<open>AttributeError\<close> of an operation applied to \<open>None\<close>.
\<close>

datatype fft_error =
    EmptyArgmax
  | UnequalSplit
  | Broadcast nat nat
  | ApodSize
  | ZpdDrift nat nat
  | InterpEmpty
  | InterpLength
  | FFTNoPoints
  | ZeroDivision
  | UnboundWindow nat
  | NoRows
  | NoneValue

text \<open>\<open>calculateFFT\<close> catches \<open>ValueError\<close> only.\<close>

fun is_value_error :: "fft_error \<Rightarrow> bool" where
  "is_value_error ZeroDivision = False"
| "is_value_error (UnboundWindow _) = False"
| "is_value_error NoRows = False"
| "is_value_error NoneValue = False"
| "is_value_error _ = True"

text \<open>
  The outcome of a Python method that mutates its object: a normal return with the
  object's new state, or an exception together with the state the object had reached
  when it was raised (assignments made before a \<open>raise\<close> persist).
\<close>

datatype 's outcome = Ret 's | Exc fft_error 's

primrec outcome_state :: "'s outcome \<Rightarrow> 's" where
  "outcome_state (Ret s) = s"
| "outcome_state (Exc e s) = s"

section \<open>Python slicing\<close>

text \<open>
  \<open>xs[i:j]\<close> with step 1: a negative bound counts from the end, then both bounds are
  clamped to \<open>[0, len xs]\<close>; an empty range gives the empty list.
\<close>

definition py_index :: "nat \<Rightarrow> int \<Rightarrow> nat" where
  "py_index n i = (if i < 0 then nat (max 0 (int n + i)) else min (nat i) n)"

definition py_slice :: "'a list \<Rightarrow> int \<Rightarrow> int \<Rightarrow> 'a list" where
  "py_slice xs i j =
     (let a = py_index (length xs) i; b = py_index (length xs) j
      in take (b - a) (drop a xs))"

lemma py_index_nonneg [np_simps]: "0 \<le> i \<Longrightarrow> py_index n i = min (nat i) n"
  by (simp add: py_index_def)

lemma py_slice_nat [np_simps]:
  "py_slice xs (int a) (int b) = take (min b (length xs) - a) (drop a xs)"
  by (simp add: py_slice_def py_index_def min_def)

lemma py_slice_from0 [np_simps]: "py_slice xs 0 (int b) = take b xs"
  by (cases "b \<le> length xs") (simp_all add: py_slice_def py_index_def min_def)

lemma length_py_slice_nat:
  "a \<le> b \<Longrightarrow> b \<le> length xs \<Longrightarrow> length (py_slice xs (int a) (int b)) = b - a"
  by (simp add: py_slice_nat)

lemma nth_py_slice_nat:
  "a \<le> b \<Longrightarrow> b \<le> length xs \<Longrightarrow> k < b - a \<Longrightarrow> py_slice xs (int a) (int b) ! k = xs ! (a + k)"
  by (simp add: py_slice_nat)

section \<open>numpy elementwise operations\<close>

text \<open>
  A binary ufunc on two 1-D arrays: equal lengths combine pointwise; an array of length 1
  is stretched to the other's length; any other pair of lengths raises
  \<open>ValueError: operands could not be broadcast together\<close>.
\<close>

definition np_broadcast :: "('a \<Rightarrow> 'b \<Rightarrow> 'c) \<Rightarrow> 'a list \<Rightarrow> 'b list \<Rightarrow> fft_error + 'c list" where
  "np_broadcast f xs ys =
     (if length xs = length ys then Inr (map2 f xs ys)
      else if length xs = 1 then Inr (map (f (hd xs)) ys)
      else if length ys = 1 then Inr (map (\<lambda>x. f x (hd ys)) xs)
      else Inl (Broadcast (length xs) (length ys)))"

lemma np_broadcast_same [np_simps]:
  "length xs = length ys \<Longrightarrow> np_broadcast f xs ys = Inr (map2 f xs ys)"
  by (simp add: np_broadcast_def)

lemma np_broadcast_Inr_length:
  "np_broadcast f xs ys = Inr zs \<Longrightarrow> length zs = (if length xs = 1 then length ys else length xs)"
  by (auto simp: np_broadcast_def split: if_splits)

section \<open>Shared list lemmas\<close>

lemma map2_same_length [simp]:
  "length xs = length ys \<Longrightarrow> length (map2 f xs ys) = length xs"
  by simp

lemma nth_map2 [simp]:
  "i < length xs \<Longrightarrow> i < length ys \<Longrightarrow> map2 f xs ys ! i = f (xs ! i) (ys ! i)"
  by simp

lemma map2_replicate_right:
  "map2 f xs (replicate (length xs) c) = map (\<lambda>x. f x c) xs"
  by (induction xs) auto

lemma map2_replicate_left:
  "map2 f (replicate (length ys) c) ys = map (f c) ys"
  by (induction ys) auto

lemma replicate_of_singleton_set:
  "set ys \<subseteq> {c} \<Longrightarrow> ys = replicate (length ys) c"
  by (metis replicate_length_same singletonD subsetD)

lemma last_of_singleton_set:
  "ys \<noteq> [] \<Longrightarrow> set ys \<subseteq> {c} \<Longrightarrow> last ys = c"
  using last_in_set by fastforce

lemma map2_self: "map2 f xs xs = map (\<lambda>x. f x x) xs"
  by (induction xs) auto

lemma those_Some_iff: "those xs = Some ys \<longleftrightarrow> xs = map Some ys"
  by (induction xs arbitrary: ys) (auto split: option.splits)

lemma those_map_Some [simp]: "those (map Some ys) = Some ys"
  by (induction ys) auto

lemma those_map_None_iff: "those (map f xs) = None \<longleftrightarrow> (\<exists>x \<in> set xs. f x = None)"
  by (induction xs) (auto split: option.splits)

section \<open>Decimal formatting\<close>

text \<open>Python's \<open>'%d' % n\<close> for a non-negative integer: its decimal digits, most
  significant first, without leading zeros.\<close>

definition digit_char :: "nat \<Rightarrow> char" where
  "digit_char d = char_of (48 + d)"

fun py_str_nat :: "nat \<Rightarrow> string" where
  "py_str_nat n = (if n < 10 then [digit_char n] else py_str_nat (n div 10) @ [digit_char (n mod 10)])"

declare py_str_nat.simps [simp del]

definition py_isdigit :: "char \<Rightarrow> bool" where
  "py_isdigit c \<longleftrightarrow> 48 \<le> (of_char c :: nat) \<and> (of_char c :: nat) < 58"

text \<open>Reading digits back, as \<open>int(s)\<close> does on a string of digits.\<close>

definition parse_nat :: "string \<Rightarrow> nat" where
  "parse_nat s = foldl (\<lambda>a c. 10 * a + (of_char c - 48)) 0 s"

lemma digit_char_of [simp]: "d < 10 \<Longrightarrow> of_char (digit_char d) = 48 + d"
  by (simp add: digit_char_def)

lemma py_isdigit_char [simp]: "d < 10 \<Longrightarrow> py_isdigit (digit_char d)"
  by (simp add: py_isdigit_def)

lemma py_str_nat_digits: "\<forall>c \<in> set (py_str_nat n). py_isdigit c"
  by (induction n rule: py_str_nat.induct) (subst py_str_nat.simps, auto)

lemma py_str_nat_nonempty: "py_str_nat n \<noteq> []"
  by (subst py_str_nat.simps) simp

lemma parse_nat_snoc: "parse_nat (s @ [c]) = 10 * parse_nat s + (of_char c - 48)"
  by (simp add: parse_nat_def)

lemma parse_py_str_nat: "parse_nat (py_str_nat n) = n"
proof (induction n rule: py_str_nat.induct)
  case (1 n)
  show ?case
  proof (cases "n < 10")
    case True
    then show ?thesis by (subst py_str_nat.simps) (simp add: parse_nat_def)
  next
    case False
    then have "parse_nat (py_str_nat n) = 10 * (n div 10) + n mod 10"
      using "1.IH" by (subst py_str_nat.simps) (simp add: parse_nat_snoc)
    then show ?thesis by simp
  qed
qed

lemma takeWhile_digits_py_str_nat:
  "\<not> py_isdigit c \<Longrightarrow> takeWhile py_isdigit (py_str_nat n @ c # rest) = py_str_nat n"
  using py_str_nat_digits [of n] by (simp add: takeWhile_append2)

end
