(* ===== verification/Peak.thy ===== *)
theory Peak
  imports Prelude
begin

text \<open>
  PeakLocator: \<open>OWFFT.peak_search\<close> (\<open>owfft.py\<close>, lines 297--310) is numpy's
  \<open>Ix.argmax()\<close>. numpy scans the array once, keeping the best index and value and
  replacing them only on a strictly greater element, so the result is the first index
  of the maximum; an empty array raises \<open>ValueError\<close>. The theory states the
  abstract contract (\<open>is_first_max\<close>), proves the scan implements it, and proves how
  the peak moves under the operations the transform applies to a signal: appending,
  slicing and pointwise weighting.
\<close>

section \<open>The scan\<close>

fun argmax_from :: "'a::linorder list \<Rightarrow> nat \<Rightarrow> nat \<Rightarrow> 'a \<Rightarrow> nat" where
  "argmax_from [] i bi bv = bi"
| "argmax_from (x # xs) i bi bv =
     (if bv < x then argmax_from xs (Suc i) i x else argmax_from xs (Suc i) bi bv)"

definition peak_search :: "'a::linorder list \<Rightarrow> fft_error + nat" where
  "peak_search Ix = (case Ix of [] \<Rightarrow> Inl EmptyArgmax | x # xs \<Rightarrow> Inr (argmax_from xs 1 0 x))"

section \<open>The contract\<close>

definition is_first_max :: "'a::linorder list \<Rightarrow> nat \<Rightarrow> bool" where
  "is_first_max xs i \<longleftrightarrow>
     i < length xs \<and> (\<forall>j < length xs. xs ! j \<le> xs ! i) \<and> (\<forall>j < i. xs ! j < xs ! i)"

lemma is_first_max_unique:
  assumes "is_first_max xs i" and "is_first_max xs j"
  shows "i = j"
proof (rule ccontr)
  assume "i \<noteq> j"
  then have "i < j \<or> j < i" by arith
  with assms show False
    unfolding is_first_max_def by (meson leD)
qed

lemma argmax_from_correct:
  assumes "is_first_max p bi" and "bv = p ! bi" and "i = length p"
  shows "is_first_max (p @ xs) (argmax_from xs i bi bv)"
  using assms
proof (induction xs arbitrary: p i bi bv)
  case Nil
  then show ?case by simp
next
  case (Cons x xs)
  show ?case
  proof (cases "bv < x")
    case True
    have "is_first_max (p @ [x]) i"
      using Cons.prems True
      by (auto simp: is_first_max_def nth_append less_Suc_eq)
    with Cons.IH [of "p @ [x]" i x "Suc i"] Cons.prems True show ?thesis
      by simp
  next
    case False
    have "is_first_max (p @ [x]) bi"
      using Cons.prems False
      by (auto simp: is_first_max_def nth_append less_Suc_eq)
    with Cons.IH [of "p @ [x]" bi bv "Suc i"] Cons.prems False show ?thesis
      by (simp add: nth_append is_first_max_def)
  qed
qed

lemma peak_search_Inr_iff:
  "peak_search xs = Inr i \<longleftrightarrow> is_first_max xs i"
proof (cases xs)
  case Nil
  then show ?thesis by (simp add: peak_search_def is_first_max_def)
next
  case (Cons x ys)
  have "is_first_max [x] 0" by (simp add: is_first_max_def)
  then have "is_first_max ([x] @ ys) (argmax_from ys 1 0 x)"
    by (rule argmax_from_correct) simp_all
  with Cons show ?thesis
    by (auto simp: peak_search_def dest: is_first_max_unique)
qed

lemma peak_search_Inl_iff [simp]:
  "peak_search xs = Inl e \<longleftrightarrow> xs = [] \<and> e = EmptyArgmax"
  by (auto simp: peak_search_def split: list.splits)

lemma peak_search_Nil [simp]: "peak_search [] = Inl EmptyArgmax"
  by (simp add: peak_search_def)

lemma peak_search_exists:
  "xs \<noteq> [] \<Longrightarrow> \<exists>i. peak_search xs = Inr i"
  by (auto simp: peak_search_def split: list.splits)

lemma peak_search_less:
  "peak_search xs = Inr i \<Longrightarrow> i < length xs"
  by (simp add: peak_search_Inr_iff is_first_max_def)

lemma peak_search_max:
  "peak_search xs = Inr i \<Longrightarrow> x \<in> set xs \<Longrightarrow> x \<le> xs ! i"
  by (auto simp: peak_search_Inr_iff is_first_max_def in_set_conv_nth)

section \<open>How the peak moves\<close>

text \<open>Appending values no larger than the peak keeps it (zero-filling).\<close>

lemma is_first_max_append:
  assumes pk: "is_first_max xs i" and le: "\<forall>y \<in> set ys. y \<le> xs ! i"
  shows "is_first_max (xs @ ys) i"
proof -
  have i: "i < length xs" using pk by (simp add: is_first_max_def)
  have "(xs @ ys) ! j \<le> (xs @ ys) ! i" if "j < length (xs @ ys)" for j
  proof (cases "j < length xs")
    case True
    with pk i show ?thesis by (simp add: is_first_max_def nth_append)
  next
    case False
    with that have "(xs @ ys) ! j \<in> set ys" by (simp add: nth_append)
    with le i show ?thesis by (simp add: nth_append)
  qed
  moreover have "(xs @ ys) ! j < (xs @ ys) ! i" if "j < i" for j
    using pk i that by (simp add: is_first_max_def nth_append)
  ultimately show ?thesis using i by (simp add: is_first_max_def)
qed

text \<open>A value above everything before it and no smaller than everything after it is the peak.\<close>

lemma is_first_max_append_above:
  assumes lt: "\<forall>x \<in> set xs. x < y" and le: "\<forall>z \<in> set ys. z \<le> y"
  shows "is_first_max (xs @ y # ys) (length xs)"
proof -
  have "(xs @ y # ys) ! j \<le> y" if "j < length (xs @ y # ys)" for j
  proof (cases "j < length xs")
    case True
    with lt show ?thesis by (simp add: nth_append less_imp_le)
  next
    case False
    with that le show ?thesis
      by (cases "j - length xs") (auto simp: nth_append)
  qed
  moreover have "(xs @ y # ys) ! j < y" if "j < length xs" for j
    using lt that by (simp add: nth_append)
  ultimately show ?thesis by (simp add: is_first_max_def nth_append)
qed

text \<open>A window \<open>[a, b)\<close> around the peak has the peak at the shifted index.\<close>

lemma is_first_max_slice:
  assumes pk: "is_first_max xs z" and "a \<le> z" and "z < b" and "b \<le> length xs"
  shows "is_first_max (take (b - a) (drop a xs)) (z - a)"
proof -
  let ?s = "take (b - a) (drop a xs)"
  have len: "length ?s = b - a" using assms by simp
  have nth: "?s ! k = xs ! (a + k)" if "k < b - a" for k
    using assms that by simp
  have "?s ! k \<le> ?s ! (z - a)" if "k < b - a" for k
    using pk assms that nth by (simp add: is_first_max_def)
  moreover have "?s ! k < ?s ! (z - a)" if "k < z - a" for k
    using pk assms that nth by (simp add: is_first_max_def)
  ultimately show ?thesis using len assms by (simp add: is_first_max_def)
qed

text \<open>
  Weighting by a window that is 1 at the peak and in \<open>(0, 1]\<close> elsewhere keeps a
  non-negative peak.
\<close>

lemma is_first_max_weighted:
  fixes xs ws :: "real list"
  assumes pk: "is_first_max xs z" and nn: "0 \<le> xs ! z"
    and len: "length ws = length xs" and one: "ws ! z = 1"
    and pos: "\<forall>w \<in> set ws. 0 < w \<and> w \<le> 1"
  shows "is_first_max (map2 (*) xs ws) z"
proof -
  have w: "0 < ws ! j \<and> ws ! j \<le> 1" if "j < length xs" for j
    using pos that len by (simp add: nth_mem)
  have bound: "xs ! j * ws ! j \<le> max (xs ! j) 0" if "j < length xs" for j
  proof (cases "0 \<le> xs ! j")
    case True
    then show ?thesis using w [OF that] by (simp add: mult_left_le)
  next
    case False
    then show ?thesis using w [OF that] by (simp add: mult_neg_pos less_imp_le)
  qed
  have strict: "xs ! j * ws ! j < xs ! z" if "j < length xs" "xs ! j < xs ! z" for j
  proof (cases "0 \<le> xs ! j")
    case True
    then show ?thesis using w [OF that(1)] that(2) mult_left_le [of "ws ! j" "xs ! j"] by linarith
  next
    case False
    then show ?thesis using w [OF that(1)] nn mult_neg_pos [of "xs ! j" "ws ! j"] by linarith
  qed
  have "xs ! j * ws ! j \<le> xs ! z" if "j < length xs" for j
  proof -
    have "xs ! j \<le> xs ! z" using pk that by (simp add: is_first_max_def)
    then show ?thesis using bound [OF that] nn by linarith
  qed
  moreover have "xs ! j * ws ! j < xs ! z" if "j < z" for j
    using strict pk that by (simp add: is_first_max_def)
  ultimately show ?thesis
    using pk len one by (simp add: is_first_max_def)
qed

section \<open>Properties\<close>

text \<open>
  C3 (refinement): \<open>peak_search\<close> implements the argmax contract. On a non-empty
  signal there is exactly one first index of the maximum and \<open>peak_search\<close> returns it;
  on the empty signal it raises numpy's empty-sequence \<open>ValueError\<close>.
\<close>

theorem peak_search_refinement:
  "peak_search xs = (if xs = [] then Inl EmptyArgmax else Inr (THE i. is_first_max xs i))
   \<and> (xs \<noteq> [] \<longrightarrow> (\<exists>!i. is_first_max xs i))"
proof (cases "xs = []")
  case True
  then show ?thesis by simp
next
  case False
  then obtain i where i: "peak_search xs = Inr i" using peak_search_exists by blast
  then have fm: "is_first_max xs i" by (simp add: peak_search_Inr_iff)
  then have the: "(THE i. is_first_max xs i) = i" by (blast intro: is_first_max_unique)
  have "\<exists>!i. is_first_max xs i" using fm by (blast intro: is_first_max_unique)
  with False i the show ?thesis by simp
qed

theorem peak_search_refinement_witness:
  "[1, 3, 3, 2 :: real] \<noteq> [] \<and> peak_search [1, 3, 3, 2 :: real] = Inr 1
   \<and> (\<exists>!i. is_first_max [1, 3, 3, 2 :: real] i)"
proof -
  have "peak_search [1, 3, 3, 2 :: real] = Inr 1" by (simp add: peak_search_def)
  then show ?thesis using peak_search_refinement [of "[1, 3, 3, 2 :: real]"] by simp
qed

end
