(* ===== verification/ZeroFill.thy ===== *)
theory ZeroFill
  imports Peak
begin

text \<open>
  ZeroFiller: \<open>OWFFT.zero_filling\<close> (\<open>owfft.py\<close>, lines 542--559). The padded length
  is the next power of two \<open>N_2 = int(np.exp2(np.ceil(np.log2(N))))\<close> plus
  \<open>N_2 * self.zff\<close> further zeros, appended at the end. \<open>self.zff\<close> is the index the
  "Zero Filling Factor" combo box stores (items \<open>2**n\<close> for \<open>n < 10\<close>), not the factor it
  displays. The theory proves the power-of-two bounds, the padded length, that the signal
  is a prefix of the result, and when the peak survives the padding.
\<close>

section \<open>Definitions\<close>

text \<open>
  \<open>np.log2(0)\<close> is \<open>-inf\<close> and \<open>np.exp2(-inf)\<close> is \<open>0.0\<close>, so an empty signal has
  \<open>N_2 = 0\<close>; otherwise \<open>\<lceil>log2 N\<rceil>\<close> is \<open>ceillog2\<close> of HOL-Library.Log_Nat.
\<close>

definition np_next_pow2 :: "nat \<Rightarrow> nat" where
  "np_next_pow2 N = (if N = 0 then 0 else 2 ^ ceillog2 N)"

definition zero_filling :: "nat \<Rightarrow> signal \<Rightarrow> signal" where
  "zero_filling zff Ix =
     (let N = length Ix; N_2 = np_next_pow2 N; zero_fill = (N_2 - N) + N_2 * zff
      in Ix @ replicate zero_fill 0)"

section \<open>The next power of two\<close>

lemma np_next_pow2_bounds:
  assumes "0 < N"
  shows "N \<le> np_next_pow2 N \<and> np_next_pow2 N < 2 * N"
  using assms le_two_power_ceillog2 [of N] two_power_ceillog2_gt [of N]
  by (simp add: np_next_pow2_def)

lemma np_next_pow2_power:
  "0 < N \<Longrightarrow> np_next_pow2 N = 2 ^ ceillog2 N"
  by (simp add: np_next_pow2_def)

lemma np_next_pow2_ge [simp]: "N \<le> np_next_pow2 N"
  by (cases "N = 0") (simp_all add: np_next_pow2_bounds)

lemma np_next_pow2_pos [simp]: "0 < np_next_pow2 N \<longleftrightarrow> 0 < N"
  by (simp add: np_next_pow2_def)

lemma np_next_pow2_of_pow2 [simp]: "np_next_pow2 (2 ^ k) = 2 ^ k"
  by (simp add: np_next_pow2_def)

section \<open>The padded signal\<close>

lemma length_zero_filling:
  "length (zero_filling zff Ix) = np_next_pow2 (length Ix) * (zff + 1)"
proof -
  have "length Ix \<le> np_next_pow2 (length Ix) + np_next_pow2 (length Ix) * zff"
    using np_next_pow2_ge [of "length Ix"] by linarith
  then show ?thesis by (simp add: zero_filling_def Let_def)
qed

lemma zero_filling_eq:
  "zero_filling zff Ix = Ix @ replicate (np_next_pow2 (length Ix) * (zff + 1) - length Ix) 0"
proof -
  have "np_next_pow2 (length Ix) - length Ix + np_next_pow2 (length Ix) * zff =
        np_next_pow2 (length Ix) * (zff + 1) - length Ix"
    using np_next_pow2_ge [of "length Ix"] by (simp add: algebra_simps)
  then show ?thesis by (simp add: zero_filling_def Let_def)
qed

lemma take_zero_filling [simp]: "take (length Ix) (zero_filling zff Ix) = Ix"
  by (simp add: zero_filling_def Let_def)

lemma nth_zero_filling:
  "i < length Ix \<Longrightarrow> zero_filling zff Ix ! i = Ix ! i"
  by (simp add: zero_filling_def Let_def nth_append)

lemma set_zero_filling_pad:
  "set (zero_filling zff Ix) \<subseteq> insert 0 (set Ix)"
  by (auto simp: zero_filling_def Let_def)

lemma zero_filling_nonempty [simp]:
  "zero_filling zff Ix = [] \<longleftrightarrow> Ix = []"
  by (cases "Ix = []") (simp_all add: zero_filling_def np_next_pow2_def Let_def)

text \<open>Padding is non-empty unless \<open>N\<close> is already a power of two and \<open>zff = 0\<close>.\<close>

lemma zero_filling_pads:
  assumes "0 < zff" and "Ix \<noteq> []"
  shows "length Ix < length (zero_filling zff Ix)"
proof -
  let ?P = "np_next_pow2 (length Ix)"
  have "length Ix \<le> ?P" by simp
  moreover have "0 < zff * ?P" using assms by simp
  moreover have "length (zero_filling zff Ix) = ?P + zff * ?P"
    by (simp add: length_zero_filling algebra_simps)
  ultimately show ?thesis by linarith
qed

section \<open>The peak under padding\<close>

lemma peak_zero_filling_nonneg:
  assumes "peak_search Ix = Inr z" and "0 \<le> Ix ! z"
  shows "peak_search (zero_filling zff Ix) = Inr z"
proof -
  have "is_first_max Ix z" using assms(1) by (simp add: peak_search_Inr_iff)
  then have "is_first_max (Ix @ replicate (np_next_pow2 (length Ix) * (zff + 1) - length Ix) 0) z"
    using assms(2) by (intro is_first_max_append) auto
  then show ?thesis by (simp add: peak_search_Inr_iff zero_filling_eq)
qed

lemma peak_zero_filling_negative:
  assumes neg: "\<forall>x \<in> set Ix. x < 0" and pads: "length Ix < length (zero_filling zff Ix)"
  shows "peak_search (zero_filling zff Ix) = Inr (length Ix)"
proof -
  define k where "k = np_next_pow2 (length Ix) * (zff + 1) - length Ix - 1"
  have k: "np_next_pow2 (length Ix) * (zff + 1) - length Ix = Suc k"
    using pads by (simp add: length_zero_filling k_def)
  have "is_first_max (Ix @ 0 # replicate k 0) (length Ix)"
    using neg by (intro is_first_max_append_above) auto
  then show ?thesis using k by (simp add: peak_search_Inr_iff zero_filling_eq)
qed

section \<open>Properties\<close>

lemma three_pow2_not_pow2: "3 * 2 ^ k \<noteq> (2::nat) ^ m"
proof
  assume eq: "3 * 2 ^ k = (2::nat) ^ m"
  show False
  proof (cases "m \<le> k")
    case True
    then have "(2::nat) ^ m \<le> 2 ^ k" by (simp add: power_increasing)
    moreover have "0 < (2::nat) ^ k" by simp
    ultimately show False using eq by linarith
  next
    case False
    then obtain d where m: "m = k + Suc d"
      using less_imp_Suc_add [of k m] by auto
    have "(2::nat) ^ m = 2 ^ k * (2 * 2 ^ d)" by (simp add: m power_add)
    with eq have three: "3 = 2 * (2::nat) ^ d" by simp
    have "even (2 * (2::nat) ^ d)" by simp
    with three have "even (3::nat)" by simp
    then show False by simp
  qed
qed

text \<open>
  C18 (functional): \<open>self.zff\<close> is the combo-box index, used directly as the factor.
  For the entry labelled "4" (index 2) a non-empty signal is padded to three times the
  next power of two, a length that is no power of two at all.
\<close>

theorem zero_filling_factor_index:
  assumes "Ix \<noteq> []"
  shows "length (zero_filling 2 Ix) = 3 * np_next_pow2 (length Ix)
         \<and> (\<forall>m. length (zero_filling 2 Ix) \<noteq> 2 ^ m)"
proof -
  have len: "length (zero_filling 2 Ix) = 3 * np_next_pow2 (length Ix)"
    by (simp add: length_zero_filling)
  have "np_next_pow2 (length Ix) = 2 ^ ceillog2 (length Ix)"
    using assms by (simp add: np_next_pow2_power)
  then show ?thesis using len three_pow2_not_pow2 by simp
qed

theorem zero_filling_factor_index_witness:
  "[1 :: real] \<noteq> [] \<and> length (zero_filling 2 [1 :: real]) = 3 * np_next_pow2 (length [1 :: real])
   \<and> (\<forall>m. length (zero_filling 2 [1 :: real]) \<noteq> 2 ^ m)"
proof -
  have h: "[1 :: real] \<noteq> []" by simp
  show ?thesis using h zero_filling_factor_index [OF h] by blast
qed

text \<open>
  C19 (bounds): for a non-empty signal, \<open>int(np.exp2(np.ceil(np.log2(N))))\<close> is a power
  of two in \<open>[N, 2N)\<close>.
\<close>

theorem np_next_pow2_spec:
  assumes "0 < N"
  shows "N \<le> np_next_pow2 N \<and> np_next_pow2 N < 2 * N \<and> (\<exists>k. np_next_pow2 N = 2 ^ k)"
  using np_next_pow2_bounds [OF assms] np_next_pow2_power [OF assms] by blast

theorem np_next_pow2_spec_witness:
  "np_next_pow2 5 = 8 \<and> 5 \<le> np_next_pow2 5 \<and> np_next_pow2 5 < 2 * 5"
proof -
  have "ceillog2 5 = 3" by (rule ceillog2_eqI) simp_all
  then have "np_next_pow2 5 = 8" by (simp add: np_next_pow2_def)
  then show ?thesis using np_next_pow2_spec [of 5] by simp
qed

end
