(* ===== verification/Apodization.thy ===== *)
theory Apodization
  imports Peak
begin

text \<open>
  Apodizer: \<open>OWFFT.apodization\<close> (\<open>owfft.py\<close>, lines 460--540). The window is chosen
  by \<open>self.apod_func\<close>, the index of the "Apodization function" combo box: 0 Boxcar,
  1 Blackman-Harris 3-term, 2 Blackman-Harris 4-term, 3 Blackman-Nuttall; any other
  index leaves \<open>Bs\<close> unbound. The Blackman-Harris windows are built per wing, the
  negative wing (\<open>zpd + 1\<close> samples) reversed and concatenated with the positive wing;
  the Blackman-Nuttall window is one formula over all indices. The product \<open>Ix * Bs\<close>
  re-raises a broadcast failure as a \<open>ValueError\<close> on size mismatch.

  The theory proves that the window always has the signal's length (the size check never
  fails), that Boxcar is the identity, that both Blackman-Harris windows are exactly 1 at
  the zpd and lie in \<open>(0, 1]\<close>, and from that that apodization keeps a non-negative peak.
\<close>

section \<open>Windows\<close>

text \<open>One wing \<open>A0 + A1 cos(\<pi>n/w) + A2 cos(2\<pi>n/w) + A3 cos(3\<pi>n/w)\<close>, \<open>n = 0..w-1\<close>.\<close>

definition bh_wing :: "real \<Rightarrow> real \<Rightarrow> real \<Rightarrow> real \<Rightarrow> int \<Rightarrow> real list" where
  "bh_wing A0 A1 A2 A3 wing =
     map (\<lambda>n. A0 + A1 * cos (pi * real n / of_int wing) + A2 * cos (pi * 2 * real n / of_int wing)
               + A3 * cos (pi * 3 * real n / of_int wing))
         [0..<nat wing]"

definition bn_window :: "nat \<Rightarrow> int \<Rightarrow> real list" where
  "bn_window N delta =
     map (\<lambda>x. 0.3635819 - 0.4891775 * cos (2 * pi * real x / (2 * of_int delta - 1))
               + 0.1365995 * cos (4 * pi * real x / (2 * of_int delta - 1))
               - 0.0106411 * cos (6 * pi * real x / (2 * of_int delta - 1)))
         [0..<N]"

definition apod_window :: "nat \<Rightarrow> nat \<Rightarrow> nat \<Rightarrow> fft_error + real list" where
  "apod_window apod_func N zpd =
     (let wing_n = int zpd + 1; wing_p = int N - (int zpd + 1) in
      if apod_func = 0 then Inr (replicate N 1)
      else if apod_func = 1 then
        Inr (rev (bh_wing 0.42323 0.49755 0.07922 0 wing_n) @ bh_wing 0.42323 0.49755 0.07922 0 wing_p)
      else if apod_func = 2 then
        Inr (rev (bh_wing 0.35875 0.48829 0.14128 0.01168 wing_n)
             @ bh_wing 0.35875 0.48829 0.14128 0.01168 wing_p)
      else if apod_func = 3 then Inr (bn_window N (min wing_n wing_p))
      else Inl (UnboundWindow apod_func))"

definition apodization :: "nat \<Rightarrow> signal \<Rightarrow> nat \<Rightarrow> fft_error + signal" where
  "apodization apod_func Ix zpd =
     (case apod_window apod_func (length Ix) zpd of
        Inl e \<Rightarrow> Inl e
      | Inr Bs \<Rightarrow> (case np_broadcast (*) Ix Bs of Inl _ \<Rightarrow> Inl ApodSize | Inr r \<Rightarrow> Inr r))"

section \<open>Lengths\<close>

lemma length_bh_wing [simp]: "length (bh_wing A0 A1 A2 A3 w) = nat w"
  by (simp add: bh_wing_def)

lemma length_bn_window [simp]: "length (bn_window N d) = N"
  by (simp add: bn_window_def)

lemma apod_window_length:
  assumes "apod_func \<le> 3" and "zpd < N"
  shows "\<exists>Bs. apod_window apod_func N zpd = Inr Bs \<and> length Bs = N"
proof -
  have "nat (int zpd + 1) + nat (int N - (int zpd + 1)) = N" using assms(2) by arith
  then show ?thesis using assms(1)
    by (auto simp: apod_window_def Let_def)
qed

lemma apodization_window:
  assumes "apod_window apod_func (length Ix) zpd = Inr Bs" and "length Bs = length Ix"
  shows "apodization apod_func Ix zpd = Inr (map2 (*) Ix Bs)"
  using assms by (simp add: apodization_def np_broadcast_same)

lemma apodization_unknown:
  "3 < apod_func \<Longrightarrow> apodization apod_func Ix zpd = Inl (UnboundWindow apod_func)"
  by (simp add: apodization_def apod_window_def Let_def)

section \<open>Blackman-Harris windows lie in (0, 1]\<close>

lemma bh_value_cos:
  fixes x w :: real
  defines "c \<equiv> cos (pi * x / w)"
  shows "A0 + A1 * cos (pi * x / w) + A2 * cos (pi * 2 * x / w) + A3 * cos (pi * 3 * x / w)
         = A0 + A1 * c + A2 * (2 * c ^ 2 - 1) + A3 * (4 * c ^ 3 - 3 * c)"
proof -
  have "pi * 2 * x / w = 2 * (pi * x / w)" and "pi * 3 * x / w = 3 * (pi * x / w)"
    by simp_all
  then show ?thesis by (simp only: c_def cos_double_cos cos_treble_cos)
qed

lemma bh3_poly_bounds:
  fixes c :: real
  assumes "-1 \<le> c" and "c \<le> 1"
  shows "0 < 0.42323 + 0.49755 * c + 0.07922 * (2 * c ^ 2 - 1) + 0 * (4 * c ^ 3 - 3 * c)
       \<and> 0.42323 + 0.49755 * c + 0.07922 * (2 * c ^ 2 - 1) + 0 * (4 * c ^ 3 - 3 * c) \<le> 1"
    (is "0 < ?q \<and> _")
proof
  have "?q = 49 / 10000 + (c + 1) * (0.33911 + 0.15844 * c)" by algebra
  moreover have "0 \<le> (c + 1) * (0.33911 + 0.15844 * c)" using assms by simp
  ultimately show "0 < ?q" by linarith
next
  have "?q = 1 - (1 - c) * (0.65599 + 0.15844 * c)" by algebra
  moreover have "0 \<le> (1 - c) * (0.65599 + 0.15844 * c)" using assms by simp
  ultimately show "?q \<le> 1" by linarith
qed

lemma bh4_poly_bounds:
  fixes c :: real
  assumes "-1 \<le> c" and "c \<le> 1"
  shows "0 < 0.35875 + 0.48829 * c + 0.14128 * (2 * c ^ 2 - 1) + 0.01168 * (4 * c ^ 3 - 3 * c)
       \<and> 0.35875 + 0.48829 * c + 0.14128 * (2 * c ^ 2 - 1) + 0.01168 * (4 * c ^ 3 - 3 * c) \<le> 1"
    (is "0 < ?q \<and> _")
proof
  have "?q = 6 / 100000 + (c + 1) * (0.02829 + (c + 1) * (0.04672 * c + 0.18912))" by algebra
  moreover have "0 \<le> (c + 1) * (0.04672 * c + 0.18912)" using assms by simp
  then have "0 \<le> (c + 1) * (0.02829 + (c + 1) * (0.04672 * c + 0.18912))" using assms by simp
  ultimately show "0 < ?q" by linarith
next
  have "?q = 1 - (1 - c) * (0.49997 + (c + 1) * (0.04672 * c + 0.28256))" by algebra
  moreover have "0 \<le> (c + 1) * (0.04672 * c + 0.28256)" using assms by simp
  then have "0 \<le> (1 - c) * (0.49997 + (c + 1) * (0.04672 * c + 0.28256))" using assms by simp
  ultimately show "?q \<le> 1" by linarith
qed

lemma bh_wing_unit:
  assumes poly: "\<And>c::real. -1 \<le> c \<Longrightarrow> c \<le> 1 \<Longrightarrow>
      0 < A0 + A1 * c + A2 * (2 * c ^ 2 - 1) + A3 * (4 * c ^ 3 - 3 * c)
      \<and> A0 + A1 * c + A2 * (2 * c ^ 2 - 1) + A3 * (4 * c ^ 3 - 3 * c) \<le> 1"
  shows "\<forall>v \<in> set (bh_wing A0 A1 A2 A3 w). 0 < v \<and> v \<le> 1"
proof
  fix v assume "v \<in> set (bh_wing A0 A1 A2 A3 w)"
  then obtain n where v: "v = A0 + A1 * cos (pi * real n / of_int w) + A2 * cos (pi * 2 * real n / of_int w)
      + A3 * cos (pi * 3 * real n / of_int w)"
    by (auto simp: bh_wing_def)
  show "0 < v \<and> v \<le> 1"
    unfolding v bh_value_cos by (rule poly) simp_all
qed

lemma bh_wing_first:
  "0 < w \<Longrightarrow> bh_wing A0 A1 A2 A3 w ! 0 = A0 + A1 + A2 + A3"
  by (simp add: bh_wing_def)

lemma apod_window_bh_cases:
  assumes "apod_func \<in> {1, 2}"
  obtains A0 A1 A2 A3 where
    "apod_window apod_func N zpd =
       Inr (rev (bh_wing A0 A1 A2 A3 (int zpd + 1)) @ bh_wing A0 A1 A2 A3 (int N - (int zpd + 1)))"
    and "A0 + A1 + A2 + A3 = 1"
    and "\<forall>w. \<forall>v \<in> set (bh_wing A0 A1 A2 A3 w). 0 < v \<and> v \<le> 1"
proof (cases "apod_func = 1")
  case True
  then show ?thesis
    using that [of "0.42323" "0.49755" "0.07922" 0] bh_wing_unit [OF bh3_poly_bounds]
    by (simp add: apod_window_def Let_def)
next
  case False
  with assms have "apod_func = 2" by simp
  then show ?thesis
    using that [of "0.35875" "0.48829" "0.14128" "0.01168"] bh_wing_unit [OF bh4_poly_bounds]
    by (simp add: apod_window_def Let_def)
qed

text \<open>Both Blackman-Harris windows are exactly 1 at the zpd and lie in \<open>(0, 1]\<close>.\<close>

lemma apod_window_bh_shape:
  assumes "apod_func \<in> {1, 2}" and "apod_window apod_func N zpd = Inr Bs"
  shows "Bs ! zpd = 1 \<and> (\<forall>v \<in> set Bs. 0 < v \<and> v \<le> 1)"
proof -
  obtain A0 A1 A2 A3 where
    w: "apod_window apod_func N zpd =
       Inr (rev (bh_wing A0 A1 A2 A3 (int zpd + 1)) @ bh_wing A0 A1 A2 A3 (int N - (int zpd + 1)))"
    and one: "A0 + A1 + A2 + A3 = 1"
    and unit: "\<forall>w. \<forall>v \<in> set (bh_wing A0 A1 A2 A3 w). 0 < v \<and> v \<le> 1"
    using apod_window_bh_cases [OF assms(1)] by blast
  have Bs: "Bs = rev (bh_wing A0 A1 A2 A3 (int zpd + 1)) @ bh_wing A0 A1 A2 A3 (int N - (int zpd + 1))"
    using w assms(2) by simp
  have n: "nat (int zpd + 1) = Suc zpd" by simp
  have "Bs ! zpd = bh_wing A0 A1 A2 A3 (int zpd + 1) ! 0"
    by (simp add: Bs nth_append rev_nth n)
  also have "\<dots> = 1" using one by (simp add: bh_wing_first)
  finally show ?thesis using unit by (auto simp: Bs)
qed

section \<open>Apodization\<close>

lemma apodization_total:
  assumes "apod_func \<le> 3" and "zpd < length Ix"
  shows "\<exists>Bs. length Bs = length Ix \<and> apod_window apod_func (length Ix) zpd = Inr Bs
           \<and> apodization apod_func Ix zpd = Inr (map2 (*) Ix Bs)"
  using apod_window_length [OF assms] apodization_window by blast

lemma apodization_length:
  "apodization apod_func Ix zpd = Inr ys \<Longrightarrow> apod_func \<le> 3 \<Longrightarrow> zpd < length Ix \<Longrightarrow> length ys = length Ix"
  using apodization_total [of apod_func zpd Ix] by auto

text \<open>Boxcar and both Blackman-Harris windows keep a non-negative peak in place.\<close>

lemma apodization_keeps_peak:
  assumes f: "apod_func \<le> 2" and pk: "peak_search Ix = Inr z" and nn: "0 \<le> Ix ! z"
  shows "\<exists>ys. apodization apod_func Ix z = Inr ys \<and> peak_search ys = Inr z \<and> length ys = length Ix"
proof (cases "apod_func = 0")
  case True
  then show ?thesis using pk
    by (simp add: apodization_def apod_window_def np_broadcast_same map2_replicate_right)
next
  case False
  with f have bh: "apod_func \<in> {1, 2}" by auto
  have z: "z < length Ix" using pk by (rule peak_search_less)
  obtain Bs where len: "length Bs = length Ix"
    and w: "apod_window apod_func (length Ix) z = Inr Bs"
    and a: "apodization apod_func Ix z = Inr (map2 (*) Ix Bs)"
    using apodization_total [of apod_func z Ix] f z by auto
  have "is_first_max (map2 (*) Ix Bs) z"
    using pk nn len apod_window_bh_shape [OF bh w]
    by (intro is_first_max_weighted) (simp_all add: peak_search_Inr_iff)
  then show ?thesis using a len by (simp add: peak_search_Inr_iff)
qed

text \<open>
  For the functions 0--2 apodization is a pointwise product with a window that is 1 at
  the zpd and lies in \<open>(0, 1]\<close>; the facts the transform needs follow from this one.
\<close>

lemma apodization_unit_window:
  assumes f: "apod_func \<le> 2" and z: "z < length Ix"
  shows "\<exists>Bs. apodization apod_func Ix z = Inr (map2 (*) Ix Bs) \<and> length Bs = length Ix
             \<and> Bs ! z = 1 \<and> (\<forall>v \<in> set Bs. 0 < v \<and> v \<le> 1)"
proof (cases "apod_func = 0")
  case True
  have "apodization apod_func Ix z = Inr (map2 (*) Ix (replicate (length Ix) 1))"
    using True by (simp add: apodization_def apod_window_def np_broadcast_same)
  then show ?thesis using z by (intro exI [of _ "replicate (length Ix) 1"]) simp
next
  case False
  with f have bh: "apod_func \<in> {1, 2}" by auto
  obtain Bs where len: "length Bs = length Ix"
    and w: "apod_window apod_func (length Ix) z = Inr Bs"
    and a: "apodization apod_func Ix z = Inr (map2 (*) Ix Bs)"
    using apodization_total [of apod_func z Ix] f z by auto
  then show ?thesis using apod_window_bh_shape [OF bh w] by blast
qed

lemma apodization_at_zpd:
  assumes "apod_func \<le> 2" and "z < length Ix" and "apodization apod_func Ix z = Inr ys"
  shows "ys ! z = Ix ! z \<and> length ys = length Ix"
  using apodization_unit_window [OF assms(1,2)] assms(2,3) by auto

lemma apodization_negative:
  assumes "apod_func \<le> 2" and "z < length Ix" and "apodization apod_func Ix z = Inr ys"
    and neg: "\<forall>x \<in> set Ix. x < 0"
  shows "\<forall>y \<in> set ys. y < 0"
proof -
  obtain Bs where ys: "ys = map2 (*) Ix Bs" and len: "length Bs = length Ix"
    and pos: "\<forall>v \<in> set Bs. 0 < v \<and> v \<le> 1"
    using apodization_unit_window [OF assms(1,2)] assms(3) by auto
  have "ys ! j < 0" if "j < length ys" for j
  proof -
    have "Ix ! j < 0" "0 < Bs ! j" using that neg pos len by (simp_all add: ys nth_mem)
    then show ?thesis using that len by (simp add: ys mult_neg_pos)
  qed
  then show ?thesis by (auto simp: in_set_conv_nth)
qed

text \<open>A signal that is zero away from the zpd is left unchanged.\<close>

lemma map2_unit_at_support:
  assumes "length Bs = length Ix" and "Bs ! z = 1"
    and "\<forall>j < length Ix. j \<noteq> z \<longrightarrow> Ix ! j = (0 :: real)"
  shows "map2 (*) Ix Bs = Ix"
  using assms by (intro nth_equalityI) (simp_all, metis mult_cancel_left2 mult_zero_left)

lemma apodization_impulse:
  assumes "apod_func \<le> 2" and "z < length Ix"
    and "\<forall>j < length Ix. j \<noteq> z \<longrightarrow> Ix ! j = 0"
  shows "apodization apod_func Ix z = Inr Ix"
  using apodization_unit_window [OF assms(1,2)] map2_unit_at_support assms(3) by metis

section \<open>Properties\<close>

text \<open>
  C16 (functional): Boxcar apodization returns the signal unchanged, whatever zpd it is
  given (\<open>Ix * np.ones_like(Ix)\<close>).
\<close>

theorem boxcar_apodization_identity:
  "apodization 0 Ix zpd = Inr Ix"
  by (simp add: apodization_def apod_window_def np_broadcast_same map2_replicate_right)

text \<open>
  C17 (invariant): for both Blackman-Harris functions and any zpd inside the signal, the
  window has the signal's length, is exactly 1 at the zpd and lies in \<open>(0, 1]\<close>.
\<close>

theorem blackman_harris_window_shape:
  assumes "apod_func \<in> {1, 2}" and "zpd < N"
  shows "\<exists>Bs. apod_window apod_func N zpd = Inr Bs \<and> length Bs = N \<and> Bs ! zpd = 1
             \<and> (\<forall>v \<in> set Bs. 0 < v \<and> v \<le> 1)"
proof -
  obtain Bs where "apod_window apod_func N zpd = Inr Bs" and "length Bs = N"
    using apod_window_length [of apod_func zpd N] assms by auto
  then show ?thesis using apod_window_bh_shape [OF assms(1)] by blast
qed

theorem blackman_harris_window_shape_witness:
  "\<exists>Bs. apod_window 1 3 1 = Inr Bs \<and> length Bs = 3 \<and> Bs ! 1 = 1 \<and> (\<forall>v \<in> set Bs. 0 < v \<and> v \<le> 1)"
  using blackman_harris_window_shape [of 1 1 3] by simp

text \<open>
  C23 (error): for a zpd inside the signal, apodization fails only for an unknown function
  index, with the \<open>UnboundLocalError\<close> of \<open>Bs\<close>; the size-mismatch \<open>ValueError\<close> it
  guards against is unreachable.
\<close>

theorem apodization_errors:
  assumes "zpd < length Ix"
  shows "apodization apod_func Ix zpd = Inl e \<longleftrightarrow> 3 < apod_func \<and> e = UnboundWindow apod_func"
proof (cases "apod_func \<le> 3")
  case True
  then show ?thesis using apodization_total [OF True assms] by auto
next
  case False
  then show ?thesis by (auto simp: apodization_unknown)
qed

theorem apodization_errors_witness:
  "0 < length [1 :: real] \<and> apodization 4 [1 :: real] 0 = Inl (UnboundWindow 4)"
  using apodization_errors [of 0 "[1 :: real]" 4 "UnboundWindow 4"] by simp

end
