(* ===== verification/Spectral.thy ===== *)
theory Spectral
  imports Prelude
begin

text \<open>
  The numpy primitives the transform of \<open>owfft.py\<close> calls, with the semantics numpy
  gives them on 1-D float arrays: \<open>np.fft.rfftfreq\<close> (\<open>wavenumber_set\<close>, line 398, and
  \<open>compute_phase\<close>, line 445), \<open>np.fft.rfft\<close> as the discrete Fourier transform on the
  non-negative frequencies (lines 376 and 442), \<open>np.arctan2\<close> (line 450),
  \<open>np.interp\<close> (line 454), the rotation \<open>np.hstack((x[zpd:], x[0:zpd]))\<close> (lines 373
  and 440) and \<open>np.searchsorted\<close> with \<open>side='left'\<close> (line 285) as numpy's
  bisection. \<open>rfft\<close> is the exact DFT over \<open>real\<close>/\<open>complex\<close>: the FFT algorithm
  and its rounding are not modelled. Each primitive is proved against a simpler
  reference where one exists; the bisection is the loop of numpy's \<open>binsearch\<close> around
  its body \<open>bisect_step\<close>, proved to leave every interval after at most
  \<open>floorlog 2 (hi - lo)\<close> passes of that body.
\<close>

section \<open>Frequency axis\<close>

text \<open>
  \<open>val = 1.0/(n*d); results = arange(0, n//2 + 1); return results * val\<close>; the
  division is Python's, so \<open>n*d = 0\<close> raises \<open>ZeroDivisionError\<close>.
\<close>

definition np_rfftfreq :: "nat \<Rightarrow> real \<Rightarrow> fft_error + real list" where
  "np_rfftfreq n d =
     (if real n * d = 0 then Inl ZeroDivision
      else Inr (map (\<lambda>k. real k * (1 / (real n * d))) [0..<n div 2 + 1]))"

lemma np_rfftfreq_Inr:
  "real n * d \<noteq> 0 \<Longrightarrow> np_rfftfreq n d = Inr (map (\<lambda>k. real k * (1 / (real n * d))) [0..<n div 2 + 1])"
  by (simp add: np_rfftfreq_def)

lemma np_rfftfreq_length:
  "np_rfftfreq n d = Inr wn \<Longrightarrow> length wn = n div 2 + 1"
  by (auto simp: np_rfftfreq_def split: if_splits)

lemma np_rfftfreq_sorted:
  assumes "0 < n" and "0 < d" and "np_rfftfreq n d = Inr wn"
  shows "sorted_wrt (<) wn"
proof -
  have pos: "0 < 1 / (real n * d)" using assms(1,2) by simp
  have "wn = map (\<lambda>k. real k * (1 / (real n * d))) [0..<n div 2 + 1]"
    using assms by (simp add: np_rfftfreq_def)
  then show ?thesis
    using pos by (auto simp: sorted_wrt_iff_nth_less intro!: divide_strict_right_mono simp del: upt_Suc)
qed

section \<open>Discrete Fourier transform\<close>

definition dft_bin :: "real list \<Rightarrow> nat \<Rightarrow> complex" where
  "dft_bin xs k =
     (\<Sum>n<length xs. complex_of_real (xs ! n) * cis (- 2 * pi * real k * real n / real (length xs)))"

definition np_rfft :: "real list \<Rightarrow> fft_error + complex list" where
  "np_rfft xs = (if xs = [] then Inl FFTNoPoints else Inr (map (dft_bin xs) [0..<length xs div 2 + 1]))"

lemma np_rfft_Inr:
  "xs \<noteq> [] \<Longrightarrow> np_rfft xs = Inr (map (dft_bin xs) [0..<length xs div 2 + 1])"
  by (simp add: np_rfft_def)

lemma np_rfft_length:
  "np_rfft xs = Inr X \<Longrightarrow> length X = length xs div 2 + 1"
  by (auto simp: np_rfft_def split: if_splits)

text \<open>An impulse at index 0 has a flat transform.\<close>

lemma dft_bin_impulse:
  "dft_bin (a # replicate m 0) k = complex_of_real a"
proof -
  let ?f = "\<lambda>n. complex_of_real ((a # replicate m 0) ! n) * cis (- 2 * pi * real k * real n / real (Suc m))"
  have "dft_bin (a # replicate m 0) k = sum ?f {..<Suc m}"
    by (simp only: dft_bin_def length_Cons length_replicate)
  also have "\<dots> = ?f 0 + sum (\<lambda>n. ?f (Suc n)) {..<m}"
    by (rule sum.lessThan_Suc_shift)
  also have "\<dots> = complex_of_real a" by simp
  finally show ?thesis .
qed

lemma np_rfft_impulse:
  "np_rfft (a # replicate m 0) = Inr (replicate (Suc m div 2 + 1) (complex_of_real a))"
proof -
  have "dft_bin (a # replicate m 0) = (\<lambda>k. complex_of_real a)"
    by (rule ext) (rule dft_bin_impulse)
  then show ?thesis by (simp add: np_rfft_def map_replicate_const del: upt_Suc)
qed

section \<open>Phase angle\<close>

text \<open>
  \<open>np.arctan2(y, x)\<close> as C's \<open>atan2\<close>, with the signed zeros of IEEE floats identified
  (\<open>arctan2(0, x) = \<pi>\<close> for \<open>x < 0\<close>).
\<close>

definition np_arctan2 :: "real \<Rightarrow> real \<Rightarrow> real" where
  "np_arctan2 y x =
     (if 0 < x then arctan (y / x)
      else if x < 0 then (if 0 \<le> y then arctan (y / x) + pi else arctan (y / x) - pi)
      else if 0 < y then pi / 2 else if y < 0 then - (pi / 2) else 0)"

lemma np_arctan2_pos_real [simp]: "0 < x \<Longrightarrow> np_arctan2 0 x = 0"
  by (simp add: np_arctan2_def)

lemma np_arctan2_bounds: "- pi \<le> np_arctan2 y x \<and> np_arctan2 y x \<le> pi"
proof -
  have a: "- (pi / 2) < arctan (y / x) \<and> arctan (y / x) < pi / 2"
    by (rule arctan_bounded)
  have p: "0 < pi" by (rule pi_gt_zero)
  consider "0 < x" | "x < 0" "0 \<le> y" | "x < 0" "y < 0" | "x = 0" by linarith
  then show ?thesis
  proof cases
    case 1
    then show ?thesis using a p by (simp add: np_arctan2_def)
  next
    case 2
    then have "y / x \<le> 0" by (simp add: divide_nonneg_neg)
    then show ?thesis using a p 2 by (simp add: np_arctan2_def)
  next
    case 3
    then have "0 < y / x" by (simp add: divide_neg_neg)
    then show ?thesis using a p 3 by (simp add: np_arctan2_def)
  next
    case 4
    then have "np_arctan2 y x = pi / 2 \<or> np_arctan2 y x = - (pi / 2) \<or> np_arctan2 y x = 0"
      by (simp add: np_arctan2_def)
    then show ?thesis using p by (elim disjE) linarith+
  qed
qed

section \<open>Interpolation\<close>

text \<open>
  \<open>np.interp(x, xp, fp)\<close> for increasing \<open>xp\<close>: below the first sample point the first
  value, from the last sample point on the last value, in between the linear
  interpolation on the segment \<open>xp[j] \<le> x < xp[j+1]\<close>; an empty \<open>xp\<close> and lengths that
  differ raise \<open>ValueError\<close>. numpy finds the segment by bisection; on increasing
  \<open>xp\<close> the scan below finds the same one.
\<close>

fun interp_seg :: "real \<Rightarrow> real list \<Rightarrow> real list \<Rightarrow> real" where
  "interp_seg x (a # b # xp) (fa # fb # fp) =
     (if x < b then (fb - fa) / (b - a) * (x - a) + fa else interp_seg x (b # xp) (fb # fp))"
| "interp_seg x xp fp = last fp"

definition interp_at :: "real \<Rightarrow> real list \<Rightarrow> real list \<Rightarrow> real" where
  "interp_at x xp fp =
     (if x < hd xp then hd fp else if last xp \<le> x then last fp else interp_seg x xp fp)"

definition np_interp :: "real list \<Rightarrow> real list \<Rightarrow> real list \<Rightarrow> fft_error + real list" where
  "np_interp xs xp fp =
     (if xp = [] then Inl InterpEmpty
      else if length fp \<noteq> length xp then Inl InterpLength
      else Inr (map (\<lambda>x. interp_at x xp fp) xs))"

lemma interp_seg_const:
  "length fp = length xp \<Longrightarrow> fp \<noteq> [] \<Longrightarrow> set fp \<subseteq> {c} \<Longrightarrow> interp_seg x xp fp = c"
proof (induction x xp fp rule: interp_seg.induct)
  case (1 x a b xp fa fb fp)
  then show ?case by auto
qed (simp_all add: last_of_singleton_set)

lemma np_interp_const:
  assumes "xp \<noteq> []" and "fp = replicate (length xp) c"
  shows "np_interp xs xp fp = Inr (replicate (length xs) c)"
proof -
  have "interp_at x xp fp = c" for x
    using assms interp_seg_const [of fp xp c x]
    by (cases xp) (auto simp: interp_at_def)
  then show ?thesis using assms by (simp add: np_interp_def map_replicate_const)
qed

lemma np_interp_length:
  "np_interp xs xp fp = Inr ys \<Longrightarrow> length ys = length xs"
  by (auto simp: np_interp_def split: if_splits)

section \<open>Rotation\<close>

definition rotate_zpd :: "nat \<Rightarrow> 'a list \<Rightarrow> 'a list" where
  "rotate_zpd zpd xs = py_slice xs (int zpd) (int (length xs)) @ py_slice xs 0 (int zpd)"

lemma rotate_zpd_drop_take:
  "zpd \<le> length xs \<Longrightarrow> rotate_zpd zpd xs = drop zpd xs @ take zpd xs"
  by (simp add: rotate_zpd_def py_slice_nat py_slice_from0)

lemma length_rotate_zpd [simp]: "length (rotate_zpd zpd xs) = length xs"
proof (cases "zpd \<le> length xs")
  case True
  then show ?thesis by (simp add: rotate_zpd_drop_take)
next
  case False
  then show ?thesis by (simp add: rotate_zpd_def py_slice_nat py_slice_from0)
qed

lemma rotate_zpd_impulse:
  assumes "xs = replicate z 0 @ a # ys" and "set ys \<subseteq> {0}"
  shows "rotate_zpd z xs = a # replicate (length xs - 1) (0 :: real)"
proof -
  obtain k where k: "ys = replicate k 0"
    using replicate_of_singleton_set [OF assms(2)] by blast
  have xs: "xs = replicate z 0 @ a # replicate k 0" using assms(1) k by simp
  have "replicate k (0::real) @ replicate z 0 = replicate (z + k) 0"
    by (simp add: replicate_add [symmetric] add.commute)
  then show ?thesis by (simp add: xs rotate_zpd_drop_take)
qed

section \<open>Binary search\<close>

text \<open>
  numpy's \<open>searchsorted(a, v, side='left')\<close>: bisection on \<open>[lo, hi)\<close> keeping
  \<open>a[i] < v\<close> left of \<open>lo\<close> and \<open>a[i] \<ge> v\<close> from \<open>hi\<close> on.
\<close>

text \<open>
  One pass of the loop of numpy's \<open>binsearch\<close> (\<open>npysort/binsearch.cpp\<close>): the midpoint
  \<open>mid = lo + ((hi - lo) >> 1)\<close> is compared with the key and the interval shrinks to
  \<open>[mid + 1, hi)\<close> or \<open>[lo, mid)\<close>.
\<close>

definition bisect_step :: "real list \<Rightarrow> real \<Rightarrow> nat \<times> nat \<Rightarrow> nat \<times> nat" where
  "bisect_step a v = (\<lambda>(lo, hi).
     let mid = lo + (hi - lo) div 2 in if a ! mid < v then (Suc mid, hi) else (lo, mid))"

lemma bisect_step_shrinks:
  assumes "lo < hi" and "bisect_step a v (lo, hi) = (lo', hi')"
  shows "hi' - lo' < hi - lo"
  using assms by (auto simp: bisect_step_def Let_def split: if_splits)

lemma bisect_step_halves:
  assumes "lo < hi" and "bisect_step a v (lo, hi) = (lo', hi')"
  shows "hi' - lo' \<le> (hi - lo) div 2"
  using assms by (auto simp: bisect_step_def Let_def split: if_splits)

text \<open>The loop \<open>while (lo < hi)\<close> around that body, returning \<open>lo\<close> at the exit.\<close>

function bisect_left :: "real list \<Rightarrow> real \<Rightarrow> nat \<Rightarrow> nat \<Rightarrow> nat" where
  "bisect_left a v lo hi =
     (if lo < hi then (case bisect_step a v (lo, hi) of (lo', hi') \<Rightarrow> bisect_left a v lo' hi')
      else lo)"
  by pat_completeness auto
termination
proof (relation "measure (\<lambda>(a, v, lo, hi). hi - lo)")
  fix a v lo hi x y
  assume lt: "lo < hi" and st: "(x, y) = bisect_step a v (lo, hi)"
  then show "((a, v, x, y), a, v, lo, hi) \<in> measure (\<lambda>(a, v, lo, hi). hi - lo)"
    using bisect_step_shrinks [OF lt st [symmetric]] by (simp add: st [symmetric])
qed simp

declare bisect_left.simps [simp del]

lemma bisect_left_unfold:
  "lo < hi \<Longrightarrow> bisect_left a v lo hi = (let (lo', hi') = bisect_step a v (lo, hi) in bisect_left a v lo' hi')"
  "\<not> lo < hi \<Longrightarrow> bisect_left a v lo hi = lo"
  by (simp_all add: bisect_left.simps [of a v lo hi])

definition np_searchsorted :: "real list \<Rightarrow> real \<Rightarrow> nat" where
  "np_searchsorted a v = bisect_left a v 0 (length a)"

text \<open>The reference: the number of leading elements below \<open>v\<close>.\<close>

definition count_below :: "real list \<Rightarrow> real \<Rightarrow> nat" where
  "count_below a v = length (takeWhile (\<lambda>x. x < v) a)"

lemma count_below_sorted:
  assumes "sorted a"
  shows "count_below a v \<le> length a"
    and "i < count_below a v \<Longrightarrow> a ! i < v"
    and "count_below a v \<le> i \<Longrightarrow> i < length a \<Longrightarrow> v \<le> a ! i"
proof -
  show "count_below a v \<le> length a" by (simp add: count_below_def length_takeWhile_le)
next
  assume "i < count_below a v"
  then show "a ! i < v"
    unfolding count_below_def using nth_length_takeWhile takeWhile_nth
    by (metis (mono_tags, lifting) nth_mem set_takeWhileD)
next
  assume le: "count_below a v \<le> i" and i: "i < length a"
  have c: "count_below a v < length a" using le i by simp
  then have "\<not> a ! count_below a v < v"
    unfolding count_below_def by (rule nth_length_takeWhile)
  moreover have "a ! count_below a v \<le> a ! i"
    using assms le i by (simp add: sorted_iff_nth_mono)
  ultimately show "v \<le> a ! i" by simp
qed

lemma bisect_left_count:
  assumes "sorted a" and "lo \<le> count_below a v" and "count_below a v \<le> hi" and "hi \<le> length a"
  shows "bisect_left a v lo hi = count_below a v"
  using assms(2-4)
proof (induction "hi - lo" arbitrary: lo hi rule: less_induct)
  case less
  show ?case
  proof (cases "lo < hi")
    case False
    with less.prems show ?thesis by (simp add: bisect_left_unfold(2))
  next
    case True
    define mid where "mid = lo + (hi - lo) div 2"
    have mid: "lo \<le> mid" "mid < hi" using True by (simp_all add: mid_def)
    obtain lo' hi' where st: "bisect_step a v (lo, hi) = (lo', hi')"
      by (cases "bisect_step a v (lo, hi)")
    have inv: "lo' \<le> count_below a v \<and> count_below a v \<le> hi' \<and> hi' \<le> length a"
    proof (cases "a ! mid < v")
      case True
      then have "mid < count_below a v"
        using count_below_sorted(3) [OF assms(1), where i = mid and v = v] mid less.prems by force
      then show ?thesis
        using st True less.prems by (simp add: bisect_step_def mid_def [symmetric] Let_def)
    next
      case False
      then have "count_below a v \<le> mid"
        using count_below_sorted(2) [OF assms(1), where i = mid and v = v] by force
      then show ?thesis
        using st False less.prems mid by (auto simp add: bisect_step_def mid_def [symmetric] Let_def)
    qed
    show ?thesis
      using less.hyps [OF bisect_step_shrinks [OF True st]] inv True st
      by (simp add: bisect_left_unfold(1))
  qed
qed

section \<open>Properties\<close>

text \<open>
  C13 (invariant): for a positive number of points and a positive spacing,
  \<open>np.fft.rfftfreq\<close> gives a strictly ascending axis of \<open>n // 2 + 1\<close> wavenumbers.
\<close>

theorem np_rfftfreq_axis:
  assumes "0 < n" and "0 < d"
  shows "\<exists>wn. np_rfftfreq n d = Inr wn \<and> length wn = n div 2 + 1 \<and> sorted_wrt (<) wn"
proof -
  obtain wn where wn: "np_rfftfreq n d = Inr wn" using assms by (simp add: np_rfftfreq_def)
  then show ?thesis using np_rfftfreq_length [OF wn] np_rfftfreq_sorted [OF assms wn] by blast
qed

theorem np_rfftfreq_axis_witness:
  "0 < (4::nat) \<and> 0 < (1::real)
   \<and> (\<exists>wn. np_rfftfreq 4 1 = Inr wn \<and> length wn = 4 div 2 + 1 \<and> sorted_wrt (<) wn)"
proof -
  have h: "0 < (4::nat)" "0 < (1::real)" by simp_all
  show ?thesis using h np_rfftfreq_axis [OF h] by blast
qed

text \<open>
  C14 (equivalence): numpy's bisection \<open>searchsorted(a, v, side='left')\<close> on an ascending
  array returns the number of leading elements below \<open>v\<close>: everything before the
  returned index is below \<open>v\<close>, everything from it on is at least \<open>v\<close>.
\<close>

theorem np_searchsorted_spec:
  assumes "sorted a"
  shows "np_searchsorted a v = count_below a v
         \<and> (\<forall>i < np_searchsorted a v. a ! i < v)
         \<and> (\<forall>i < length a. np_searchsorted a v \<le> i \<longrightarrow> v \<le> a ! i)"
proof -
  have eq: "np_searchsorted a v = count_below a v"
    unfolding np_searchsorted_def using assms count_below_sorted(1) [OF assms]
    by (simp add: bisect_left_count)
  show ?thesis using eq count_below_sorted(2,3) [OF assms] by simp
qed

theorem np_searchsorted_spec_witness:
  "sorted [1, 2, 2, 5 :: real] \<and> np_searchsorted [1, 2, 2, 5] 2 = count_below [1, 2, 2, 5] 2
   \<and> count_below [1, 2, 2, 5 :: real] 2 = 1"
proof -
  have h: "sorted [1, 2, 2, 5 :: real]" by simp
  have "count_below [1, 2, 2, 5 :: real] 2 = 1" by (simp add: count_below_def)
  then show ?thesis using h np_searchsorted_spec [OF h, of 2] by simp
qed

text \<open>
  C15 (termination): numpy's bisection loop ends on every input, whatever the array and
  the bounds, after at most \<open>floorlog 2 (hi - lo)\<close> passes of its body
  (\<open>\<lfloor>log\<^sub>2 n\<rfloor> + 1\<close> for \<open>n = hi - lo > 0\<close>): after that many applications of
  \<open>bisect_step\<close> the interval is empty, and \<open>bisect_left\<close> returns its lower end.
\<close>

theorem bisect_left_logarithmic:
  "\<exists>k \<le> floorlog 2 (hi - lo).
     \<not> fst ((bisect_step a v ^^ k) (lo, hi)) < snd ((bisect_step a v ^^ k) (lo, hi))
     \<and> bisect_left a v lo hi = fst ((bisect_step a v ^^ k) (lo, hi))"
proof (induction "hi - lo" arbitrary: lo hi rule: less_induct)
  case less
  show ?case
  proof (cases "lo < hi")
    case False
    then show ?thesis by (intro exI [of _ 0]) (simp add: bisect_left_unfold(2))
  next
    case True
    obtain lo' hi' where st: "bisect_step a v (lo, hi) = (lo', hi')"
      by (cases "bisect_step a v (lo, hi)")
    obtain k where k: "k \<le> floorlog 2 (hi' - lo')"
      and ex: "\<not> fst ((bisect_step a v ^^ k) (lo', hi')) < snd ((bisect_step a v ^^ k) (lo', hi'))"
      and r: "bisect_left a v lo' hi' = fst ((bisect_step a v ^^ k) (lo', hi'))"
      using less.hyps [OF bisect_step_shrinks [OF True st]] by blast
    have fl: "floorlog 2 (hi - lo) = floorlog 2 ((hi - lo) div 2) + 1"
      using True compute_floorlog [of 2 "hi - lo"] by simp
    have "floorlog 2 (hi' - lo') \<le> floorlog 2 ((hi - lo) div 2)"
      using floorlog_mono [OF bisect_step_halves [OF True st], of 2] .
    then have "Suc k \<le> floorlog 2 (hi - lo)" using k fl by simp
    moreover have "(bisect_step a v ^^ Suc k) (lo, hi) = (bisect_step a v ^^ k) (lo', hi')"
      by (simp only: funpow_Suc_right comp_def st)
    ultimately show ?thesis
      using ex r True st by (intro exI [of _ "Suc k"]) (simp add: bisect_left_unfold(1))
  qed
qed

end
