(* ===== verification/Sweeps.thy ===== *)
theory Sweeps
  imports Peak
begin

text \<open>
  SweepResolver: \<open>OWFFT.determine_sweeps\<close> (\<open>owfft.py\<close>, lines 312--340). Only the first
  row \<open>self.data.X[0]\<close> is inspected (an empty table raises \<open>IndexError\<close>). A peak within
  25 samples of the middle means a single sweep (0); otherwise the row is split in two
  halves by \<open>np.hsplit\<close> (an odd length raises \<open>ValueError\<close>, caught as single sweep),
  the second half is reversed, and peaks of the two halves within 25 samples of each
  other mean a forward-backward pair (1). The comparisons are on Python integers, so
  \<open>middle - 25\<close> may be negative. The theory proves the classification of mirrored rows
  \<open>S @ rev S\<close>, of centred and odd rows, and exactly when the method raises.
\<close>

section \<open>Definitions\<close>

text \<open>\<open>np.hsplit(x, 2)\<close> on a 1-D array: two equal halves, or \<open>ValueError\<close>.\<close>

definition np_hsplit2 :: "'a list \<Rightarrow> fft_error + 'a list \<times> 'a list" where
  "np_hsplit2 xs =
     (if even (length xs) then Inr (take (length xs div 2) xs, drop (length xs div 2) xs)
      else Inl UnequalSplit)"

definition determine_sweeps :: "real list list \<Rightarrow> fft_error + nat" where
  "determine_sweeps X =
     (case X of [] \<Rightarrow> Inl NoRows | data # _ \<Rightarrow>
       (case peak_search data of Inl e \<Rightarrow> Inl e | Inr zpd \<Rightarrow>
         (let middle = int (length data) div 2 in
          if middle - 25 \<le> int zpd \<and> int zpd \<le> middle + 25 then Inr 0
          else (case np_hsplit2 data of Inl _ \<Rightarrow> Inr 0 | Inr (h1, h2) \<Rightarrow>
            (case peak_search h1 of Inl e \<Rightarrow> Inl e | Inr zpd1 \<Rightarrow>
              (case peak_search (rev h2) of Inl e \<Rightarrow> Inl e | Inr zpd2 \<Rightarrow>
                 if int zpd2 - 25 \<le> int zpd1 \<and> int zpd1 \<le> int zpd2 + 25 then Inr 1 else Inr 0))))))"

section \<open>Splitting\<close>

lemma np_hsplit2_append:
  "length ys = length xs \<Longrightarrow> np_hsplit2 (xs @ ys) = Inr (xs, ys)"
  by (simp add: np_hsplit2_def)

lemma np_hsplit2_odd [simp]: "odd (length xs) \<Longrightarrow> np_hsplit2 xs = Inl UnequalSplit"
  by (simp add: np_hsplit2_def)

lemma np_hsplit2_Inr:
  "np_hsplit2 xs = Inr (h1, h2) \<Longrightarrow> xs = h1 @ h2 \<and> length h1 = length h2"
  by (auto simp: np_hsplit2_def split: if_splits elim: evenE)

lemma np_hsplit2_nonempty:
  "np_hsplit2 xs = Inr (h1, h2) \<Longrightarrow> xs \<noteq> [] \<Longrightarrow> h1 \<noteq> [] \<and> h2 \<noteq> []"
  using np_hsplit2_Inr [of xs h1 h2] by auto

section \<open>Peaks of mirrored rows\<close>

lemma is_first_max_mirror:
  assumes "is_first_max S z"
  shows "is_first_max (S @ rev S) z"
proof -
  have "\<forall>y \<in> set (rev S). y \<le> S ! z"
    using assms by (auto simp: is_first_max_def in_set_conv_nth)
  with assms show ?thesis by (rule is_first_max_append)
qed

lemma peak_search_mirror:
  "peak_search S = Inr z \<Longrightarrow> peak_search (S @ rev S) = Inr z"
  by (simp add: peak_search_Inr_iff is_first_max_mirror)

section \<open>Which rows raise\<close>

lemma determine_sweeps_row_total:
  assumes "data \<noteq> []"
  shows "\<exists>sw. determine_sweeps (data # rest) = Inr sw \<and> sw \<le> 1"
proof -
  obtain zpd where z: "peak_search data = Inr zpd" using peak_search_exists assms by blast
  have halves: "\<exists>z1 z2. peak_search h1 = Inr z1 \<and> peak_search (rev h2) = Inr z2"
    if "np_hsplit2 data = Inr (h1, h2)" for h1 h2
    using np_hsplit2_nonempty [OF that assms] peak_search_exists by (metis Nil_is_rev_conv)
  show ?thesis
    using z halves by (auto simp: determine_sweeps_def Let_def split: sum.splits prod.splits)
qed

section \<open>Properties\<close>

text \<open>
  C11 (functional): a row built as \<open>S @ rev S\<close> whose half \<open>S\<close> has its first maximum at
  \<open>z\<close> is classified forward-backward exactly when \<open>z\<close> lies more than 25 samples before
  the middle; otherwise the centre test fires first and the row is classified single.
\<close>

theorem determine_sweeps_mirror:
  assumes "peak_search S = Inr z"
  shows "determine_sweeps ((S @ rev S) # rest) = Inr (if int z + 25 < int (length S) then 1 else 0)"
proof -
  have z: "z < length S" using peak_search_less [OF assms] .
  have split: "np_hsplit2 (S @ rev S) = Inr (S, rev S)" by (simp add: np_hsplit2_append)
  show ?thesis
    using z by (simp add: determine_sweeps_def peak_search_mirror [OF assms] assms split Let_def)
qed

theorem determine_sweeps_mirror_witness:
  "peak_search [1 :: real] = Inr 0
   \<and> determine_sweeps (([1] @ rev [1]) # []) = Inr (if int 0 + 25 < int (length [1 :: real]) then 1 else 0)
   \<and> determine_sweeps (([1] @ rev [1]) # []) = Inr 0"
proof -
  have p: "peak_search [1 :: real] = Inr 0" by (simp add: peak_search_def)
  show ?thesis using p determine_sweeps_mirror [OF p, where rest = "[]"] by simp
qed

text \<open>
  C12 (functional): a row whose peak lies within 25 samples of the middle, or whose length
  is odd, is classified as a single sweep.
\<close>

theorem determine_sweeps_single:
  assumes "peak_search d = Inr z"
    and "odd (length d) \<or> \<bar>int z - int (length d) div 2\<bar> \<le> 25"
  shows "determine_sweeps (d # rest) = Inr 0"
  using assms by (auto simp: determine_sweeps_def Let_def)

theorem determine_sweeps_single_witness:
  "peak_search [0, 2, 1 :: real] = Inr 1 \<and> length [0, 2, 1 :: real] = 3
   \<and> determine_sweeps ([0, 2, 1 :: real] # []) = Inr 0"
proof -
  have p: "peak_search [0, 2, 1 :: real] = Inr 1" by (simp add: peak_search_def)
  have o: "odd (length [0, 2, 1 :: real]) \<or> \<bar>int 1 - int (length [0, 2, 1 :: real]) div 2\<bar> \<le> 25"
    by simp
  show ?thesis using p determine_sweeps_single [OF p o, where rest = "[]"] by simp
qed

text \<open>
  C24 (error): \<open>determine_sweeps\<close> raises exactly on a table with no rows (\<open>IndexError\<close>
  of \<open>X[0]\<close>) and on an empty first row (\<open>ValueError\<close> of \<open>argmax\<close>); on every other
  table it returns 0 or 1.
\<close>

theorem determine_sweeps_errors:
  "determine_sweeps X = Inl e \<longleftrightarrow> (X = [] \<and> e = NoRows) \<or> (X \<noteq> [] \<and> hd X = [] \<and> e = EmptyArgmax)"
proof (cases X)
  case Nil
  then show ?thesis by (auto simp: determine_sweeps_def)
next
  case (Cons d rest)
  show ?thesis
  proof (cases "d = []")
    case True
    then show ?thesis using Cons by (auto simp: determine_sweeps_def)
  next
    case False
    then obtain sw where "determine_sweeps (d # rest) = Inr sw"
      using determine_sweeps_row_total by blast
    then show ?thesis using Cons False by auto
  qed
qed

end
