(* ===== verification/WidgetState.thy ===== *)
theory WidgetState
  imports Prelude
begin

text \<open>
  The state of an \<open>OWFFT\<close> widget object (\<open>owfft.py\<close>, lines 28--63): the persisted
  settings declared with \<open>settings.Setting\<close>, the attributes \<open>__init__\<close> creates, the
  error and warning slots the methods set through \<open>self.error(1)\<close>, \<open>self.error(2)\<close>
  and \<open>self.warning(4)\<close>, the value last sent on the \<open>Spectra\<close> output, and the
  \<open>dirty\<close> flag that \<open>gui.auto_commit\<close> (line 175) keeps beside the \<open>autocommit\<close>
  setting. An input
  table is its matrix \<open>X\<close> as a list of rows; a spectra table is modelled by the pair of
  its wavenumber axis and its rows. The Qt controls and the text of the info labels are
  not modelled.
\<close>

type_synonym spec_table = "real list \<times> real list list"

record owfft =
  laser_wavenumber :: real
  dx_HeNe :: bool
  dx :: real
  apod_func :: nat
  zff :: nat
  phase_corr :: nat
  phase_res_limit :: bool
  phase_resolution :: int
  limit_output :: bool
  out_limit1 :: real
  out_limit2 :: real
  autocommit :: bool
  data :: "real list list option"
  spectra :: "real list list option"
  spectra_table :: "spec_table option"
  wavenumbers :: "real list option"
  sweeps :: "nat option"
  err1 :: "fft_error option"
  err2 :: "fft_error option"
  warn4 :: bool
  sent :: "spec_table option"
  dirty :: bool

text \<open>The declared defaults of the settings (lines 29--41).\<close>

definition default_settings :: owfft where
  "default_settings =
     \<lparr>laser_wavenumber = 15797.337544, dx_HeNe = True, dx = 1, apod_func = 1, zff = 1,
      phase_corr = 0, phase_res_limit = True, phase_resolution = 32, limit_output = True,
      out_limit1 = 400, out_limit2 = 4000, autocommit = False,
      data = None, spectra = None, spectra_table = None, wavenumbers = None, sweeps = None,
      err1 = None, err2 = None, warn4 = False, sent = None, dirty = False\<rparr>"

text \<open>
  \<open>__init__\<close> (lines 56--63) on the settings restored from a stored widget: the
  computation attributes start as \<open>None\<close>, nothing has been sent, and with the HeNe
  reference \<open>dx\<close> is recomputed from the laser wavenumber.
\<close>

definition owfft_init :: "owfft \<Rightarrow> owfft" where
  "owfft_init cfg =
     cfg\<lparr>data := None, spectra := None, spectra_table := None, wavenumbers := None,
         sweeps := None, err1 := None, err2 := None, warn4 := False, sent := None, dirty := False,
         dx := (if dx_HeNe cfg then 1 / laser_wavenumber cfg / 2 else dx cfg)\<rparr>"

lemma owfft_init_fields [simp]:
  "data (owfft_init cfg) = None" "sent (owfft_init cfg) = None"
  "spectra_table (owfft_init cfg) = None" "wavenumbers (owfft_init cfg) = None"
  "sweeps (owfft_init cfg) = None"
  by (simp_all add: owfft_init_def)

lemma wavenumbers_update_same: "wavenumbers s = x \<Longrightarrow> s\<lparr>wavenumbers := x\<rparr> = s"
  by (cases s) simp

lemma owfft_init_dx_HeNe:
  "dx_HeNe cfg \<Longrightarrow> 0 < laser_wavenumber cfg \<Longrightarrow> 0 < dx (owfft_init cfg)"
  by (simp add: owfft_init_def)

end
