(* ===== verification/Phase.thy ===== *)
theory Phase
  imports ZeroFill Apodization Spectral WidgetState
begin

text \<open>
  PhaseEstimator and the steps of the transform it shares with SpectrumTransformer
  (\<open>owfft.py\<close>, lines 342--458). \<open>prepare\<close> is the sequence both \<open>fft_single_sweep\<close>
  (lines 354--364) and \<open>compute_phase\<close> (lines 431--438) run: locate the zpd, apodize,
  zero-fill, and raise \<open>ValueError("zpd: ..., new_zpd: ...")\<close> when the peak of the
  zero-filled signal has moved. \<open>wavenumber_set\<close> (lines 388--398) computes the axis
  once per run. \<open>compute_phase\<close> (lines 400--458) is split at the slice of the
  double-sided sample: \<open>phase_L\<close> chooses the half-width \<open>L\<close> and raises the low-resolution
  warning, \<open>phase_of_sample\<close> is the rest of the method, which reads the object but does
  not change it. The theory proves when \<open>prepare\<close> keeps the peak and when it raises, and
  computes the phase of an impulse.
\<close>

section \<open>Definitions\<close>

definition prepare :: "nat \<Rightarrow> nat \<Rightarrow> signal \<Rightarrow> fft_error + nat \<times> signal" where
  "prepare af zf Ix =
     (case peak_search Ix of Inl e \<Rightarrow> Inl e | Inr zpd \<Rightarrow>
       (case apodization af Ix zpd of Inl e \<Rightarrow> Inl e | Inr Ix_apod \<Rightarrow>
         (let Ix_zff = zero_filling zf Ix_apod in
          case peak_search Ix_zff of Inl e \<Rightarrow> Inl e | Inr new_zpd \<Rightarrow>
            if zpd \<noteq> new_zpd then Inl (ZpdDrift zpd new_zpd) else Inr (zpd, Ix_zff))))"

text \<open>\<open>int(x)\<close> on a float truncates towards zero.\<close>

definition py_int :: "real \<Rightarrow> int" where
  "py_int x = (if 0 \<le> x then \<lfloor>x\<rfloor> else \<lceil>x\<rceil>)"

text \<open>
  Lines 411--427: the half-width of the phase sample and whether \<open>self.warning(4)\<close> is
  raised. \<open>1 / (dx * phase_resolution)\<close> raises \<open>ZeroDivisionError\<close> when the product
  is zero.
\<close>

definition phase_L :: "owfft \<Rightarrow> nat \<Rightarrow> nat \<Rightarrow> fft_error + int \<times> bool" where
  "phase_L s zpd N =
     (let delta = min (int zpd) (int N - 1 - int zpd) in
      if phase_res_limit s then
        (if dx s * of_int (phase_resolution s) = 0 then Inl ZeroDivision
         else (let L = py_int (1 / (dx s * of_int (phase_resolution s))) - 1 in
               if delta < L then Inr (delta, True) else Inr (L, False)))
      else Inr (delta, False))"

definition wavenumber_set :: "owfft \<Rightarrow> nat \<Rightarrow> (fft_error + unit) \<times> owfft" where
  "wavenumber_set s N_zff =
     (if wavenumbers s = None then
        (case np_rfftfreq N_zff (dx s) of
           Inl e \<Rightarrow> (Inl e, s)
         | Inr wn \<Rightarrow> (Inr (), s\<lparr>wavenumbers := Some wn\<rparr>))
      else (Inr (), s))"

text \<open>
  Lines 431--456 on the sample \<open>Ixs\<close>, given the settings and \<open>self.wavenumbers\<close>;
  \<open>np.interp(None, ...)\<close> raises \<open>TypeError\<close>.
\<close>

definition phase_of_sample ::
  "nat \<Rightarrow> nat \<Rightarrow> real \<Rightarrow> real list option \<Rightarrow> signal \<Rightarrow> fft_error + real list" where
  "phase_of_sample af zf d wns Ixs =
     (case prepare af zf Ixs of Inl e \<Rightarrow> Inl e | Inr (zpd, Ixs_zff) \<Rightarrow>
       (case np_rfft (rotate_zpd zpd Ixs_zff) of Inl e \<Rightarrow> Inl e | Inr Ixs_fft \<Rightarrow>
         (case np_rfftfreq (length Ixs_zff) d of Inl e \<Rightarrow> Inl e | Inr wavenumber_sample \<Rightarrow>
           (let phase_sampled = map (\<lambda>c. np_arctan2 (Im c) (Re c)) Ixs_fft in
            case wns of None \<Rightarrow> Inl NoneValue
            | Some wn \<Rightarrow> np_interp wn wavenumber_sample phase_sampled))))"

definition compute_phase :: "owfft \<Rightarrow> signal \<Rightarrow> (fft_error + real list) \<times> owfft" where
  "compute_phase s Ix =
     (case peak_search Ix of Inl e \<Rightarrow> (Inl e, s) | Inr zpd \<Rightarrow>
       (case phase_L s zpd (length Ix) of Inl e \<Rightarrow> (Inl e, s) | Inr (L, warn) \<Rightarrow>
         (let s1 = (if warn then s\<lparr>warn4 := True\<rparr> else s);
              Ixs = py_slice Ix (int zpd - L) (int zpd + L)
          in (phase_of_sample (apod_func s) (zff s) (dx s) (wavenumbers s) Ixs, s1))))"

abbreviation impulse :: "nat \<Rightarrow> real \<Rightarrow> nat \<Rightarrow> signal" where
  "impulse z a m \<equiv> replicate z 0 @ a # replicate m 0"

section \<open>The zpd check\<close>

text \<open>
  C2 (functional): for Boxcar and both Blackman-Harris windows, an interferogram whose
  maximum is non-negative passes the zpd check of lines 361--364 and 435--438: the peak
  of the apodized, zero-filled signal is the peak of the input.
\<close>

theorem prepare_keeps_peak:
  assumes f: "af \<le> 2" and pk: "peak_search Ix = Inr z" and nn: "0 \<le> Ix ! z"
  shows "\<exists>ys. apodization af Ix z = Inr ys \<and> length ys = length Ix
              \<and> prepare af zf Ix = Inr (z, zero_filling zf ys)"
proof -
  have z: "z < length Ix" using pk by (rule peak_search_less)
  obtain ys where a: "apodization af Ix z = Inr ys" and p: "peak_search ys = Inr z"
    and len: "length ys = length Ix"
    using apodization_keeps_peak [OF f pk nn] by blast
  have "ys ! z = Ix ! z" using apodization_at_zpd [OF f z a] by simp
  then have "peak_search (zero_filling zf ys) = Inr z"
    using p nn by (intro peak_zero_filling_nonneg) simp_all
  then show ?thesis using a pk len by (simp add: prepare_def)
qed

theorem prepare_keeps_peak_witness:
  "1 \<le> (2::nat) \<and> peak_search [0, 2, 1 :: real] = Inr 1 \<and> 0 \<le> [0, 2, 1 :: real] ! 1
   \<and> (\<exists>ys. apodization 1 [0, 2, 1] 1 = Inr ys \<and> length ys = length [0, 2, 1 :: real]
          \<and> prepare 1 1 [0, 2, 1] = Inr (1, zero_filling 1 ys))"
proof -
  have p: "peak_search [0, 2, 1 :: real] = Inr 1" by (simp add: peak_search_def)
  have f: "(1::nat) \<le> 2" by simp
  have n: "0 \<le> [0, 2, 1 :: real] ! 1" by simp
  show ?thesis using f p n prepare_keeps_peak [OF f p n, where zf = 1] by blast
qed

lemma prepare_negative:
  assumes f: "af \<le> 2" and ne: "Ix \<noteq> []" and neg: "\<forall>x \<in> set Ix. x < 0" and zf: "0 < zf"
  shows "\<exists>z. peak_search Ix = Inr z \<and> prepare af zf Ix = Inl (ZpdDrift z (length Ix))"
proof -
  obtain z where pk: "peak_search Ix = Inr z" using peak_search_exists ne by blast
  have z: "z < length Ix" using pk by (rule peak_search_less)
  obtain Bs where a: "apodization af Ix z = Inr (map2 (*) Ix Bs)" and len: "length Bs = length Ix"
    using apodization_unit_window [OF f z] by blast
  let ?ys = "map2 (*) Ix Bs"
  have ys_len: "length ?ys = length Ix" using len by simp
  have "\<forall>y \<in> set ?ys. y < 0" using apodization_negative [OF f z a neg] .
  moreover have "length ?ys < length (zero_filling zf ?ys)"
    using zf ne ys_len by (intro zero_filling_pads) auto
  ultimately have "peak_search (zero_filling zf ?ys) = Inr (length Ix)"
    using ys_len peak_zero_filling_negative by metis
  then show ?thesis using pk a z by (simp add: prepare_def)
qed

section \<open>Impulses\<close>

lemma peak_search_impulse:
  "0 < a \<Longrightarrow> peak_search (impulse z a m) = Inr z"
  using is_first_max_append_above [of "replicate z 0" a "replicate m 0"]
  by (simp add: peak_search_Inr_iff)

lemma impulse_zero_elsewhere:
  "\<forall>j < length (impulse z a m). j \<noteq> z \<longrightarrow> impulse z a m ! j = 0"
  by (auto simp: nth_append nth_Cons split: nat.splits)

lemma zero_filling_impulse:
  "\<exists>k. zero_filling zf (impulse z a m) = impulse z a k"
  by (simp add: zero_filling_def Let_def replicate_add [symmetric])

lemma prepare_impulse:
  assumes "af \<le> 2" and "0 < a"
  shows "prepare af zf (impulse z a m) = Inr (z, zero_filling zf (impulse z a m))"
proof -
  have a: "apodization af (impulse z a m) z = Inr (impulse z a m)"
    using assms(1) impulse_zero_elsewhere by (intro apodization_impulse) simp_all
  obtain k where k: "zero_filling zf (impulse z a m) = impulse z a k"
    using zero_filling_impulse by blast
  show ?thesis using assms(2) by (simp add: prepare_def a k peak_search_impulse)
qed

lemma rfft_rotated_impulse:
  "np_rfft (rotate_zpd z (impulse z a k)) =
     Inr (replicate (length (impulse z a k) div 2 + 1) (complex_of_real a))"
proof -
  have r: "set (replicate k (0::real)) \<subseteq> {0}" by (cases k) auto
  have "rotate_zpd z (impulse z a k) = a # replicate (z + k) 0"
    using rotate_zpd_impulse [OF refl r, of z a] by simp
  then show ?thesis by (simp add: np_rfft_impulse)
qed

section \<open>The half-width of the phase sample\<close>

lemma phase_L_le_delta:
  "phase_L s zpd N = Inr (L, w) \<Longrightarrow> L \<le> min (int zpd) (int N - 1 - int zpd)"
  by (auto simp: phase_L_def Let_def split: if_splits)

lemma phase_L_pos:
  assumes "0 < z" and "0 < m"
    and lim: "phase_res_limit s \<Longrightarrow>
              0 < dx s * of_int (phase_resolution s) \<and> dx s * of_int (phase_resolution s) \<le> 1 / 2"
  shows "\<exists>L w. phase_L s z (z + Suc m) = Inr (L, w) \<and> 1 \<le> L"
proof (cases "phase_res_limit s")
  case False
  then show ?thesis using assms(1,2) by (simp add: phase_L_def, blast)
next
  case True
  define p where "p = dx s * of_int (phase_resolution s)"
  have p: "0 < p" "p \<le> 1 / 2" using lim True by (simp_all add: p_def)
  have "2 \<le> 1 / p" using p by (simp add: field_simps)
  then have "2 \<le> py_int (1 / p)" using p(1) by (simp add: py_int_def le_floor_iff)
  then show ?thesis using True p assms(1,2) by (simp add: phase_L_def Let_def p_def [symmetric], blast)
qed

section \<open>The phase of an impulse\<close>

lemma py_slice_impulse:
  assumes "1 \<le> l" and "l \<le> z" and "l \<le> m"
  shows "py_slice (impulse z a m) (int z - int l) (int z + int l) = impulse l a (l - 1)"
proof -
  have s: "int z - int l = int (z - l)" "int z + int l = int (z + l)" using assms by simp_all
  obtain l' where l: "l = Suc l'" using assms(1) by (cases l) auto
  have d: "drop (z - l) (impulse z a m) = impulse l a m" using assms(2) by simp
  have len: "min (z + l) (length (impulse z a m)) - (z - l) = l + l" using assms by simp
  show ?thesis unfolding s py_slice_nat len d using assms l by simp
qed

lemma phase_of_sample_impulse:
  assumes "af \<le> 2" and "0 < a" and "d \<noteq> 0"
  shows "phase_of_sample af zf d (Some wn) (impulse z a m) = Inr (replicate (length wn) 0)"
proof -
  obtain k where k: "zero_filling zf (impulse z a m) = impulse z a k"
    using zero_filling_impulse by blast
  define n where "n = Suc (z + k)"
  define ws where "ws = map (\<lambda>i. real i * (1 / (real n * d))) [0..<n div 2 + 1]"
  have f: "np_rfftfreq n d = Inr ws"
    using assms(3) by (simp add: np_rfftfreq_def n_def ws_def)
  have r: "np_rfft (rotate_zpd z (impulse z a k)) = Inr (replicate (n div 2 + 1) (complex_of_real a))"
    using rfft_rotated_impulse [of z a k] by (simp add: n_def)
  have i: "np_interp wn ws (0 # replicate (n div 2) 0) = Inr (replicate (length wn) 0)"
    using np_interp_const [where xs = wn and xp = ws and fp = "0 # replicate (n div 2) 0" and c = 0] by (simp add: ws_def)
  show ?thesis
    using assms(1,2) f r i
    by (simp add: phase_of_sample_def prepare_impulse k n_def [symmetric] Let_def)
qed

lemma compute_phase_impulse:
  assumes f: "apod_func s \<le> 2" and a: "0 < a" and d: "dx s \<noteq> 0" and wn: "wavenumbers s = Some wn"
    and L: "phase_L s z (z + Suc m) = Inr (L, w)" and one: "1 \<le> L"
  shows "compute_phase s (impulse z a m) =
           (Inr (replicate (length wn) 0), if w then s\<lparr>warn4 := True\<rparr> else s)"
proof -
  have le: "L \<le> int z" "L \<le> int m" using phase_L_le_delta [OF L] by simp_all
  obtain l where l: "L = int l" using one zero_le_imp_eq_int by fastforce
  have sl: "py_slice (impulse z a m) (int z - L) (int z + L) = impulse l a (l - 1)"
    using py_slice_impulse [of l z m a] le one l by simp
  have L': "phase_L s z (Suc (z + m)) = Inr (L, w)" using L by simp
  show ?thesis
    using phase_of_sample_impulse [OF f a d, of "zff s" wn l "l - 1"] wn
    by (simp add: compute_phase_def peak_search_impulse [OF a] L' sl Let_def)
qed

end
