(* ===== verification/Transform.thy ===== *)
theory Transform
  imports Phase Sweeps
begin

text \<open>
  SpectrumTransformer: \<open>OWFFT.fft_single_sweep\<close> (\<open>owfft.py\<close>, lines 342--386) and
  the body of the row loop of \<open>calculateFFT\<close> (lines 243--277), which transforms a
  single sweep or averages the transforms of the two halves of a forward-backward row.
  \<open>mertz_combine\<close> is the Mertz phase correction of lines 379--384. A row ends in one of
  three ways, as in the source: a spectrum, an early \<open>return\<close> after a \<open>ValueError\<close> was
  caught and reported with \<open>self.error\<close>, or an exception that escapes the method.
  The theory proves which parts of the object a transform can change, that it is
  idempotent on its own final state, and the transform of an impulse.
\<close>

section \<open>Definitions\<close>

definition mertz_combine :: "real list \<Rightarrow> complex list \<Rightarrow> fft_error + real list" where
  "mertz_combine phase Ix_fft =
     (case np_broadcast (*) (map cos phase) (map Re Ix_fft) of Inl e \<Rightarrow> Inl e | Inr c \<Rightarrow>
       (case np_broadcast (*) (map sin phase) (map Im Ix_fft) of Inl e \<Rightarrow> Inl e | Inr d \<Rightarrow>
          np_broadcast (+) c d))"

definition fft_single_sweep :: "owfft \<Rightarrow> signal \<Rightarrow> (fft_error + real list) \<times> owfft" where
  "fft_single_sweep s Ix =
     (case prepare (apod_func s) (zff s) Ix of Inl e \<Rightarrow> (Inl e, s) | Inr (zpd, Ix_zff) \<Rightarrow>
       (case wavenumber_set s (length Ix_zff) of (Inl e, s1) \<Rightarrow> (Inl e, s1) | (Inr _, s1) \<Rightarrow>
         (case compute_phase s1 Ix of (Inl e, s2) \<Rightarrow> (Inl e, s2) | (Inr phase, s2) \<Rightarrow>
           (case np_rfft (rotate_zpd zpd Ix_zff) of Inl e \<Rightarrow> (Inl e, s2) | Inr Ix_fft \<Rightarrow>
             (mertz_combine phase Ix_fft, s2)))))"

text \<open>
  \<open>np.mean(np.array([f, b]), axis=0)\<close>: the pointwise mean of two spectra of the same
  length; spectra of different lengths cannot form a 2-D array (\<open>ValueError\<close>, raised
  outside any \<open>try\<close>).
\<close>

definition np_mean2 :: "real list \<Rightarrow> real list \<Rightarrow> fft_error + real list" where
  "np_mean2 f b =
     (if length f = length b then Inr (map2 (\<lambda>x y. (x + y) / 2) f b)
      else Inl (Broadcast (length f) (length b)))"

datatype row_outcome = RowOk "real list" owfft | RowReturn owfft | RowRaise fft_error owfft

text \<open>\<open>except ValueError as e: self.error(1, ...); return\<close>; other exceptions escape.\<close>

definition catch_fft_error :: "fft_error \<Rightarrow> owfft \<Rightarrow> row_outcome" where
  "catch_fft_error e s = (if is_value_error e then RowReturn (s\<lparr>err1 := Some e\<rparr>) else RowRaise e s)"

definition transform_row :: "owfft \<Rightarrow> signal \<Rightarrow> row_outcome" where
  "transform_row s row =
     (if sweeps s = Some 0 then
        (case fft_single_sweep s row of
           (Inl e, s1) \<Rightarrow> catch_fft_error e s1
         | (Inr spectrum_out, s1) \<Rightarrow> RowOk spectrum_out s1)
      else if sweeps s = Some 1 then
        (case np_hsplit2 row of
           Inl e \<Rightarrow> RowReturn (s\<lparr>err2 := Some e\<rparr>)
         | Inr (fwd, back_rev) \<Rightarrow>
            (let back = rev back_rev in
             case fft_single_sweep s fwd of (Inl e, s1) \<Rightarrow> catch_fft_error e s1
             | (Inr spectrum_fwd, s1) \<Rightarrow>
               (case fft_single_sweep s1 back of (Inl e, s2) \<Rightarrow> catch_fft_error e s2
                | (Inr spectrum_back, s2) \<Rightarrow>
                  (case np_mean2 spectrum_fwd spectrum_back of
                     Inl e \<Rightarrow> RowRaise e s2
                   | Inr spectrum_out \<Rightarrow> RowOk spectrum_out s2))))
      else RowReturn s)"

section \<open>What a transform changes\<close>

lemma phase_L_warn4 [simp]: "phase_L (s\<lparr>warn4 := b\<rparr>) zpd N = phase_L s zpd N"
  by (simp add: phase_L_def Let_def cong: if_cong)

lemma compute_phase_state:
  assumes "compute_phase s Ix = (r, s1)"
  shows "s1 = s \<or> s1 = s\<lparr>warn4 := True\<rparr>"
proof (cases "peak_search Ix")
  case (Inl e)
  then show ?thesis using assms by (simp add: compute_phase_def)
next
  case (Inr zpd)
  note z = this
  show ?thesis
  proof (cases "phase_L s zpd (length Ix)")
    case (Inl e)
    then show ?thesis using assms z by (simp add: compute_phase_def)
  next
    case (Inr p)
    obtain L w where p: "p = (L, w)" by fastforce
    show ?thesis using assms z Inr p by (cases w) (simp_all add: compute_phase_def Let_def)
  qed
qed

lemma compute_phase_idem:
  assumes "compute_phase s Ix = (r, s1)"
  shows "compute_phase s1 Ix = (r, s1)"
proof (cases "peak_search Ix")
  case (Inl e)
  then show ?thesis using assms by (simp add: compute_phase_def)
next
  case (Inr zpd)
  note z = this
  show ?thesis
  proof (cases "phase_L s zpd (length Ix)")
    case (Inl e)
    then show ?thesis using assms z by (simp add: compute_phase_def)
  next
    case (Inr p)
    obtain L w where p: "p = (L, w)" by fastforce
    let ?Ixs = "py_slice Ix (int zpd - L) (int zpd + L)"
    have r: "r = phase_of_sample (apod_func s) (zff s) (dx s) (wavenumbers s) ?Ixs"
      and s1: "s1 = (if w then s\<lparr>warn4 := True\<rparr> else s)"
      using assms z Inr p by (simp_all add: compute_phase_def Let_def)
    show ?thesis
      unfolding r s1 using z Inr p by (cases w) (simp_all add: compute_phase_def Let_def)
  qed
qed

lemma wavenumber_set_state:
  "wavenumber_set s N = (r, s1) \<Longrightarrow> s1 = s \<or> (\<exists>w. wavenumbers s = None \<and> s1 = s\<lparr>wavenumbers := Some w\<rparr>)"
  by (auto simp: wavenumber_set_def split: if_splits sum.splits)

lemma wavenumber_set_Some [simp]:
  "wavenumbers s = Some w \<Longrightarrow> wavenumber_set s N = (Inr (), s)"
  by (simp add: wavenumber_set_def)

lemma wavenumber_set_Inr:
  "wavenumber_set s N = (Inr u, s1) \<Longrightarrow> \<exists>w. wavenumbers s1 = Some w"
  by (auto simp: wavenumber_set_def split: if_splits sum.splits)

lemma wavenumber_set_frame:
  assumes "wavenumber_set s N = (r, s1)"
  shows "\<exists>wo. s1 = s\<lparr>wavenumbers := wo\<rparr> \<and> (wavenumbers s \<noteq> None \<longrightarrow> wo = wavenumbers s)"
  using wavenumber_set_state [OF assms]
proof
  assume "s1 = s"
  then show ?thesis by (intro exI [of _ "wavenumbers s"]) simp
next
  assume "\<exists>w. wavenumbers s = None \<and> s1 = s\<lparr>wavenumbers := Some w\<rparr>"
  then show ?thesis by auto
qed

lemma compute_phase_frame:
  assumes "compute_phase s Ix = (r, s1)"
  shows "\<exists>b. s1 = s\<lparr>warn4 := b\<rparr>"
  using compute_phase_state [OF assms]
proof
  assume "s1 = s"
  then show ?thesis by (intro exI [of _ "warn4 s"]) (cases s, simp)
next
  assume "s1 = s\<lparr>warn4 := True\<rparr>"
  then show ?thesis by blast
qed

text \<open>The three ways through \<open>fft_single_sweep\<close> that change the object.\<close>

lemma fft_single_sweep_paths:
  assumes "fft_single_sweep s Ix = (r, s1)"
  shows "s1 = s
         \<or> (\<exists>N r'. wavenumber_set s N = (r', s1))
         \<or> (\<exists>N u s2 r'. wavenumber_set s N = (Inr u, s2) \<and> compute_phase s2 Ix = (r', s1))"
  using assms by (auto simp: fft_single_sweep_def split: sum.splits prod.splits)

lemma fft_single_sweep_frame:
  assumes "fft_single_sweep s Ix = (r, s1)"
  shows "\<exists>wo b. s1 = s\<lparr>wavenumbers := wo, warn4 := b\<rparr> \<and> (wavenumbers s \<noteq> None \<longrightarrow> wo = wavenumbers s)"
  using fft_single_sweep_paths [OF assms]
proof (elim disjE exE conjE)
  assume "s1 = s"
  then show ?thesis by (intro exI [of _ "wavenumbers s"] exI [of _ "warn4 s"]) simp
next
  fix N r'
  assume "wavenumber_set s N = (r', s1)"
  then obtain wo where "s1 = s\<lparr>wavenumbers := wo\<rparr>" "wavenumbers s \<noteq> None \<longrightarrow> wo = wavenumbers s"
    using wavenumber_set_frame by blast
  then show ?thesis by (intro exI [of _ wo] exI [of _ "warn4 s"]) simp
next
  fix N u s2 r'
  assume w: "wavenumber_set s N = (Inr u, s2)" and c: "compute_phase s2 Ix = (r', s1)"
  obtain wo where wo: "s2 = s\<lparr>wavenumbers := wo\<rparr>" "wavenumbers s \<noteq> None \<longrightarrow> wo = wavenumbers s"
    using wavenumber_set_frame [OF w] by blast
  obtain b where "s1 = s2\<lparr>warn4 := b\<rparr>" using compute_phase_frame [OF c] by blast
  then show ?thesis using wo by (intro exI [of _ wo] exI [of _ b]) simp
qed

lemma fft_single_sweep_Inr:
  assumes "fft_single_sweep s Ix = (Inr sp, s1)"
  shows "\<exists>zpd Ix_zff u s2 phase Ix_fft.
           prepare (apod_func s) (zff s) Ix = Inr (zpd, Ix_zff)
           \<and> wavenumber_set s (length Ix_zff) = (Inr u, s2) \<and> compute_phase s2 Ix = (Inr phase, s1)
           \<and> np_rfft (rotate_zpd zpd Ix_zff) = Inr Ix_fft \<and> mertz_combine phase Ix_fft = Inr sp"
  using assms by (auto simp: fft_single_sweep_def split: sum.splits prod.splits)

text \<open>A sweep that succeeded gives the same spectrum again from the state it left.\<close>

lemma fft_single_sweep_idem:
  assumes "fft_single_sweep s Ix = (Inr sp, s1)"
  shows "fft_single_sweep s1 Ix = (Inr sp, s1)"
proof -
  obtain zpd Ix_zff u s2 phase Ix_fft where
    p: "prepare (apod_func s) (zff s) Ix = Inr (zpd, Ix_zff)"
    and w: "wavenumber_set s (length Ix_zff) = (Inr u, s2)"
    and c: "compute_phase s2 Ix = (Inr phase, s1)"
    and f: "np_rfft (rotate_zpd zpd Ix_zff) = Inr Ix_fft"
    and m: "mertz_combine phase Ix_fft = Inr sp"
    using fft_single_sweep_Inr [OF assms] by blast
  obtain wo b where s1: "s1 = s\<lparr>wavenumbers := wo, warn4 := b\<rparr>"
    using fft_single_sweep_frame [OF assms] by blast
  obtain wn where wn2: "wavenumbers s2 = Some wn" using wavenumber_set_Inr [OF w] by blast
  obtain b2 where s12: "s1 = s2\<lparr>warn4 := b2\<rparr>" using compute_phase_frame [OF c] by blast
  have wn1: "wavenumbers s1 = Some wn" using wn2 s12 by simp
  have p1: "prepare (apod_func s1) (zff s1) Ix = Inr (zpd, Ix_zff)" using p s1 by simp
  have c1: "compute_phase s1 Ix = (Inr phase, s1)" using compute_phase_idem [OF c] .
  show ?thesis by (simp add: fft_single_sweep_def p1 wn1 c1 f m)
qed

lemma fft_single_sweep_keeps_wavenumbers:
  "fft_single_sweep s Ix = (r, s1) \<Longrightarrow> wavenumbers s = Some w \<Longrightarrow> wavenumbers s1 = Some w"
  using fft_single_sweep_frame [of s Ix r s1] by auto

section \<open>The Mertz combination\<close>

lemma mertz_combine_same:
  assumes "length phase = length F"
  shows "mertz_combine phase F = Inr (map2 (\<lambda>p c. cos p * Re c + sin p * Im c) phase F)"
proof -
  have "map2 (+) (map2 (*) (map cos phase) (map Re F)) (map2 (*) (map sin phase) (map Im F))
        = map2 (\<lambda>p c. cos p * Re c + sin p * Im c) phase F"
    using assms by (induction phase F rule: list_induct2) simp_all
  then show ?thesis using assms by (simp add: mertz_combine_def np_broadcast_same)
qed

lemma mertz_combine_zero_phase:
  "mertz_combine (replicate n 0) (replicate n (complex_of_real a)) = Inr (replicate n a)"
  by (simp add: mertz_combine_same zip_replicate)

lemma mertz_combine_length:
  "mertz_combine phase F = Inr sp \<Longrightarrow> length phase = length F \<Longrightarrow> length sp = length F"
  by (auto simp: mertz_combine_same)

section \<open>Lengths of the spectra\<close>

lemma phase_of_sample_length:
  "phase_of_sample af zf d (Some wn) Ixs = Inr phase \<Longrightarrow> length phase = length wn"
  by (auto simp: phase_of_sample_def Let_def split: sum.splits prod.splits dest: np_interp_length)

lemma compute_phase_length:
  assumes "compute_phase s Ix = (Inr phase, s1)" and "wavenumbers s = Some wn"
  shows "length phase = length wn"
proof (cases "peak_search Ix")
  case (Inl e)
  then show ?thesis using assms by (simp add: compute_phase_def)
next
  case (Inr zpd)
  note z = this
  show ?thesis
  proof (cases "phase_L s zpd (length Ix)")
    case (Inl e)
    then show ?thesis using assms z by (simp add: compute_phase_def)
  next
    case (Inr p)
    obtain L w where p: "p = (L, w)" by fastforce
    have "phase_of_sample (apod_func s) (zff s) (dx s) (Some wn) (py_slice Ix (int zpd - L) (int zpd + L))
          = Inr phase"
      using assms z Inr p by (simp add: compute_phase_def Let_def)
    then show ?thesis by (rule phase_of_sample_length)
  qed
qed

text \<open>The sweep that computes the axis produces one value per wavenumber.\<close>

lemma fft_single_sweep_first_length:
  assumes "fft_single_sweep s Ix = (Inr sp, s1)" and "wavenumbers s = None"
  shows "\<exists>wn. wavenumbers s1 = Some wn \<and> length sp = length wn"
proof -
  obtain zpd Ix_zff u s2 phase Ix_fft where
    w: "wavenumber_set s (length Ix_zff) = (Inr u, s2)"
    and c: "compute_phase s2 Ix = (Inr phase, s1)"
    and f: "np_rfft (rotate_zpd zpd Ix_zff) = Inr Ix_fft"
    and m: "mertz_combine phase Ix_fft = Inr sp"
    using fft_single_sweep_Inr [OF assms(1)] by blast
  obtain wn where rf: "np_rfftfreq (length Ix_zff) (dx s) = Inr wn" and s2: "s2 = s\<lparr>wavenumbers := Some wn\<rparr>"
    using w assms(2) by (auto simp: wavenumber_set_def split: sum.splits)
  have lw: "length wn = length Ix_zff div 2 + 1" using np_rfftfreq_length [OF rf] .
  have lf: "length Ix_fft = length Ix_zff div 2 + 1" using np_rfft_length [OF f] by simp
  have lp: "length phase = length wn" using compute_phase_length [OF c] s2 by simp
  have "length sp = length wn" using mertz_combine_length [OF m] lp lw lf by simp
  moreover obtain b where "s1 = s2\<lparr>warn4 := b\<rparr>" using compute_phase_frame [OF c] by blast
  ultimately show ?thesis using s2 by simp
qed

lemma transform_row_first_length:
  assumes "transform_row s row = RowOk sp s1" and "wavenumbers s = None"
  shows "\<exists>wn. wavenumbers s1 = Some wn \<and> length sp = length wn"
proof (cases "sweeps s = Some 0")
  case True
  then show ?thesis
    using assms fft_single_sweep_first_length
    by (auto simp: transform_row_def catch_fft_error_def split: prod.splits sum.splits if_splits)
next
  case False
  then have one: "sweeps s = Some 1"
    using assms(1) by (auto simp: transform_row_def split: if_splits)
  obtain fwd back_rev where h: "np_hsplit2 row = Inr (fwd, back_rev)"
    using assms(1) one by (auto simp: transform_row_def catch_fft_error_def split: sum.splits)
  obtain f s2 where f: "fft_single_sweep s fwd = (Inr f, s2)"
    using assms(1) one h
    by (auto simp: transform_row_def catch_fft_error_def Let_def split: prod.splits sum.splits if_splits)
  obtain b where b: "fft_single_sweep s2 (rev back_rev) = (Inr b, s1)" and mean: "np_mean2 f b = Inr sp"
    using assms(1) one h f
    by (auto simp: transform_row_def catch_fft_error_def Let_def split: prod.splits sum.splits if_splits)
  obtain wn where w2: "wavenumbers s2 = Some wn" and lf: "length f = length wn"
    using fft_single_sweep_first_length [OF f assms(2)] by blast
  have "wavenumbers s1 = Some wn" using fft_single_sweep_keeps_wavenumbers [OF b w2] .
  moreover have "length sp = length f" using mean by (auto simp: np_mean2_def split: if_splits)
  ultimately show ?thesis using lf by simp
qed

section \<open>The transform of an impulse\<close>

lemma phase_L_wavenumbers [simp]: "phase_L (s\<lparr>wavenumbers := x\<rparr>) zpd N = phase_L s zpd N"
  by (simp add: phase_L_def Let_def cong: if_cong)

lemma fft_single_sweep_impulse:
  assumes f: "apod_func s \<le> 2" and a: "0 < a" and d: "0 < dx s"
    and z: "0 < z" and m: "0 < m"
    and lim: "phase_res_limit s \<Longrightarrow>
              0 < dx s * of_int (phase_resolution s) \<and> dx s * of_int (phase_resolution s) \<le> 1 / 2"
    and rf: "np_rfftfreq (length (zero_filling (zff s) (impulse z a m))) (dx s) = Inr wn"
    and wns: "wavenumbers s = None \<or> wavenumbers s = Some wn"
  shows "\<exists>s1. fft_single_sweep s (impulse z a m) = (Inr (replicate (length wn) a), s1)
              \<and> wavenumbers s1 = Some wn"
proof -
  obtain k where k: "zero_filling (zff s) (impulse z a m) = impulse z a k"
    using zero_filling_impulse by blast
  define n where "n = Suc (z + k)"
  have rf': "np_rfftfreq n (dx s) = Inr wn" using rf by (simp add: k n_def)
  have lwn: "length wn = n div 2 + 1" using np_rfftfreq_length [OF rf'] .
  have p: "prepare (apod_func s) (zff s) (impulse z a m) = Inr (z, impulse z a k)"
    using prepare_impulse [OF f a] k by simp
  define s2 where "s2 = s\<lparr>wavenumbers := Some wn\<rparr>"
  have w: "wavenumber_set s n = (Inr (), s2)"
  proof (cases "wavenumbers s")
    case None
    then show ?thesis by (simp add: wavenumber_set_def rf' s2_def)
  next
    case (Some w0)
    then have "s2 = s" using wns by (simp add: s2_def wavenumbers_update_same)
    then show ?thesis using Some by (simp add: wavenumber_set_def)
  qed
  obtain L w' where L: "phase_L s z (z + Suc m) = Inr (L, w')" and one: "1 \<le> L"
    using phase_L_pos [OF z m lim] by blast
  have c: "compute_phase s2 (impulse z a m) =
             (Inr (replicate (length wn) 0), if w' then s2\<lparr>warn4 := True\<rparr> else s2)"
    using f a d L one by (intro compute_phase_impulse) (simp_all add: s2_def)
  have r: "np_rfft (rotate_zpd z (impulse z a k)) = Inr (replicate (length wn) (complex_of_real a))"
    using rfft_rotated_impulse [of z a k] by (simp add: lwn n_def)
  have "fft_single_sweep s (impulse z a m)
        = (Inr (replicate (length wn) a), if w' then s2\<lparr>warn4 := True\<rparr> else s2)"
    using p w c r mertz_combine_zero_phase [of "length wn" a]
    by (simp add: fft_single_sweep_def n_def)
  moreover have "wavenumbers (if w' then s2\<lparr>warn4 := True\<rparr> else s2) = Some wn"
    by (simp add: s2_def)
  ultimately show ?thesis by blast
qed

section \<open>Paths to an error\<close>

lemma prepare_Inr:
  "prepare af zf Ix = Inr (z, Ix_zff) \<Longrightarrow> peak_search Ix = Inr z \<and> Ix_zff \<noteq> []"
  by (auto simp: prepare_def Let_def split: sum.splits if_splits)

lemma wavenumber_set_ok:
  "N \<noteq> 0 \<Longrightarrow> dx s \<noteq> 0 \<Longrightarrow> \<exists>s2. wavenumber_set s N = (Inr (), s2)"
  by (auto simp: wavenumber_set_def np_rfftfreq_def)

lemma phase_of_sample_Nil [simp]: "phase_of_sample af zf d wns [] = Inl EmptyArgmax"
  by (simp add: phase_of_sample_def prepare_def)

lemma compute_phase_edge:
  assumes "\<not> phase_res_limit s" and pk: "peak_search Ix = Inr z" and e: "z = 0 \<or> Suc z = length Ix"
  shows "compute_phase s Ix = (Inl EmptyArgmax, s)"
proof -
  have "z < length Ix" using pk by (rule peak_search_less)
  then have "phase_L s z (length Ix) = Inr (0, False)" using assms(1) e by (auto simp: phase_L_def)
  then show ?thesis using pk by (simp add: compute_phase_def py_slice_nat)
qed

text \<open>
  C20 (error): an interferogram whose maximum is negative (an inverted or offset-corrected
  detector signal) makes every transform raise \<open>ValueError("zpd: ..., new_zpd: ...")\<close>
  under one of the windows 0--2 (Boxcar or Blackman-Harris) as soon as zero-filling adds
  samples (\<open>zff\<close> index at least 1): the appended zeros lie above the whole signal.
\<close>

theorem fft_single_sweep_negative:
  assumes "apod_func s \<le> 2" and "Ix \<noteq> []" and "\<forall>x \<in> set Ix. x < 0" and "0 < zff s"
  shows "\<exists>z. peak_search Ix = Inr z \<and> fft_single_sweep s Ix = (Inl (ZpdDrift z (length Ix)), s)"
  using prepare_negative [OF assms] by (auto simp: fft_single_sweep_def)

theorem fft_single_sweep_negative_witness:
  "apod_func default_settings \<le> 2 \<and> [- 1 :: real] \<noteq> [] \<and> set [- 1 :: real] \<subseteq> {x. x < 0}
   \<and> 0 < zff default_settings
   \<and> (\<exists>z. peak_search [- 1 :: real] = Inr z
          \<and> fft_single_sweep default_settings [- 1] = (Inl (ZpdDrift z (length [- 1 :: real])), default_settings))"
proof -
  have h: "apod_func default_settings \<le> 2" "[- 1 :: real] \<noteq> []" "\<forall>x \<in> set [- 1 :: real]. x < 0"
    "0 < zff default_settings"
    by (simp_all add: default_settings_def)
  show ?thesis using h fft_single_sweep_negative [OF h] by auto
qed

text \<open>
  C21 (error): with phase-resolution limiting off, an interferogram whose peak is its first
  or last sample (a single-sided interferogram) cannot be transformed: \<open>delta = 0\<close>, so
  the phase sample \<open>Ix[zpd:zpd]\<close> is empty and its \<open>argmax\<close> raises \<open>ValueError\<close>, even
  though the zpd check of the full signal passed.
\<close>

theorem fft_single_sweep_edge_peak:
  assumes p: "prepare (apod_func s) (zff s) Ix = Inr (z, Ix_zff)" and lim: "\<not> phase_res_limit s"
    and d: "dx s \<noteq> 0" and e: "z = 0 \<or> Suc z = length Ix"
  shows "fst (fft_single_sweep s Ix) = Inl EmptyArgmax"
proof -
  have pk: "peak_search Ix = Inr z" and ne: "Ix_zff \<noteq> []" using prepare_Inr [OF p] by simp_all
  obtain s2 where w: "wavenumber_set s (length Ix_zff) = (Inr (), s2)"
    using wavenumber_set_ok [of "length Ix_zff" s] ne d by auto
  obtain wo where "s2 = s\<lparr>wavenumbers := wo\<rparr>" using wavenumber_set_frame [OF w] by blast
  then have "\<not> phase_res_limit s2" using lim by simp
  then have "compute_phase s2 Ix = (Inl EmptyArgmax, s2)" using pk e by (rule compute_phase_edge)
  then show ?thesis by (simp add: fft_single_sweep_def p w)
qed

theorem fft_single_sweep_edge_peak_witness:
  "prepare (apod_func (default_settings\<lparr>phase_res_limit := False\<rparr>)) (zff (default_settings\<lparr>phase_res_limit := False\<rparr>)) [1, 0]
     = Inr (0, zero_filling 1 [1, 0])
   \<and> \<not> phase_res_limit (default_settings\<lparr>phase_res_limit := False\<rparr>)
   \<and> dx (default_settings\<lparr>phase_res_limit := False\<rparr>) \<noteq> 0 \<and> ((0::nat) = 0 \<or> Suc 0 = length [1, 0 :: real])
   \<and> fst (fft_single_sweep (default_settings\<lparr>phase_res_limit := False\<rparr>) [1, 0]) = Inl EmptyArgmax"
proof -
  have p: "prepare (apod_func (default_settings\<lparr>phase_res_limit := False\<rparr>))
             (zff (default_settings\<lparr>phase_res_limit := False\<rparr>)) [1, 0] = Inr (0, zero_filling 1 [1, 0])"
    using prepare_impulse [of 1 1 "1" 0 1] by (simp add: default_settings_def)
  have h: "\<not> phase_res_limit (default_settings\<lparr>phase_res_limit := False\<rparr>)"
    "dx (default_settings\<lparr>phase_res_limit := False\<rparr>) \<noteq> 0" "(0::nat) = 0 \<or> Suc 0 = length [1, 0 :: real]"
    by (simp_all add: default_settings_def)
  show ?thesis using p h fft_single_sweep_edge_peak [OF p h] by blast
qed

section \<open>Properties\<close>

text \<open>
  C5 (functional): when the resolution limit asks for more points than the interferogram
  has on its shorter side, \<open>compute_phase\<close> raises warning 4 and computes exactly the
  phase it computes with the limit switched off, from the largest double-sided sample.
\<close>

theorem compute_phase_clamp:
  assumes "peak_search Ix = Inr z" and "phase_res_limit s"
    and "dx s * of_int (phase_resolution s) \<noteq> 0"
    and "min (int z) (int (length Ix) - 1 - int z) < py_int (1 / (dx s * of_int (phase_resolution s))) - 1"
  shows "compute_phase s Ix = (fst (compute_phase (s\<lparr>phase_res_limit := False\<rparr>) Ix), s\<lparr>warn4 := True\<rparr>)"
proof -
  let ?d = "min (int z) (int (length Ix) - 1 - int z)"
  have "phase_L s z (length Ix) = Inr (?d, True)" using assms(2-4) by (simp add: phase_L_def)
  moreover have "phase_L (s\<lparr>phase_res_limit := False\<rparr>) z (length Ix) = Inr (?d, False)"
    by (simp add: phase_L_def)
  ultimately show ?thesis using assms(1) by (simp add: compute_phase_def Let_def)
qed

theorem compute_phase_clamp_witness:
  "peak_search [0, 1, 0 :: real] = Inr 1 \<and> phase_res_limit (default_settings\<lparr>dx := 1 / 320\<rparr>)
   \<and> dx (default_settings\<lparr>dx := 1 / 320\<rparr>) * of_int (phase_resolution (default_settings\<lparr>dx := 1 / 320\<rparr>)) \<noteq> 0
   \<and> compute_phase (default_settings\<lparr>dx := 1 / 320\<rparr>) [0, 1, 0] =
       (fst (compute_phase (default_settings\<lparr>dx := 1 / 320, phase_res_limit := False\<rparr>) [0, 1, 0]),
        default_settings\<lparr>dx := 1 / 320, warn4 := True\<rparr>)"
proof -
  have p: "peak_search [0, 1, 0 :: real] = Inr 1" by (simp add: peak_search_def)
  have l: "phase_res_limit (default_settings\<lparr>dx := 1 / 320\<rparr>)" by (simp add: default_settings_def)
  have d: "dx (default_settings\<lparr>dx := 1 / 320\<rparr>) * of_int (phase_resolution (default_settings\<lparr>dx := 1 / 320\<rparr>)) \<noteq> 0"
    by (simp add: default_settings_def)
  have m: "min (int 1) (int (length [0, 1, 0 :: real]) - 1 - int 1)
           < py_int (1 / (dx (default_settings\<lparr>dx := 1 / 320\<rparr>) * of_int (phase_resolution (default_settings\<lparr>dx := 1 / 320\<rparr>)))) - 1"
    by (simp add: default_settings_def py_int_def)
  show ?thesis using p l d compute_phase_clamp [OF p l d m] by simp
qed

text \<open>
  C4 (functional): a forward-backward row whose backward half mirrors its forward half
  is transformed exactly like the forward half as a single sweep: the same spectrum,
  the same error, the same final object state.
\<close>

theorem transform_row_mirror:
  assumes "sweeps s = Some 1"
  shows "transform_row s (h @ rev h) =
           (case fft_single_sweep s h of (Inl e, s1) \<Rightarrow> catch_fft_error e s1 | (Inr sp, s1) \<Rightarrow> RowOk sp s1)"
proof (cases "fft_single_sweep s h")
  case (Pair r s1)
  show ?thesis
  proof (cases r)
    case (Inl e)
    then show ?thesis using assms Pair by (simp add: transform_row_def np_hsplit2_append)
  next
    case (Inr sp)
    have "fft_single_sweep s1 h = (Inr sp, s1)" using fft_single_sweep_idem Pair Inr by simp
    moreover have "map2 (\<lambda>x y. (x + y) / 2) sp sp = (sp :: real list)" by (induction sp) auto
    ultimately show ?thesis
      using assms Pair Inr by (simp add: transform_row_def np_hsplit2_append np_mean2_def)
  qed
qed

theorem transform_row_mirror_witness:
  "sweeps (default_settings\<lparr>sweeps := Some 1\<rparr>) = Some 1
   \<and> transform_row (default_settings\<lparr>sweeps := Some 1\<rparr>) ([1, 0, 0] @ rev [1, 0, 0]) =
       (case fft_single_sweep (default_settings\<lparr>sweeps := Some 1\<rparr>) [1, 0, 0] of
          (Inl e, s1) \<Rightarrow> catch_fft_error e s1 | (Inr sp, s1) \<Rightarrow> RowOk sp s1)"
proof -
  have h: "sweeps (default_settings\<lparr>sweeps := Some 1\<rparr>) = Some 1" by simp
  show ?thesis using h transform_row_mirror [OF h, where h = "[1, 0, 0]"] by blast
qed

end
