(* ===== verification/Driver.thy ===== *)
theory Driver
  imports Transform
begin

text \<open>
  PipelineDriver: \<open>OWFFT.calculateFFT\<close> (\<open>owfft.py\<close>, lines 224--295). The method
  resets \<open>wavenumbers\<close>, \<open>spectra\<close> and the error and warning slots, transforms the rows
  of \<open>self.data.X\<close> in order (\<open>fft_rows\<close>, with the row body \<open>transform_row\<close> of the
  Transform theory), stacks the spectra with \<open>np.vstack\<close>, optionally cuts the axis and
  every spectrum to the output band found by \<open>np.searchsorted\<close>, builds the output table
  and sends it. An early \<open>return\<close> leaves the table and the output as they were.
  \<open>build_spec_table\<close> lives outside \<open>src/\<close> and is modelled as the pair of axis and rows.
  The theory proves what a run can change, that band limiting is idempotent, that
  stacked and band-limited spectra keep one value per wavenumber (\<open>rows_wf\<close>), the
  end-to-end transform of impulses, and the run's error paths.
\<close>

section \<open>Definitions\<close>

text \<open>
  \<open>self.spectra = spectrum_out\<close> for the first row and \<open>np.vstack\<close> afterwards; rows
  of different lengths raise \<open>ValueError\<close> outside any \<open>try\<close>.
\<close>

definition np_vstack :: "real list list option \<Rightarrow> real list \<Rightarrow> fft_error + real list list" where
  "np_vstack sp row =
     (case sp of None \<Rightarrow> Inr [row]
      | Some rows \<Rightarrow> if length row = length (hd rows) then Inr (rows @ [row])
                     else Inl (Broadcast (length (hd rows)) (length row)))"

datatype loop_outcome = Done owfft | Early owfft | Raised fft_error owfft

fun fft_rows :: "owfft \<Rightarrow> real list list \<Rightarrow> loop_outcome" where
  "fft_rows s [] = Done s"
| "fft_rows s (row # rows) =
     (case transform_row s row of
        RowOk spectrum_out s1 \<Rightarrow>
          (case np_vstack (spectra s1) spectrum_out of
             Inl e \<Rightarrow> Raised e s1
           | Inr sp \<Rightarrow> fft_rows (s1\<lparr>spectra := Some sp\<rparr>) rows)
      | RowReturn s1 \<Rightarrow> Early s1
      | RowRaise e s1 \<Rightarrow> Raised e s1)"

text \<open>Lines 284--292: the band \<open>[out_limit1, out_limit2)\<close> of the axis and of every row.\<close>

definition band_limit :: "real \<Rightarrow> real \<Rightarrow> real list \<Rightarrow> real list list \<Rightarrow> real list \<times> real list list" where
  "band_limit lim1 lim2 wn sp =
     (let l0 = np_searchsorted wn lim1; l1 = np_searchsorted wn lim2
      in (py_slice wn (int l0) (int l1), map (\<lambda>r. py_slice r (int l0) (int l1)) sp))"

definition build_spec_table :: "real list \<Rightarrow> real list list \<Rightarrow> spec_table" where
  "build_spec_table wn sp = (wn, sp)"

text \<open>
  After the loop, \<open>np.searchsorted(None, ...)\<close> or \<open>build_spec_table(None, None)\<close> on a
  table without rows fails; both are the \<open>NoneValue\<close> exception here.
\<close>

definition calculateFFT :: "owfft \<Rightarrow> real list list \<Rightarrow> owfft outcome" where
  "calculateFFT s X =
     (let s0 = s\<lparr>wavenumbers := None, spectra := None, err1 := None, err2 := None, warn4 := False\<rparr> in
      case fft_rows s0 X of
        Early s1 \<Rightarrow> Ret s1
      | Raised e s1 \<Rightarrow> Exc e s1
      | Done s1 \<Rightarrow>
          (case (wavenumbers s1, spectra s1) of
             (Some wn, Some sp) \<Rightarrow>
               (let (wn', sp') = (if limit_output s1 then band_limit (out_limit1 s1) (out_limit2 s1) wn sp
                                  else (wn, sp));
                    t = build_spec_table wn' sp'
                in Ret (s1\<lparr>wavenumbers := Some wn', spectra := Some sp', spectra_table := Some t,
                           sent := Some t\<rparr>))
           | _ \<Rightarrow> Exc NoneValue s1))"

section \<open>What a run changes\<close>

text \<open>The attributes a transform leaves alone: settings, input, table, output, sweep mode.\<close>

definition frame_fields :: "owfft \<Rightarrow> owfft \<Rightarrow> bool" where
  "frame_fields s s' \<longleftrightarrow>
     laser_wavenumber s' = laser_wavenumber s \<and> dx_HeNe s' = dx_HeNe s \<and> dx s' = dx s
     \<and> apod_func s' = apod_func s \<and> zff s' = zff s \<and> phase_corr s' = phase_corr s
     \<and> phase_res_limit s' = phase_res_limit s \<and> phase_resolution s' = phase_resolution s
     \<and> limit_output s' = limit_output s \<and> out_limit1 s' = out_limit1 s \<and> out_limit2 s' = out_limit2 s
     \<and> data s' = data s \<and> spectra_table s' = spectra_table s \<and> sent s' = sent s \<and> sweeps s' = sweeps s"

lemma frame_fields_refl [simp]: "frame_fields s s"
  by (simp add: frame_fields_def)

lemma frame_fields_upd [simp]:
  "frame_fields s (s'\<lparr>wavenumbers := w\<rparr>) = frame_fields s s'"
  "frame_fields s (s'\<lparr>spectra := sp\<rparr>) = frame_fields s s'"
  "frame_fields s (s'\<lparr>err1 := e1\<rparr>) = frame_fields s s'"
  "frame_fields s (s'\<lparr>err2 := e2\<rparr>) = frame_fields s s'"
  "frame_fields s (s'\<lparr>warn4 := b\<rparr>) = frame_fields s s'"
  by (simp_all add: frame_fields_def)

lemma frame_fields_trans: "frame_fields s s1 \<Longrightarrow> frame_fields s1 s2 \<Longrightarrow> frame_fields s s2"
  by (simp add: frame_fields_def)

lemma fft_single_sweep_fields:
  assumes "fft_single_sweep s Ix = (r, s1)"
  shows "frame_fields s s1 \<and> spectra s1 = spectra s \<and> err1 s1 = err1 s \<and> err2 s1 = err2 s"
  using fft_single_sweep_frame [OF assms] by auto

primrec row_state :: "row_outcome \<Rightarrow> owfft" where
  "row_state (RowOk sp s) = s"
| "row_state (RowReturn s) = s"
| "row_state (RowRaise e s) = s"

lemma row_state_catch [simp]:
  "row_state (catch_fft_error e s) = (if is_value_error e then s\<lparr>err1 := Some e\<rparr> else s)"
  by (simp add: catch_fft_error_def)

lemma transform_row_fields:
  "frame_fields s (row_state (transform_row s row)) \<and> spectra (row_state (transform_row s row)) = spectra s"
proof -
  have sweep: "frame_fields s s1 \<and> spectra s1 = spectra s" if "fft_single_sweep s Ix = (r, s1)" for s Ix r s1
    using fft_single_sweep_fields [OF that] by simp
  show ?thesis
    unfolding transform_row_def Let_def
    by (auto split: prod.splits sum.splits if_splits dest!: sweep intro: frame_fields_trans
             simp del: frame_fields_def)
qed

primrec loop_state :: "loop_outcome \<Rightarrow> owfft" where
  "loop_state (Done s) = s"
| "loop_state (Early s) = s"
| "loop_state (Raised e s) = s"

lemma fft_rows_fields: "frame_fields s (loop_state (fft_rows s X))"
proof (induction s X rule: fft_rows.induct)
  case (1 s)
  then show ?case by simp
next
  case (2 s row rows)
  have fr: "frame_fields s (row_state (transform_row s row))" using transform_row_fields by blast
  show ?case
  proof (cases "transform_row s row")
    case (RowOk sp s1)
    then have f1: "frame_fields s s1" using fr by simp
    show ?thesis
    proof (cases "np_vstack (spectra s1) sp")
      case (Inl e)
      then show ?thesis using RowOk f1 by simp
    next
      case (Inr sp')
      then show ?thesis
        using RowOk f1 "2.IH" [OF RowOk Inr] frame_fields_trans [of s "s1\<lparr>spectra := Some sp'\<rparr>"] by simp
    qed
  qed (use fr in simp_all)
qed

lemma transform_row_wavenumbers:
  "wavenumbers s = Some w \<Longrightarrow> wavenumbers (row_state (transform_row s row)) = Some w"
  unfolding transform_row_def Let_def
  by (auto split: prod.splits sum.splits if_splits dest: fft_single_sweep_keeps_wavenumbers)

lemma transform_row_Ok_errors:
  "transform_row s row = RowOk sp s1 \<Longrightarrow> err1 s1 = err1 s \<and> err2 s1 = err2 s"
  unfolding transform_row_def Let_def
  by (auto simp: catch_fft_error_def split: prod.splits sum.splits if_splits
           dest!: fft_single_sweep_fields)

lemma fft_rows_Done_errors:
  "fft_rows s X = Done s1 \<Longrightarrow> err1 s1 = err1 s \<and> err2 s1 = err2 s"
proof (induction s X rule: fft_rows.induct)
  case (2 s row rows)
  then show ?case
    by (auto split: row_outcome.splits sum.splits dest!: transform_row_Ok_errors)
qed simp

section \<open>Well-formed spectra\<close>

text \<open>
  During the loop either nothing has been stacked and no axis computed, or every stacked
  spectrum has one value per wavenumber.
\<close>

definition rows_wf :: "owfft \<Rightarrow> bool" where
  "rows_wf s \<longleftrightarrow> (spectra s = None \<and> wavenumbers s = None)
     \<or> (\<exists>wn rows. wavenumbers s = Some wn \<and> spectra s = Some rows \<and> rows \<noteq> []
                  \<and> (\<forall>r \<in> set rows. length r = length wn))"

lemma rows_wf_stack:
  assumes wf: "rows_wf s" and tr: "transform_row s row = RowOk sp s1"
    and vs: "np_vstack (spectra s1) sp = Inr sp'"
  shows "rows_wf (s1\<lparr>spectra := Some sp'\<rparr>)"
proof -
  have fr: "spectra s1 = spectra s" using transform_row_fields [of s row] tr by simp
  show ?thesis
  proof (cases "spectra s = None \<and> wavenumbers s = None")
    case True
    have "\<exists>wn. wavenumbers s1 = Some wn \<and> length sp = length wn"
      using transform_row_first_length [OF tr] True by simp
    then obtain wn where "wavenumbers s1 = Some wn" "length sp = length wn" by blast
    moreover have "sp' = [sp]" using vs fr True by (simp add: np_vstack_def)
    ultimately show ?thesis by (simp add: rows_wf_def)
  next
    case False
    then obtain wn rs where w: "wavenumbers s = Some wn" and r: "spectra s = Some rs"
      and ne: "rs \<noteq> []" and all: "\<forall>r \<in> set rs. length r = length wn"
      using wf by (auto simp: rows_wf_def)
    have w1: "wavenumbers s1 = Some wn" using transform_row_wavenumbers [OF w, of row] tr by simp
    have "sp' = rs @ [sp] \<and> length sp = length (hd rs)"
      using vs fr r by (auto simp: np_vstack_def split: if_splits)
    moreover have "length (hd rs) = length wn" using ne all by simp
    ultimately show ?thesis using w1 ne all by (auto simp: rows_wf_def)
  qed
qed

lemma fft_rows_wf: "rows_wf s \<Longrightarrow> fft_rows s X = Done s1 \<Longrightarrow> rows_wf s1"
proof (induction s X rule: fft_rows.induct)
  case (2 s row rows)
  then show ?case
    by (auto split: row_outcome.splits sum.splits intro: rows_wf_stack)
qed simp

lemma band_limit_wf:
  assumes "\<forall>r \<in> set sp. length r = length wn" and "band_limit lo hi wn sp = (wn', sp')"
  shows "\<forall>r \<in> set sp'. length r = length wn'"
  using assms by (auto simp: band_limit_def Let_def py_slice_nat)

text \<open>A run either leaves the output alone or sends a table whose rows match its axis.\<close>

lemma calculateFFT_sent_wf:
  "sent (outcome_state (calculateFFT s X)) = sent s
   \<or> (\<exists>wn rows. sent (outcome_state (calculateFFT s X)) = Some (wn, rows) \<and> (\<forall>r \<in> set rows. length r = length wn))"
proof -
  define s0 where "s0 = s\<lparr>wavenumbers := None, spectra := None, err1 := None, err2 := None, warn4 := False\<rparr>"
  have f: "frame_fields s0 (loop_state (fft_rows s0 X))" by (rule fft_rows_fields)
  have io: "sent s0 = sent s" by (simp add: s0_def)
  show ?thesis
  proof (cases "fft_rows s0 X")
    case (Done s1)
    have wf: "rows_wf s1" using fft_rows_wf [OF _ Done] by (simp add: rows_wf_def s0_def)
    show ?thesis
    proof (cases "\<exists>wn sp. wavenumbers s1 = Some wn \<and> spectra s1 = Some sp")
      case True
      then obtain wn sp where w: "wavenumbers s1 = Some wn" and p: "spectra s1 = Some sp" by blast
      have all: "\<forall>r \<in> set sp. length r = length wn" using wf w p by (auto simp: rows_wf_def)
      obtain wn' sp' where bl: "(if limit_output s1 then band_limit (out_limit1 s1) (out_limit2 s1) wn sp
                                 else (wn, sp)) = (wn', sp')" by fastforce
      have "\<forall>r \<in> set sp'. length r = length wn'"
        using bl all band_limit_wf [OF all] by (auto split: if_splits)
      then show ?thesis using Done w p bl
        by (simp add: calculateFFT_def s0_def [symmetric] build_spec_table_def Let_def)
    next
      case False
      then have "calculateFFT s X = Exc NoneValue s1"
        using Done by (auto simp: calculateFFT_def s0_def [symmetric] split: option.splits)
      then show ?thesis using f Done io by (simp add: frame_fields_def)
    qed
  qed (use f io in \<open>simp_all add: calculateFFT_def s0_def [symmetric] frame_fields_def\<close>)
qed

section \<open>Band limiting\<close>

lemma np_searchsorted_count: "sorted a \<Longrightarrow> np_searchsorted a v = count_below a v"
  unfolding np_searchsorted_def using count_below_sorted(1) by (simp add: bisect_left_count)

lemma count_below_all_ge: "\<forall>x \<in> set xs. v \<le> x \<Longrightarrow> count_below xs v = 0"
  by (cases xs) (auto simp: count_below_def)

lemma count_below_all_lt:
  assumes "\<forall>x \<in> set xs. x < v"
  shows "count_below xs v = length xs"
proof -
  have "takeWhile (\<lambda>x. x < v) xs = xs" using assms by (simp add: takeWhile_eq_all_conv)
  then show ?thesis unfolding count_below_def by (rule arg_cong)
qed

lemma band_limit_sorted:
  assumes "sorted wn"
  shows "band_limit lo hi wn sp =
           (take (count_below wn hi - count_below wn lo) (drop (count_below wn lo) wn),
            map (\<lambda>r. take (min (count_below wn hi) (length r) - count_below wn lo) (drop (count_below wn lo) r)) sp)"
  using assms count_below_sorted(1) [OF assms, of hi]
  by (simp add: band_limit_def np_searchsorted_count py_slice_nat min_absorb1 Let_def)

text \<open>Every wavenumber the band keeps lies in \<open>[lo, hi)\<close>.\<close>

lemma band_limit_range:
  assumes "sorted wn" and "x \<in> set (take (count_below wn hi - count_below wn lo) (drop (count_below wn lo) wn))"
  shows "lo \<le> x \<and> x < hi"
proof -
  let ?a = "count_below wn lo" and ?b = "count_below wn hi"
  obtain i where i: "i < length (take (?b - ?a) (drop ?a wn))"
    and x: "x = take (?b - ?a) (drop ?a wn) ! i"
    using assms(2) by (auto simp: in_set_conv_nth)
  have ib: "?a + i < ?b" and il: "?a + i < length wn" using i by auto
  have "x = wn ! (?a + i)" using x i il by simp
  then show ?thesis
    using count_below_sorted(2) [OF assms(1) ib] count_below_sorted(3) [OF assms(1) _ il, of lo] by simp
qed

lemma band_slice_filter:
  "sorted wn \<Longrightarrow> take (count_below wn hi - count_below wn lo) (drop (count_below wn lo) wn)
                   = filter (\<lambda>x. lo \<le> x \<and> x < hi) wn"
proof (induction wn)
  case (Cons x xs)
  have ge: "\<forall>y \<in> set xs. x \<le> y" and s: "sorted xs" using Cons.prems by simp_all
  show ?case
  proof (cases "x < hi")
    case False
    then have "filter (\<lambda>x. lo \<le> x \<and> x < hi) (x # xs) = []"
      using ge by (auto simp: filter_empty_conv)
    then show ?thesis using False by (simp add: count_below_def)
  next
    case hi: True
    show ?thesis
    proof (cases "x < lo")
      case True
      then show ?thesis using hi Cons.IH [OF s] by (simp add: count_below_def)
    next
      case False
      then have "count_below xs lo = 0" using ge by (intro count_below_all_ge) auto
      then show ?thesis using hi False Cons.IH [OF s] by (simp add: count_below_def)
    qed
  qed
qed (simp add: count_below_def)

section \<open>Rows of impulses\<close>

lemma fft_rows_impulses:
  assumes "apod_func s \<le> 2" and "0 < dx s" and "0 < z" and "0 < m"
    and "phase_res_limit s \<Longrightarrow>
         0 < dx s * of_int (phase_resolution s) \<and> dx s * of_int (phase_resolution s) \<le> 1 / 2"
    and "sweeps s = Some 0"
    and "np_rfftfreq (length (zero_filling (zff s) (impulse z 1 m))) (dx s) = Inr wn"
    and "wavenumbers s = None \<or> wavenumbers s = Some wn"
    and "spectra s = None \<or> (\<exists>rows. spectra s = Some rows \<and> rows \<noteq> [] \<and> length (hd rows) = length wn)"
    and "\<forall>a \<in> set as. 0 < a"
  shows "\<exists>s'. fft_rows s (map (\<lambda>a. impulse z a m) as) = Done s' \<and> frame_fields s s'
           \<and> (as \<noteq> [] \<longrightarrow> wavenumbers s' = Some wn
                \<and> spectra s' = Some ((case spectra s of None \<Rightarrow> [] | Some rows \<Rightarrow> rows)
                                     @ map (\<lambda>a. replicate (length wn) a) as))"
  using assms
proof (induction as arbitrary: s)
  case Nil
  then show ?case by simp
next
  case (Cons a as)
  let ?sp = "replicate (length wn) a"
  have len: "length (zero_filling (zff s) (impulse z a m)) = length (zero_filling (zff s) (impulse z 1 m))"
    by (simp add: length_zero_filling)
  obtain s1 where ft: "fft_single_sweep s (impulse z a m) = (Inr ?sp, s1)" and w1: "wavenumbers s1 = Some wn"
    using fft_single_sweep_impulse [of s a z m wn] Cons.prems len by auto
  have fr1: "frame_fields s s1" and sp1: "spectra s1 = spectra s"
    using fft_single_sweep_fields [OF ft] by simp_all
  have tr: "transform_row s (impulse z a m) = RowOk ?sp s1"
    using ft Cons.prems(6) by (simp add: transform_row_def)
  define prev where "prev = (case spectra s of None \<Rightarrow> [] | Some rows \<Rightarrow> rows)"
  have vs: "np_vstack (spectra s1) ?sp = Inr (prev @ [?sp])"
    using Cons.prems(9) sp1 by (auto simp: np_vstack_def prev_def)
  define s2 where "s2 = s1\<lparr>spectra := Some (prev @ [?sp])\<rparr>"
  have fr2: "frame_fields s s2" using fr1 by (simp add: s2_def)
  have step: "fft_rows s (map (\<lambda>a. impulse z a m) (a # as)) = fft_rows s2 (map (\<lambda>a. impulse z a m) as)"
    using tr vs by (simp add: s2_def)
  have "\<exists>s'. fft_rows s2 (map (\<lambda>a. impulse z a m) as) = Done s' \<and> frame_fields s2 s'
          \<and> (as \<noteq> [] \<longrightarrow> wavenumbers s' = Some wn
               \<and> spectra s' = Some ((case spectra s2 of None \<Rightarrow> [] | Some rows \<Rightarrow> rows)
                                    @ map (\<lambda>a. replicate (length wn) a) as))"
  proof (rule Cons.IH)
    have eq: "apod_func s2 = apod_func s" "dx s2 = dx s" "phase_res_limit s2 = phase_res_limit s"
      "phase_resolution s2 = phase_resolution s" "sweeps s2 = sweeps s" "zff s2 = zff s"
      using fr2 by (simp_all add: frame_fields_def)
    have hd: "length (hd (prev @ [?sp])) = length wn"
      using Cons.prems(9) by (cases prev) (auto simp: prev_def split: option.splits)
    show "apod_func s2 \<le> 2" "0 < dx s2" "0 < z" "0 < m" "sweeps s2 = Some 0"
      "np_rfftfreq (length (zero_filling (zff s2) (impulse z 1 m))) (dx s2) = Inr wn"
      using Cons.prems eq by simp_all
    show "phase_res_limit s2 \<Longrightarrow>
          0 < dx s2 * of_int (phase_resolution s2) \<and> dx s2 * of_int (phase_resolution s2) \<le> 1 / 2"
      using Cons.prems(5) eq by simp
    show "wavenumbers s2 = None \<or> wavenumbers s2 = Some wn" using w1 by (simp add: s2_def)
    show "spectra s2 = None \<or> (\<exists>rows. spectra s2 = Some rows \<and> rows \<noteq> [] \<and> length (hd rows) = length wn)"
      using hd by (simp add: s2_def)
    show "\<forall>a \<in> set as. 0 < a" using Cons.prems(10) by simp
  qed
  then obtain s' where r: "fft_rows s2 (map (\<lambda>a. impulse z a m) as) = Done s'"
    and f': "frame_fields s2 s'"
    and sp': "as \<noteq> [] \<longrightarrow> wavenumbers s' = Some wn
               \<and> spectra s' = Some ((prev @ [?sp]) @ map (\<lambda>a. replicate (length wn) a) as)"
    by (auto simp: s2_def)
  show ?case
  proof (cases "as = []")
    case True
    then show ?thesis using step fr2 w1 by (simp add: s2_def prev_def)
  next
    case False
    then show ?thesis using step r f' sp' fr2 frame_fields_trans by (auto simp: prev_def)
  qed
qed

section \<open>Properties\<close>

text \<open>
  Band limiting with \<open>np.searchsorted\<close> on the ascending wavenumber axis
  is idempotent: cutting an axis and its spectra to the band a second time, with the
  same limits, changes nothing.
\<close>

theorem band_limit_idempotent:
  assumes "sorted wn"
  shows "band_limit lo hi (fst (band_limit lo hi wn sp)) (snd (band_limit lo hi wn sp)) = band_limit lo hi wn sp"
proof -
  define a where "a = count_below wn lo"
  define b where "b = count_below wn hi"
  define w where "w = take (b - a) (drop a wn)"
  define rs where "rs = map (\<lambda>r. take (min b (length r) - a) (drop a r)) sp"
  have bl: "band_limit lo hi wn sp = (w, rs)"
    using band_limit_sorted [OF assms] by (simp add: a_def b_def w_def rs_def)
  have range: "\<forall>x \<in> set w. lo \<le> x \<and> x < hi"
    using band_limit_range [OF assms] by (simp add: w_def a_def b_def)
  have sw: "sorted w" using assms by (simp add: w_def sorted_wrt_take sorted_wrt_drop)
  have c1: "count_below w lo = 0" using range by (intro count_below_all_ge) auto
  have c2: "count_below w hi = length w" using range by (intro count_below_all_lt) auto
  have lw: "length w = b - a" using count_below_sorted(1) [OF assms, of hi] by (simp add: w_def b_def)
  have rows: "map (\<lambda>r. take (min (length w) (length r)) r) rs = rs"
    using lw by (intro map_idI) (auto simp: rs_def)
  have "band_limit lo hi w rs = (w, rs)"
    using band_limit_sorted [OF sw, of lo hi rs] c1 c2 rows by simp
  then show ?thesis using bl by simp
qed

theorem band_limit_idempotent_witness:
  "sorted [1, 2, 3 :: real]
   \<and> band_limit 2 4 (fst (band_limit 2 4 [1, 2, 3] [[5, 6, 7]])) (snd (band_limit 2 4 [1, 2, 3] [[5, 6, 7]]))
       = band_limit 2 4 [1, 2, 3] [[5, 6, 7]]"
proof -
  have h: "sorted [1, 2, 3 :: real]" by simp
  show ?thesis using h band_limit_idempotent [OF h, where lo = 2 and hi = 4 and sp = "[[5, 6, 7]]"] by blast
qed

text \<open>
  C32 (equivalence): on a sorted axis, the band the \<open>np.searchsorted\<close> slice of lines
  284--287 cuts is exactly the filter of the axis by \<open>out_limit1 \<le> x < out_limit2\<close>,
  also when the limits are given the wrong way round (then the band is empty).
\<close>

theorem band_limit_filter:
  "sorted wn \<Longrightarrow> fst (band_limit lo hi wn sp) = filter (\<lambda>x. lo \<le> x \<and> x < hi) wn"
  by (simp add: band_limit_sorted band_slice_filter)

theorem band_limit_filter_witness:
  "sorted [1, 2, 3 :: real] \<and> fst (band_limit 2 4 [1, 2, 3] [[5, 6, 7]]) = [2, 3]"
proof -
  have s: "sorted [1, 2, 3 :: real]" by simp
  show ?thesis using s band_limit_filter [OF s, of 2 4 "[[5, 6, 7]]"] by simp
qed

text \<open>
  C10 (invariant): the wavenumber axis is computed once per run: once a row has set
  \<open>self.wavenumbers\<close>, no later row of the loop changes it, whatever happens to it.
\<close>

theorem fft_rows_keeps_wavenumbers:
  "wavenumbers s = Some w \<Longrightarrow> wavenumbers (loop_state (fft_rows s X)) = Some w"
proof (induction s X rule: fft_rows.induct)
  case (2 s row rows)
  have w1: "wavenumbers (row_state (transform_row s row)) = Some w"
    using transform_row_wavenumbers [OF "2.prems"] .
  show ?case
  proof (cases "transform_row s row")
    case (RowOk sp s1)
    then show ?thesis using w1 "2.IH" [OF RowOk] by (simp split: sum.splits)
  qed (use w1 in simp_all)
qed simp

theorem fft_rows_keeps_wavenumbers_witness:
  "wavenumbers (default_settings\<lparr>wavenumbers := Some [0]\<rparr>) = Some [0]
   \<and> wavenumbers (loop_state (fft_rows (default_settings\<lparr>wavenumbers := Some [0]\<rparr>) [[]])) = Some [0]"
proof -
  have h: "wavenumbers (default_settings\<lparr>wavenumbers := Some [0]\<rparr>) = Some [0]" by simp
  show ?thesis using h fft_rows_keeps_wavenumbers [OF h, where X = "[[]]"] by blast
qed

text \<open>
  C1 (functional): end to end, a batch of single-sweep interferograms that are impulses
  of positive heights \<open>a\<^sub>i\<close> at the same interior index, with one of the windows
  0--2 (Boxcar or Blackman-Harris, 1 at the impulse), a positive spacing, the output band
  limit off and either no resolution limit or one that leaves at least one point per
  side, is transformed to the axis \<open>rfftfreq(N_zff, dx)\<close> and the flat spectra of
  heights \<open>a\<^sub>i\<close>, one per row, in input order, and the table is sent.
\<close>

theorem calculateFFT_impulses:
  assumes "apod_func s \<le> 2" and "0 < dx s" and "0 < z" and "0 < m"
    and "phase_res_limit s \<Longrightarrow>
         0 < dx s * of_int (phase_resolution s) \<and> dx s * of_int (phase_resolution s) \<le> 1 / 2"
    and "sweeps s = Some 0" and "\<not> limit_output s" and "as \<noteq> []" and "\<forall>a \<in> set as. 0 < a"
  shows "\<exists>s' wn. calculateFFT s (map (\<lambda>a. impulse z a m) as) = Ret s'
            \<and> np_rfftfreq (length (zero_filling (zff s) (impulse z 1 m))) (dx s) = Inr wn
            \<and> sent s' = Some (wn, map (\<lambda>a. replicate (length wn) a) as)"
proof -
  define n where "n = length (zero_filling (zff s) (impulse z 1 m))"
  have "0 < n" by (simp add: n_def length_zero_filling)
  then obtain wn where rf: "np_rfftfreq n (dx s) = Inr wn"
    using assms(2) by (simp add: np_rfftfreq_def)
  define s0 where "s0 = s\<lparr>wavenumbers := None, spectra := None, err1 := None, err2 := None, warn4 := False\<rparr>"
  obtain s' where r: "fft_rows s0 (map (\<lambda>a. impulse z a m) as) = Done s'" and f: "frame_fields s0 s'"
    and w: "wavenumbers s' = Some wn" and sp: "spectra s' = Some (map (\<lambda>a. replicate (length wn) a) as)"
    using fft_rows_impulses [of s0 z m wn as] assms rf by (auto simp: s0_def n_def)
  have "limit_output s' = limit_output s" using f by (simp add: frame_fields_def s0_def)
  then show ?thesis
    using r w sp rf assms(7) by (simp add: calculateFFT_def s0_def [symmetric] build_spec_table_def n_def Let_def)
qed

theorem calculateFFT_impulses_witness:
  "apod_func (default_settings\<lparr>dx := 1 / 64, sweeps := Some 0, limit_output := False\<rparr>) \<le> 2
   \<and> 0 < dx (default_settings\<lparr>dx := 1 / 64, sweeps := Some 0, limit_output := False\<rparr>)
   \<and> 0 < (1::nat) \<and> 0 < (1::nat)
   \<and> 0 < dx (default_settings\<lparr>dx := 1 / 64, sweeps := Some 0, limit_output := False\<rparr>)
         * of_int (phase_resolution (default_settings\<lparr>dx := 1 / 64, sweeps := Some 0, limit_output := False\<rparr>))
   \<and> dx (default_settings\<lparr>dx := 1 / 64, sweeps := Some 0, limit_output := False\<rparr>)
         * of_int (phase_resolution (default_settings\<lparr>dx := 1 / 64, sweeps := Some 0, limit_output := False\<rparr>)) \<le> 1 / 2
   \<and> (\<exists>s' wn. calculateFFT (default_settings\<lparr>dx := 1 / 64, sweeps := Some 0, limit_output := False\<rparr>)
                (map (\<lambda>a. impulse 1 a 1) [2]) = Ret s'
        \<and> np_rfftfreq (length (zero_filling 1 (impulse 1 1 1))) (1 / 64) = Inr wn
        \<and> sent s' = Some (wn, map (\<lambda>a. replicate (length wn) a) [2]))"
proof -
  let ?s = "default_settings\<lparr>dx := 1 / 64, sweeps := Some 0, limit_output := False\<rparr>"
  have h: "apod_func ?s \<le> 2" "0 < dx ?s" "0 < (1::nat)" "0 < (1::nat)"
    "phase_res_limit ?s \<Longrightarrow> 0 < dx ?s * of_int (phase_resolution ?s) \<and> dx ?s * of_int (phase_resolution ?s) \<le> 1 / 2"
    "sweeps ?s = Some 0" "\<not> limit_output ?s" "[2 :: real] \<noteq> []" "\<forall>a \<in> set [2 :: real]. 0 < a"
    by (simp_all add: default_settings_def)
  have l: "0 < dx ?s * of_int (phase_resolution ?s)" "dx ?s * of_int (phase_resolution ?s) \<le> 1 / 2"
    by (simp_all add: default_settings_def)
  show ?thesis
    using h l calculateFFT_impulses [OF h] by (simp add: default_settings_def)
qed

text \<open>
  C22 (error): a spacing \<open>dx = 0\<close> (typed into the \<open>dx\<close> field) makes \<open>np.fft.rfftfreq\<close>
  divide by zero in the first row that passes the zpd check; \<open>ZeroDivisionError\<close> is
  not a \<open>ValueError\<close>, so it escapes \<open>calculateFFT\<close> instead of being reported.
\<close>

theorem calculateFFT_dx_zero:
  assumes "sweeps s = Some 0" and "dx s = 0" and "prepare (apod_func s) (zff s) row = Inr (z, Ix_zff)"
  shows "\<exists>s'. calculateFFT s (row # rows) = Exc ZeroDivision s'"
proof -
  define s0 where "s0 = s\<lparr>wavenumbers := None, spectra := None, err1 := None, err2 := None, warn4 := False\<rparr>"
  have w: "wavenumber_set s0 (length Ix_zff) = (Inl ZeroDivision, s0)"
    using assms(2) by (simp add: wavenumber_set_def np_rfftfreq_def s0_def)
  have "fft_single_sweep s0 row = (Inl ZeroDivision, s0)"
    using assms(3) w by (simp add: fft_single_sweep_def s0_def)
  then have "transform_row s0 row = RowRaise ZeroDivision s0"
    using assms(1) by (simp add: transform_row_def catch_fft_error_def s0_def)
  then show ?thesis by (simp add: calculateFFT_def s0_def [symmetric])
qed

theorem calculateFFT_dx_zero_witness:
  "sweeps (default_settings\<lparr>dx := 0, sweeps := Some 0\<rparr>) = Some 0 \<and> dx (default_settings\<lparr>dx := 0, sweeps := Some 0\<rparr>) = 0
   \<and> prepare (apod_func (default_settings\<lparr>dx := 0, sweeps := Some 0\<rparr>)) (zff (default_settings\<lparr>dx := 0, sweeps := Some 0\<rparr>)) [1]
       = Inr (0, zero_filling 1 [1])
   \<and> (\<exists>s'. calculateFFT (default_settings\<lparr>dx := 0, sweeps := Some 0\<rparr>) [[1]] = Exc ZeroDivision s')"
proof -
  have h: "sweeps (default_settings\<lparr>dx := 0, sweeps := Some 0\<rparr>) = Some 0"
    "dx (default_settings\<lparr>dx := 0, sweeps := Some 0\<rparr>) = 0" by simp_all
  have p: "prepare (apod_func (default_settings\<lparr>dx := 0, sweeps := Some 0\<rparr>)) (zff (default_settings\<lparr>dx := 0, sweeps := Some 0\<rparr>)) [1]
       = Inr (0, zero_filling 1 [1])"
    using prepare_impulse [of 1 1 1 0 0] by (simp add: default_settings_def)
  show ?thesis using h p calculateFFT_dx_zero [OF h p, where rows = "[]"] by blast
qed

text \<open>
  C6 (safety): \<open>calculateFFT\<close> changes the output only by completing: either the table
  and the sent output are exactly as before (every early return and every escaping
  exception), or the run returned normally, sent its new table and left no error set.
  In particular a failed run leaves the previous run's spectra on the output.
\<close>

theorem calculateFFT_atomic:
  "(sent (outcome_state (calculateFFT s X)) = sent s
    \<and> spectra_table (outcome_state (calculateFFT s X)) = spectra_table s)
   \<or> (\<exists>s'. calculateFFT s X = Ret s' \<and> sent s' = spectra_table s' \<and> sent s' \<noteq> None
          \<and> err1 s' = None \<and> err2 s' = None)"
proof -
  define s0 where "s0 = s\<lparr>wavenumbers := None, spectra := None, err1 := None, err2 := None, warn4 := False\<rparr>"
  have f: "frame_fields s0 (loop_state (fft_rows s0 X))" by (rule fft_rows_fields)
  have io: "sent s0 = sent s" "spectra_table s0 = spectra_table s" by (simp_all add: s0_def)
  show ?thesis
  proof (cases "fft_rows s0 X")
    case (Done s1)
    have e: "err1 s1 = None" "err2 s1 = None"
      using fft_rows_Done_errors [OF Done] by (simp_all add: s0_def)
    show ?thesis
    proof (cases "\<exists>wn sp. wavenumbers s1 = Some wn \<and> spectra s1 = Some sp")
      case True
      then obtain wn sp where "wavenumbers s1 = Some wn" "spectra s1 = Some sp" by blast
      then show ?thesis using Done e
        by (simp add: calculateFFT_def s0_def [symmetric] Let_def split: prod.splits)
    next
      case False
      then have "calculateFFT s X = Exc NoneValue s1"
        using Done by (auto simp: calculateFFT_def s0_def [symmetric] split: option.splits)
      then show ?thesis using f Done io by (simp add: frame_fields_def)
    qed
  qed (use f io in \<open>simp_all add: calculateFFT_def s0_def [symmetric] frame_fields_def\<close>)
qed

end
