(* ===== verification/Widget.thy ===== *)
theory Widget
  imports Driver
begin

text \<open>
  The widget's entry points (\<open>owfft.py\<close>, lines 181--222): the input handler
  \<open>set_data\<close>, the callbacks of the controls (\<open>setting_changed\<close>, \<open>out_limit_changed\<close>,
  \<open>dx_changed\<close>) and \<open>commit\<close>, which they reach through the conditional commit that
  \<open>gui.auto_commit\<close> installs (\<open>conditional_commit\<close>). A control of the GUI writes its
  setting and then calls its callback; \<open>event\<close> lists them with the value written. Orange's signal manager
  reports an exception raised by a handler and goes on with the object in the state the
  handler left, so the states a widget can reach are those of \<open>reachable\<close>: the state
  after \<open>__init__\<close>, closed under handling any event, normally or by an exception. The
  theory proves that in every reachable state the output carries the current table,
  that this table is well formed (\<open>table_wf\<close>), and that no output is sent while there
  is no input.
\<close>

section \<open>Handlers\<close>

definition commit :: "owfft \<Rightarrow> owfft outcome" where
  "commit s = (case data s of None \<Rightarrow> Ret s | Some X \<Rightarrow> calculateFFT s X)"

text \<open>
  \<open>gui.auto_commit(self.outputBox, self, "autocommit", "Calculate")\<close> (line 175) replaces
  \<open>self.commit\<close> by a conditional commit: with \<open>autocommit\<close> set it commits (and
  clears \<open>dirty\<close>), otherwise it only sets \<open>dirty\<close>. The \<open>Calculate\<close> button commits
  unconditionally, and checking the box commits when the widget is dirty.
\<close>

definition conditional_commit :: "owfft \<Rightarrow> owfft outcome" where
  "conditional_commit s = (if autocommit s then commit (s\<lparr>dirty := False\<rparr>) else Ret (s\<lparr>dirty := True\<rparr>))"

definition set_data :: "owfft \<Rightarrow> real list list option \<Rightarrow> owfft outcome" where
  "set_data s dataset =
     (case dataset of
        Some X \<Rightarrow>
          (let s1 = s\<lparr>data := Some X\<rparr> in
           case determine_sweeps X of
             Inl e \<Rightarrow> Exc e s1
           | Inr sw \<Rightarrow> conditional_commit (s1\<lparr>sweeps := Some sw\<rparr>))
      | None \<Rightarrow>
          (let s1 = s\<lparr>data := None, spectra_table := None\<rparr> in Ret (s1\<lparr>sent := spectra_table s1\<rparr>)))"

definition setting_changed :: "owfft \<Rightarrow> owfft outcome" where
  "setting_changed s = conditional_commit s"

definition out_limit_changed :: "owfft \<Rightarrow> owfft outcome" where
  "out_limit_changed s =
     (let minX = min (out_limit1 s) (out_limit2 s); maxX = max (out_limit1 s) (out_limit2 s)
      in conditional_commit (s\<lparr>out_limit1 := minX, out_limit2 := maxX\<rparr>))"

definition dx_changed :: "owfft \<Rightarrow> owfft outcome" where
  "dx_changed s = conditional_commit (if dx_HeNe s then s\<lparr>dx := 1 / laser_wavenumber s / 2\<rparr> else s)"

datatype event =
    Input "real list list option"
  | SetApodFunc nat
  | SetZff nat
  | SetPhaseCorr nat
  | SetPhaseResolution int
  | SetPhaseResLimit bool
  | SetDx real
  | SetDxHeNe bool
  | SetOutLimit1 real
  | SetOutLimit2 real
  | SetLimitOutput bool
  | SetAutocommit bool
  | Calculate

fun handle :: "owfft \<Rightarrow> event \<Rightarrow> owfft outcome" where
  "handle s (Input d) = set_data s d"
| "handle s (SetApodFunc v) = setting_changed (s\<lparr>apod_func := v\<rparr>)"
| "handle s (SetZff v) = setting_changed (s\<lparr>zff := v\<rparr>)"
| "handle s (SetPhaseCorr v) = setting_changed (s\<lparr>phase_corr := v\<rparr>)"
| "handle s (SetPhaseResolution v) = setting_changed (s\<lparr>phase_resolution := v\<rparr>)"
| "handle s (SetPhaseResLimit v) = setting_changed (s\<lparr>phase_res_limit := v\<rparr>)"
| "handle s (SetDx v) = setting_changed (s\<lparr>dx := v\<rparr>)"
| "handle s (SetDxHeNe v) = dx_changed (s\<lparr>dx_HeNe := v\<rparr>)"
| "handle s (SetOutLimit1 v) = out_limit_changed (s\<lparr>out_limit1 := v\<rparr>)"
| "handle s (SetOutLimit2 v) = out_limit_changed (s\<lparr>out_limit2 := v\<rparr>)"
| "handle s (SetLimitOutput v) = setting_changed (s\<lparr>limit_output := v\<rparr>)"
| "handle s (SetAutocommit b) =
     (if b \<and> dirty s then commit (s\<lparr>autocommit := b, dirty := False\<rparr>) else Ret (s\<lparr>autocommit := b\<rparr>))"
| "handle s Calculate = commit (s\<lparr>dirty := False\<rparr>)"

text \<open>The events of the settings controls, whose callbacks end in \<open>self.commit()\<close>.\<close>

fun setting_event :: "event \<Rightarrow> bool" where
  "setting_event (Input d) = False"
| "setting_event (SetAutocommit b) = False"
| "setting_event Calculate = False"
| "setting_event _ = True"

text \<open>The events of the two output-limit edits, whose callback orders the limits.\<close>

fun limit_event :: "event \<Rightarrow> bool" where
  "limit_event (SetOutLimit1 v) = True"
| "limit_event (SetOutLimit2 v) = True"
| "limit_event _ = False"

inductive reachable :: "owfft \<Rightarrow> bool" where
  init: "reachable (owfft_init cfg)"
| step: "reachable s \<Longrightarrow> reachable (outcome_state (handle s ev))"

inductive_cases reachable_stepE: "reachable s"

section \<open>The output of a run\<close>

lemma calculateFFT_io:
  "data (outcome_state (calculateFFT s X)) = data s
   \<and> (sent (outcome_state (calculateFFT s X)) = sent s
        \<and> spectra_table (outcome_state (calculateFFT s X)) = spectra_table s
      \<or> sent (outcome_state (calculateFFT s X)) = spectra_table (outcome_state (calculateFFT s X)))"
proof -
  define s0 where "s0 = s\<lparr>wavenumbers := None, spectra := None, err1 := None, err2 := None, warn4 := False\<rparr>"
  have f: "frame_fields s0 (loop_state (fft_rows s0 X))" by (rule fft_rows_fields)
  have io: "sent s0 = sent s" "spectra_table s0 = spectra_table s" "data s0 = data s"
    by (simp_all add: s0_def)
  show ?thesis
  proof (cases "fft_rows s0 X")
    case (Done s1)
    then show ?thesis using f io
      by (auto simp: calculateFFT_def s0_def [symmetric] Let_def frame_fields_def
               split: option.splits prod.splits)
  qed (use f io in \<open>simp_all add: calculateFFT_def s0_def [symmetric] frame_fields_def\<close>)
qed

lemma commit_io:
  assumes "sent s = spectra_table s"
  shows "data (outcome_state (commit s)) = data s
         \<and> sent (outcome_state (commit s)) = spectra_table (outcome_state (commit s))"
proof (cases "data s")
  case None
  then show ?thesis using assms by (simp add: commit_def)
next
  case (Some X)
  then show ?thesis using assms calculateFFT_io [of s X] by (auto simp: commit_def)
qed

definition output_consistent :: "owfft \<Rightarrow> bool" where
  "output_consistent s \<longleftrightarrow> sent s = spectra_table s \<and> (data s = None \<longrightarrow> sent s = None)"

lemma output_consistent_upd [simp]:
  "output_consistent (s\<lparr>apod_func := a\<rparr>) = output_consistent s"
  "output_consistent (s\<lparr>zff := z\<rparr>) = output_consistent s"
  "output_consistent (s\<lparr>phase_corr := p\<rparr>) = output_consistent s"
  "output_consistent (s\<lparr>phase_resolution := r\<rparr>) = output_consistent s"
  "output_consistent (s\<lparr>phase_res_limit := b\<rparr>) = output_consistent s"
  "output_consistent (s\<lparr>dx := d\<rparr>) = output_consistent s"
  "output_consistent (s\<lparr>dx_HeNe := h\<rparr>) = output_consistent s"
  "output_consistent (s\<lparr>out_limit1 := l1\<rparr>) = output_consistent s"
  "output_consistent (s\<lparr>out_limit2 := l2\<rparr>) = output_consistent s"
  "output_consistent (s\<lparr>limit_output := lo\<rparr>) = output_consistent s"
  "output_consistent (s\<lparr>autocommit := ac\<rparr>) = output_consistent s"
  "output_consistent (s\<lparr>dirty := dt\<rparr>) = output_consistent s"
  by (simp_all add: output_consistent_def)

lemma commit_consistent:
  assumes "output_consistent s"
  shows "output_consistent (outcome_state (commit s))"
proof (cases "data s")
  case None
  then show ?thesis using assms by (simp add: commit_def)
next
  case (Some X)
  then show ?thesis
    using assms commit_io [of s] by (simp add: output_consistent_def)
qed

lemma conditional_commit_consistent:
  "output_consistent s \<Longrightarrow> output_consistent (outcome_state (conditional_commit s))"
  by (simp add: conditional_commit_def commit_consistent)

lemma handle_consistent:
  assumes "output_consistent s"
  shows "output_consistent (outcome_state (handle s ev))"
proof (cases ev)
  case (Input d)
  show ?thesis
  proof (cases d)
    case None
    then show ?thesis using Input by (simp add: set_data_def output_consistent_def Let_def)
  next
    case (Some X)
    have c: "output_consistent (outcome_state (conditional_commit (s\<lparr>data := Some X, sweeps := Some sw\<rparr>)))" for sw
      using assms by (intro conditional_commit_consistent) (simp add: output_consistent_def)
    have "output_consistent (s\<lparr>data := Some X\<rparr>)" using assms by (simp add: output_consistent_def)
    then show ?thesis using Input Some c by (auto simp: set_data_def Let_def split: sum.splits)
  qed
qed (use assms in \<open>simp_all add: setting_changed_def out_limit_changed_def dx_changed_def Let_def
                     conditional_commit_consistent commit_consistent split: if_split\<close>)

section \<open>Well-formed output\<close>

text \<open>A table on the output has one value per wavenumber in every row.\<close>

definition table_wf :: "spec_table option \<Rightarrow> bool" where
  "table_wf t = (case t of None \<Rightarrow> True | Some (wn, rows) \<Rightarrow> list_all (\<lambda>r. length r = length wn) rows)"

lemma commit_table_wf:
  assumes "table_wf (sent s)"
  shows "table_wf (sent (outcome_state (commit s)))"
proof (cases "data s")
  case (Some X)
  then show ?thesis
    using assms calculateFFT_sent_wf [of s X]
    by (auto simp: commit_def table_wf_def list_all_iff)
qed (use assms in \<open>simp add: commit_def\<close>)

lemma conditional_commit_table_wf:
  "table_wf (sent s) \<Longrightarrow> table_wf (sent (outcome_state (conditional_commit s)))"
  by (simp add: conditional_commit_def commit_table_wf)

lemma handle_table_wf:
  assumes "table_wf (sent s)"
  shows "table_wf (sent (outcome_state (handle s ev)))"
proof (cases ev)
  case (Input d)
  have c: "table_wf (sent (outcome_state (conditional_commit (s\<lparr>data := Some X, sweeps := Some sw\<rparr>))))" for X sw
    using assms by (intro conditional_commit_table_wf) simp
  show ?thesis
  proof (cases d)
    case None
    then show ?thesis using Input by (simp add: set_data_def Let_def table_wf_def)
  next
    case (Some X)
    then show ?thesis using Input c assms by (auto simp: set_data_def Let_def split: sum.splits)
  qed
qed (use assms in \<open>simp_all add: setting_changed_def out_limit_changed_def dx_changed_def Let_def
                     conditional_commit_table_wf commit_table_wf\<close>)

section \<open>Settings a run keeps\<close>

text \<open>A transform changes none of the settings; in particular not the output limits and
  not the datapoint spacing.\<close>

definition settings_kept :: "owfft \<Rightarrow> owfft \<Rightarrow> bool" where
  "settings_kept s s' \<longleftrightarrow> out_limit1 s' = out_limit1 s \<and> out_limit2 s' = out_limit2 s
     \<and> dx s' = dx s \<and> dx_HeNe s' = dx_HeNe s \<and> laser_wavenumber s' = laser_wavenumber s"

lemma settings_kept_frame: "frame_fields s s' \<Longrightarrow> settings_kept s s'"
  by (simp add: frame_fields_def settings_kept_def)

lemma calculateFFT_settings: "settings_kept s (outcome_state (calculateFFT s X))"
proof -
  define s0 where "s0 = s\<lparr>wavenumbers := None, spectra := None, err1 := None, err2 := None, warn4 := False\<rparr>"
  have f: "frame_fields s0 (loop_state (fft_rows s0 X))" by (rule fft_rows_fields)
  have k: "settings_kept s s0" by (simp add: s0_def settings_kept_def)
  show ?thesis
  proof (cases "fft_rows s0 X")
    case (Done s1)
    then show ?thesis using f k
      by (auto simp: calculateFFT_def s0_def [symmetric] Let_def frame_fields_def settings_kept_def
               split: option.splits prod.splits)
  qed (use f k in \<open>simp_all add: calculateFFT_def s0_def [symmetric] frame_fields_def settings_kept_def\<close>)
qed

lemma conditional_commit_settings: "settings_kept s (outcome_state (conditional_commit s))"
  using calculateFFT_settings [of "s\<lparr>dirty := False\<rparr>"]
  by (auto simp: conditional_commit_def commit_def settings_kept_def split: option.splits)

lemma set_data_settings: "settings_kept s (outcome_state (set_data s d))"
proof (cases d)
  case (Some X)
  have "settings_kept s (outcome_state (conditional_commit (s\<lparr>data := Some X, sweeps := Some sw\<rparr>)))" for sw
    using conditional_commit_settings [of "s\<lparr>data := Some X, sweeps := Some sw\<rparr>"]
    by (simp add: settings_kept_def)
  then show ?thesis using Some
    by (auto simp: set_data_def Let_def settings_kept_def split: sum.splits)
qed (simp add: set_data_def settings_kept_def)

section \<open>Properties\<close>

text \<open>
  C7 (invariant): in every state a widget can reach, the value on the \<open>Spectra\<close> output
  is the current \<open>spectra_table\<close>, and while there is no input nothing is sent.
\<close>

theorem reachable_output:
  "reachable s \<Longrightarrow> sent s = spectra_table s \<and> (data s = None \<longrightarrow> sent s = None)"
proof -
  assume "reachable s"
  then have "output_consistent s"
  proof (induction rule: reachable.induct)
    case (init cfg)
    then show ?case by (simp add: output_consistent_def)
  next
    case (step s ev)
    from step.IH show ?case by (rule handle_consistent)
  qed
  then show ?thesis unfolding output_consistent_def .
qed

theorem reachable_output_witness:
  "reachable (owfft_init default_settings)
   \<and> sent (owfft_init default_settings) = spectra_table (owfft_init default_settings)
   \<and> data (owfft_init default_settings) = None \<and> sent (owfft_init default_settings) = None"
proof -
  have r: "reachable (owfft_init default_settings)" by (rule reachable.init)
  have d: "data (owfft_init default_settings) = None" by simp
  show ?thesis using r d reachable_output [OF r] by blast
qed

text \<open>
  C8 (type): in every state a widget can reach, the table on the \<open>Spectra\<close> output is
  well formed: each of its spectra has exactly one value per wavenumber of its axis,
  after stacking, band limiting and across every sequence of GUI events.
\<close>

theorem reachable_table_wf: "reachable s \<Longrightarrow> table_wf (sent s)"
proof (induction rule: reachable.induct)
  case (init cfg)
  then show ?case by (simp add: table_wf_def)
next
  case (step s ev)
  from step.IH show ?case by (rule handle_table_wf)
qed

theorem reachable_table_wf_witness:
  "reachable (owfft_init default_settings) \<and> table_wf (sent (owfft_init default_settings))"
proof -
  have r: "reachable (owfft_init default_settings)" by (rule reachable.init)
  show ?thesis using r reachable_table_wf [OF r] by blast
qed

text \<open>
  C31 (functional): with auto-commit off (the default), a change of any setting stores the
  new value and only marks the widget dirty: nothing is computed, and the table and the
  output stay as they were until \<open>Calculate\<close>.
\<close>

theorem setting_deferred:
  assumes "\<not> autocommit s" and "setting_event ev"
  shows "\<exists>s'. handle s ev = Ret s' \<and> dirty s' \<and> sent s' = sent s \<and> spectra_table s' = spectra_table s
              \<and> data s' = data s"
  using assms
  by (cases ev) (simp_all add: setting_changed_def out_limit_changed_def dx_changed_def
                               conditional_commit_def Let_def)

theorem setting_deferred_witness:
  "\<not> autocommit default_settings \<and> setting_event (SetZff 2)
   \<and> (\<exists>s'. handle default_settings (SetZff 2) = Ret s' \<and> dirty s' \<and> sent s' = sent default_settings
           \<and> spectra_table s' = spectra_table default_settings \<and> data s' = data default_settings)"
proof -
  have a: "\<not> autocommit default_settings" by (simp add: default_settings_def)
  have e: "setting_event (SetZff 2)" by simp
  show ?thesis using a e setting_deferred [OF a e] by blast
qed

text \<open>
  C33 (invariant): the output limits stay ordered: an edit of either limit leaves
  \<open>out_limit1 \<le> out_limit2\<close> (\<open>out_limit_changed\<close> sorts them), and every other event
  keeps an order that holds, since no run changes a setting.
\<close>

theorem out_limits_ordered:
  assumes "out_limit1 s \<le> out_limit2 s \<or> limit_event ev"
  shows "out_limit1 (outcome_state (handle s ev)) \<le> out_limit2 (outcome_state (handle s ev))"
proof -
  have cc: "out_limit1 (outcome_state (conditional_commit t)) \<le> out_limit2 (outcome_state (conditional_commit t))"
    if "out_limit1 t \<le> out_limit2 t" for t
    using that conditional_commit_settings [of t] by (simp add: settings_kept_def)
  have ok: "out_limit1 (outcome_state (commit t)) \<le> out_limit2 (outcome_state (commit t))"
    if "out_limit1 t \<le> out_limit2 t" for t
    using that calculateFFT_settings [of t] by (auto simp: commit_def settings_kept_def split: option.splits)
  show ?thesis
  proof (cases ev)
    case (Input d)
    then show ?thesis using assms set_data_settings [of s d] by (simp add: settings_kept_def)
  next
    case (SetOutLimit1 v)
    then show ?thesis by (simp add: out_limit_changed_def Let_def cc)
  next
    case (SetOutLimit2 v)
    then show ?thesis by (simp add: out_limit_changed_def Let_def cc)
  qed (use assms in \<open>simp_all add: setting_changed_def dx_changed_def cc ok\<close>)
qed

theorem out_limits_ordered_witness:
  "limit_event (SetOutLimit1 5000)
   \<and> out_limit1 (outcome_state (handle default_settings (SetOutLimit1 5000)))
     \<le> out_limit2 (outcome_state (handle default_settings (SetOutLimit1 5000)))"
proof -
  have e: "out_limit1 default_settings \<le> out_limit2 default_settings \<or> limit_event (SetOutLimit1 5000)"
    by simp
  show ?thesis using out_limits_ordered [OF e] by simp
qed

end
