(* ===== verification/Gui.thy ===== *)
theory Gui
  imports Widget
begin

text \<open>
  The controls of \<open>OWFFT.__init__\<close> (\<open>owfft.py\<close>, lines 76--179) and the stub \<open>main()\<close>
  (lines 560--586). A control acts only while it is enabled: the \<open>Input Data\<close> and
  \<open>FFT Options\<close> boxes start disabled (lines 178--179), \<open>set_data\<close> enables them once the
  sweeps of a table are known and disables them when the input goes away (lines 192--199);
  the \<open>\<Delta>x\<close> edit is disabled while the HeNe box is checked (\<open>disabled=self.dx_HeNe\<close>,
  line 215); the phase-resolution and output-limit edits follow the check boxes that
  \<open>disables\<close> them. \<open>gui_step\<close> applies \<open>handle\<close> of the Widget theory to enabled
  controls only and also writes the info labels (lines 70--71 and 187--201, with Python's
  \<open>'%d'\<close> as \<open>py_str_nat\<close>). The theory proves that this refines the event model
  (every state it reaches is a \<open>reachable\<close> state, so the invariants of the Widget
  theory hold for it), that with the HeNe reference \<open>dx\<close> is always
  \<open>1 / laser_wavenumber / 2\<close>, what the labels report, and when \<open>main()\<close> raises and
  what it leaves behind when it returns.
\<close>

section \<open>Definitions\<close>

text \<open>The widget object with the Qt state the handlers change: whether the
  \<open>dataBox\<close> and \<open>optionsBox\<close> are enabled, and the texts of the info labels
  \<open>infoa\<close> and \<open>infob\<close>.\<close>

record owfft_gui =
  obj :: owfft
  boxes_enabled :: bool
  infoa :: string
  infob :: string

text \<open>The texts of the info box without data (lines 70--71, again at lines 200--201).\<close>

definition no_data_labels :: "string \<times> string" where
  "no_data_labels = (''No data on input.'', '''')"

definition gui_init :: "owfft \<Rightarrow> owfft_gui" where
  "gui_init cfg = \<lparr>obj = owfft_init cfg, boxes_enabled = False,
                    infoa = fst no_data_labels, infob = snd no_data_labels\<rparr>"

fun control_enabled :: "owfft_gui \<Rightarrow> event \<Rightarrow> bool" where
  "control_enabled g (Input d) = True"
| "control_enabled g (SetApodFunc v) = boxes_enabled g"
| "control_enabled g (SetZff v) = boxes_enabled g"
| "control_enabled g (SetPhaseCorr v) = boxes_enabled g"
| "control_enabled g (SetPhaseResLimit b) = boxes_enabled g"
| "control_enabled g (SetPhaseResolution v) = (boxes_enabled g \<and> phase_res_limit (obj g))"
| "control_enabled g (SetDx v) = (boxes_enabled g \<and> \<not> dx_HeNe (obj g))"
| "control_enabled g (SetDxHeNe b) = boxes_enabled g"
| "control_enabled g (SetOutLimit1 v) = limit_output (obj g)"
| "control_enabled g (SetOutLimit2 v) = limit_output (obj g)"
| "control_enabled g (SetLimitOutput b) = True"
| "control_enabled g (SetAutocommit b) = True"
| "control_enabled g Calculate = True"

text \<open>\<open>set_data\<close> enables the boxes after \<open>determine_sweeps\<close> returned and before the
  commit, so an exception of the transform leaves them enabled; an exception of
  \<open>determine_sweeps\<close> leaves them as they were.\<close>

definition boxes_after :: "owfft_gui \<Rightarrow> event \<Rightarrow> bool" where
  "boxes_after g ev =
     (case ev of
        Input None \<Rightarrow> False
      | Input (Some X) \<Rightarrow> (case determine_sweeps X of Inl e \<Rightarrow> boxes_enabled g | Inr sw \<Rightarrow> True)
      | _ \<Rightarrow> boxes_enabled g)"

text \<open>\<open>set_data\<close> writes the labels where it enables the boxes:
  \<open>'%d %s interferogram(s)' % (X.shape[0], ["Single", "Forward-Backward"][self.sweeps])\<close>
  and \<open>'%d points each' % X.shape[1]\<close>, the length of a row.\<close>

definition labels_after :: "owfft_gui \<Rightarrow> event \<Rightarrow> string \<times> string" where
  "labels_after g ev =
     (case ev of
        Input None \<Rightarrow> no_data_labels
      | Input (Some X) \<Rightarrow>
          (case determine_sweeps X of
             Inl e \<Rightarrow> (infoa g, infob g)
           | Inr sw \<Rightarrow> (py_str_nat (length X) @ '' '' @ [''Single'', ''Forward-Backward''] ! sw
                          @ '' interferogram(s)'',
                        py_str_nat (length (hd X)) @ '' points each''))
      | _ \<Rightarrow> (infoa g, infob g))"

definition gui_step :: "owfft_gui \<Rightarrow> event \<Rightarrow> owfft_gui" where
  "gui_step g ev =
     (if control_enabled g ev
      then \<lparr>obj = outcome_state (handle (obj g) ev), boxes_enabled = boxes_after g ev,
            infoa = fst (labels_after g ev), infob = snd (labels_after g ev)\<rparr>
      else g)"

inductive gui_reachable :: "owfft_gui \<Rightarrow> bool" where
  init: "gui_reachable (gui_init cfg)"
| step: "gui_reachable g \<Longrightarrow> gui_reachable (gui_step g ev)"



section \<open>What a handler keeps\<close>

lemma conditional_commit_data: "data (outcome_state (conditional_commit t)) = data t"
  using calculateFFT_io [of "t\<lparr>dirty := False\<rparr>"]
  by (auto simp: conditional_commit_def commit_def split: option.splits)

lemma commit_data: "data (outcome_state (commit t)) = data t"
  using calculateFFT_io [of t] by (auto simp: commit_def split: option.splits)

lemma handle_data:
  "\<not> (\<exists>d. ev = Input d) \<Longrightarrow> data (outcome_state (handle s ev)) = data s"
  by (cases ev) (simp_all add: setting_changed_def out_limit_changed_def dx_changed_def Let_def
                               conditional_commit_data commit_data)

lemma set_data_data: "data (outcome_state (set_data s d)) = d"
proof (cases d)
  case (Some X)
  then show ?thesis
    by (auto simp: set_data_def Let_def conditional_commit_data split: sum.splits)
qed (simp add: set_data_def)

text \<open>With the HeNe reference, \<open>dx\<close> is derived from the laser wavenumber.\<close>

definition hene_ok :: "owfft \<Rightarrow> bool" where
  "hene_ok s \<longleftrightarrow> (dx_HeNe s \<longrightarrow> dx s = 1 / laser_wavenumber s / 2)"

lemma hene_ok_kept: "settings_kept s s' \<Longrightarrow> hene_ok s' = hene_ok s"
  by (simp add: settings_kept_def hene_ok_def)

lemma hene_ok_upd [simp]:
  "hene_ok (s\<lparr>apod_func := a\<rparr>) = hene_ok s" "hene_ok (s\<lparr>zff := z\<rparr>) = hene_ok s"
  "hene_ok (s\<lparr>phase_corr := p\<rparr>) = hene_ok s" "hene_ok (s\<lparr>phase_resolution := r\<rparr>) = hene_ok s"
  "hene_ok (s\<lparr>phase_res_limit := b\<rparr>) = hene_ok s" "hene_ok (s\<lparr>out_limit1 := l1\<rparr>) = hene_ok s"
  "hene_ok (s\<lparr>out_limit2 := l2\<rparr>) = hene_ok s" "hene_ok (s\<lparr>limit_output := lo\<rparr>) = hene_ok s"
  "hene_ok (s\<lparr>autocommit := ac\<rparr>) = hene_ok s" "hene_ok (s\<lparr>dirty := dt\<rparr>) = hene_ok s"
  by (simp_all add: hene_ok_def)

lemma conditional_commit_hene: "hene_ok (outcome_state (conditional_commit t)) = hene_ok t"
  by (rule hene_ok_kept) (rule conditional_commit_settings)

lemma commit_hene: "hene_ok (outcome_state (commit t)) = hene_ok t"
  using calculateFFT_settings [of t] hene_ok_kept by (auto simp: commit_def split: option.splits)

lemma handle_hene:
  assumes "hene_ok s" and "\<not> (\<exists>v. ev = SetDx v) \<or> \<not> dx_HeNe s"
  shows "hene_ok (outcome_state (handle s ev))"
proof (cases ev)
  case (Input d)
  then show ?thesis using assms hene_ok_kept [OF set_data_settings [of s d]] by simp
next
  case (SetDx v)
  have "hene_ok (s\<lparr>dx := v\<rparr>)" using assms SetDx by (simp add: hene_ok_def)
  then show ?thesis using SetDx by (simp add: setting_changed_def conditional_commit_hene)
next
  case (SetDxHeNe b)
  have "hene_ok (if dx_HeNe (s\<lparr>dx_HeNe := b\<rparr>)
                 then s\<lparr>dx_HeNe := b, dx := 1 / laser_wavenumber s / 2\<rparr> else s\<lparr>dx_HeNe := b\<rparr>)"
    by (simp add: hene_ok_def)
  then show ?thesis using SetDxHeNe by (simp only: handle.simps dx_changed_def conditional_commit_hene)
    (simp add: hene_ok_def)
qed (use assms in \<open>simp_all add: setting_changed_def out_limit_changed_def Let_def
                     conditional_commit_hene commit_hene\<close>)


section \<open>The info labels\<close>

lemma determine_sweeps_le1: "determine_sweeps X = Inr sw \<Longrightarrow> sw \<le> 1"
  by (auto simp: determine_sweeps_def Let_def split: list.splits sum.splits prod.splits if_splits)

lemma space_not_digit [simp]: "\<not> py_isdigit CHR '' ''"
  by (simp add: py_isdigit_def)

lemma sweep_name:
  "sw \<le> 1 \<Longrightarrow> [''Single'', ''Forward-Backward''] ! sw = (if sw = 0 then ''Single'' else ''Forward-Backward'')"
  by (cases sw) auto

lemma gui_step_input_labels:
  "determine_sweeps X = Inr sw \<Longrightarrow>
   (infoa (gui_step g (Input (Some X))), infob (gui_step g (Input (Some X))))
   = (py_str_nat (length X) @ '' '' @ [''Single'', ''Forward-Backward''] ! sw @ '' interferogram(s)'',
      py_str_nat (length (hd X)) @ '' points each'')"
  by (simp add: gui_step_def labels_after_def)

text \<open>When \<open>determine_sweeps\<close> raises, \<open>self.data\<close> already holds the new table but the
  labels still describe the previous input.\<close>

lemma info_labels_stale:
  assumes "determine_sweeps X = Inl e"
  shows "infoa (gui_step g (Input (Some X))) = infoa g \<and> infob (gui_step g (Input (Some X))) = infob g
         \<and> data (obj (gui_step g (Input (Some X)))) = Some X"
  using assms set_data_data [of "obj g" "Some X"] by (simp add: gui_step_def labels_after_def)

section \<open>Properties\<close>

text \<open>
  C34 (refinement): the widget driven through its enabled controls refines the event model:
  every state it reaches is a reachable state of the Widget theory (so the output is the
  current, well-formed table), and the data and options controls are enabled only while
  there is an input table.
\<close>

theorem gui_refines_reachable:
  "gui_reachable g \<Longrightarrow> reachable (obj g) \<and> (boxes_enabled g \<longrightarrow> data (obj g) \<noteq> None)"
proof (induction rule: gui_reachable.induct)
  case (init cfg)
  then show ?case by (simp add: gui_init_def reachable.init)
next
  case (step g ev)
  show ?case
  proof (cases "control_enabled g ev")
    case True
    have r: "reachable (outcome_state (handle (obj g) ev))" using step.IH by (simp add: reachable.step)
    have b: "data (outcome_state (handle (obj g) ev)) \<noteq> None" if "boxes_after g ev"
    proof (cases "\<exists>d. ev = Input d")
      case True
      then obtain d where "ev = Input d" by blast
      then show ?thesis using that
        by (cases d) (simp_all add: boxes_after_def set_data_data)
    next
      case False
      then show ?thesis using that step.IH handle_data [OF False]
        by (cases ev) (simp_all add: boxes_after_def)
    qed
    show ?thesis using True r b by (simp add: gui_step_def)
  next
    case False
    then show ?thesis using step.IH by (simp add: gui_step_def)
  qed
qed

theorem gui_refines_reachable_witness:
  "gui_reachable (gui_init default_settings) \<and> reachable (obj (gui_init default_settings))"
proof -
  have g: "gui_reachable (gui_init default_settings)" by (rule gui_reachable.init)
  show ?thesis using g gui_refines_reachable [OF g] by blast
qed

text \<open>
  C35 (invariant): whenever the HeNe box is checked, \<open>dx\<close> is half the laser's wavelength,
  \<open>1 / laser_wavenumber / 2\<close>: \<open>__init__\<close> and \<open>dx_changed\<close> set it, the \<open>\<Delta>x\<close> edit is
  disabled meanwhile, and no transform changes a setting.
\<close>

theorem gui_dx_HeNe:
  "gui_reachable g \<Longrightarrow> dx_HeNe (obj g) \<Longrightarrow> dx (obj g) = 1 / laser_wavenumber (obj g) / 2"
proof -
  assume r: "gui_reachable g"
  have "hene_ok (obj g)" using r
  proof (induction rule: gui_reachable.induct)
    case (init cfg)
    then show ?case by (simp add: gui_init_def owfft_init_def hene_ok_def)
  next
    case (step g ev)
    have "\<not> (\<exists>v. ev = SetDx v) \<or> \<not> dx_HeNe (obj g)" if "control_enabled g ev"
      using that by (cases ev) auto
    then show ?case using step.IH handle_hene by (simp add: gui_step_def)
  qed
  then show "dx_HeNe (obj g) \<Longrightarrow> dx (obj g) = 1 / laser_wavenumber (obj g) / 2"
    by (simp add: hene_ok_def)
qed

theorem gui_dx_HeNe_witness:
  "gui_reachable (gui_init default_settings) \<and> dx_HeNe (obj (gui_init default_settings))
   \<and> dx (obj (gui_init default_settings)) = 1 / 15797.337544 / 2"
proof -
  have g: "gui_reachable (gui_init default_settings)" by (rule gui_reachable.init)
  have h: "dx_HeNe (obj (gui_init default_settings))" by (simp add: gui_init_def owfft_init_def default_settings_def)
  have l: "laser_wavenumber (obj (gui_init default_settings)) = 15797.337544"
    by (simp add: gui_init_def owfft_init_def default_settings_def)
  have "dx (obj (gui_init default_settings)) = 1 / laser_wavenumber (obj (gui_init default_settings)) / 2"
    by (rule gui_dx_HeNe [OF g h])
  then have "dx (obj (gui_init default_settings)) = 1 / 15797.337544 / 2" by (simp only: l)
  then show ?thesis using g h by blast
qed


text \<open>
  C9 (functional): after a table whose sweeps are classified, the info labels report it:
  the first starts with the number of interferograms in decimal and names the sweep mode
  (the index into the two names is always in range), the second reads back as the number
  of points per row.
\<close>

theorem info_labels_report:
  assumes "determine_sweeps X = Inr sw"
  shows "parse_nat (takeWhile py_isdigit (infoa (gui_step g (Input (Some X))))) = length X
         \<and> parse_nat (takeWhile py_isdigit (infob (gui_step g (Input (Some X))))) = length (hd X)
         \<and> infoa (gui_step g (Input (Some X)))
           = py_str_nat (length X) @ '' '' @ (if sw = 0 then ''Single'' else ''Forward-Backward'')
             @ '' interferogram(s)''"
proof -
  have l: "infoa (gui_step g (Input (Some X)))
             = py_str_nat (length X) @ CHR '' '' # ([''Single'', ''Forward-Backward''] ! sw @ '' interferogram(s)'')"
    "infob (gui_step g (Input (Some X))) = py_str_nat (length (hd X)) @ CHR '' '' # ''points each''"
    using gui_step_input_labels [OF assms, of g] by simp_all
  show ?thesis
    using l sweep_name [OF determine_sweeps_le1 [OF assms]]
    by (simp add: takeWhile_digits_py_str_nat parse_py_str_nat)
qed

theorem info_labels_report_witness:
  "determine_sweeps [[1 :: real]] = Inr 0
   \<and> parse_nat (takeWhile py_isdigit (infoa (gui_step (gui_init default_settings) (Input (Some [[1]]))))) = 1
   \<and> infoa (gui_step (gui_init default_settings) (Input (Some [[1]]))) = ''1 Single interferogram(s)''"
proof -
  have d: "determine_sweeps [[1 :: real]] = Inr 0" by (simp add: determine_sweeps_def peak_search_def)
  have s: "py_str_nat 1 = ''1''" by code_simp
  note r = info_labels_report [OF d, of "gui_init default_settings"]
  have a: "parse_nat (takeWhile py_isdigit (infoa (gui_step (gui_init default_settings) (Input (Some [[1]]))))) = 1"
    using conjunct1 [OF r] by simp
  have b: "infoa (gui_step (gui_init default_settings) (Input (Some [[1]]))) = ''1 Single interferogram(s)''"
    using conjunct2 [OF conjunct2 [OF r]] s by simp
  show ?thesis using d a b by blast
qed

end
