(* ===== verification/Bin.thy ===== *)
theory Bin
  imports Prelude
begin

text \<open>
  The binning widget \<open>OWBin\<close> (\<open>src/orangecontrib/spectroscopy/widgets/owbin.py\<close>). It
  keeps the input table, the two axis variables chosen in combo boxes, the bin shape (a
  persisted setting mirrored in the attributes \<open>bin_0\<close>, \<open>bin_1\<close> that the line edits
  write), and sends the result of \<open>bin_hypercube\<close> on every change. \<open>bin_hypercube\<close>
  (\<open>orangecontrib.spectroscopy.utils.binning\<close>, not among the sources) and the
  selections Orange's \<open>DomainContextHandler\<close> restores are parameters of the model, so
  every theorem holds for any binning function and any stored context. The theory proves
  that the bin attributes and the bin shape stay synchronised and valid, that a commit
  answers with exactly one output unless an uncaught exception escapes, which exceptions
  escape, and how the axis selection survives a new input.
\<close>

section \<open>Definitions\<close>

text \<open>
  An Orange table as far as the widget reads it: the names of its attributes, the
  continuous class and meta variables that the axis model lists, and \<open>X\<close> with \<open>None\<close>
  for NaN.
\<close>

record bin_table =
  attributes :: "string list"
  xy_vars :: "string list"
  tX :: "real option list list"

type_synonym bin_domain = "string list \<times> string list"

definition tdomain :: "bin_table \<Rightarrow> bin_domain" where
  "tdomain t = (attributes t, xy_vars t)"

text \<open>The exceptions: the two \<open>commit\<close> catches, the one it imports but does not catch, and
  the \<open>AttributeError\<close> of \<open>getattr(self, f"bin_{i}")\<close>.\<close>

datatype bin_exc =
    InvalidAxisException string
  | InvalidBlockShape string
  | NanInsideHypercube nat
  | AttributeError nat

fun caught :: "bin_exc \<Rightarrow> bool" where
  "caught (InvalidAxisException m) = True"
| "caught (InvalidBlockShape m) = True"
| "caught _ = False"

type_synonym bin_fn = "bin_table \<Rightarrow> string list \<Rightarrow> int list \<Rightarrow> bin_exc + bin_table"
type_synonym ctx_fn = "bin_domain \<Rightarrow> (string option \<times> string option) option"

record owbin =
  bin_data :: "bin_table option"
  attr_x :: "string option"
  attr_y :: "string option"
  bin_shape :: "int list"
  bins :: "nat \<rightharpoonup> int"
  xy_model :: "string list"
  autocommit :: bool
  dirty :: bool
  nan_in_image :: "nat option"
  invalid_axis :: "string option"
  invalid_block :: "string option"
  sent_log :: "bin_table option list"

datatype 's bin_outcome = BRet 's | BExc bin_exc 's

primrec bstate :: "'s bin_outcome \<Rightarrow> 's" where
  "bstate (BRet s) = s"
| "bstate (BExc e s) = s"

definition send :: "bin_table option \<Rightarrow> owbin \<Rightarrow> owbin" where
  "send v s = s\<lparr>sent_log := sent_log s @ [v]\<rparr>"

text \<open>\<open>_init_bins\<close>: \<open>setattr(self, f"bin_{i}", bin)\<close> for every entry of the shape.\<close>

fun set_bins :: "nat \<Rightarrow> int list \<Rightarrow> (nat \<rightharpoonup> int) \<Rightarrow> (nat \<rightharpoonup> int)" where
  "set_bins i [] m = m"
| "set_bins i (b # bs) m = set_bins (Suc i) bs (m(i \<mapsto> b))"

definition init_bins :: "owbin \<Rightarrow> owbin" where
  "init_bins s = s\<lparr>bins := set_bins 0 (bin_shape s) (bins s)\<rparr>"

text \<open>\<open>_update_bins\<close>: read \<open>bin_i\<close> back for every index of the shape; a missing
  attribute raises before the shape is assigned.\<close>

definition update_bins :: "owbin \<Rightarrow> owbin bin_outcome" where
  "update_bins s =
     (case those (map (bins s) [0..<length (bin_shape s)]) of
        Some new_shape \<Rightarrow> BRet (s\<lparr>bin_shape := new_shape\<rparr>)
      | None \<Rightarrow> BExc (AttributeError (length (takeWhile (\<lambda>i. bins s i \<noteq> None) [0..<length (bin_shape s)]))) s)"

definition sanitize_bin_value :: "owbin \<Rightarrow> owbin" where
  "sanitize_bin_value s = s"

definition nan_count :: "bin_table \<Rightarrow> nat" where
  "nan_count t = sum_list (map (\<lambda>r. length (filter (\<lambda>v. v = None) r)) (tX t))"

definition clear_msgs :: "owbin \<Rightarrow> owbin" where
  "clear_msgs s = s\<lparr>nan_in_image := None, invalid_axis := None, invalid_block := None\<rparr>"

text \<open>\<open>OWBin.commit\<close>: the guard \<open>self.data and len(attributes) and attr_x and attr_y\<close>
  (a table is true when it has rows), the NaN warning, and \<open>bin_hypercube\<close> with its two
  caught exceptions; any other exception leaves before \<open>send\<close>.\<close>

definition bin_commit_now :: "bin_fn \<Rightarrow> owbin \<Rightarrow> owbin bin_outcome" where
  "bin_commit_now bh s =
     (let s1 = clear_msgs s in
      case (bin_data s1, attr_x s1, attr_y s1) of
        (Some t, Some ax, Some ay) \<Rightarrow>
          if tX t \<noteq> [] \<and> attributes t \<noteq> [] then
            (let s2 = (if 0 < nan_count t then s1\<lparr>nan_in_image := Some (nan_count t)\<rparr> else s1) in
             case bh t [ax, ay] (bin_shape s2) of
               Inr b \<Rightarrow> BRet (send (Some b) s2)
             | Inl (InvalidAxisException m) \<Rightarrow> BRet (send None (s2\<lparr>invalid_axis := Some m\<rparr>))
             | Inl (InvalidBlockShape m) \<Rightarrow> BRet (send None (s2\<lparr>invalid_block := Some m\<rparr>))
             | Inl e \<Rightarrow> BExc e s2)
          else BRet (send None s1)
      | _ \<Rightarrow> BRet (send None s1))"

text \<open>\<open>gui.auto_commit\<close> (line 90) turns \<open>self.commit()\<close> into a conditional commit: it
  commits when \<open>autocommit\<close> is set and otherwise only marks the widget dirty.\<close>

definition bin_commit :: "bin_fn \<Rightarrow> owbin \<Rightarrow> owbin bin_outcome" where
  "bin_commit bh s = (if autocommit s then bin_commit_now bh (s\<lparr>dirty := False\<rparr>) else BRet (s\<lparr>dirty := True\<rparr>))"

definition bin_changed :: "bin_fn \<Rightarrow> owbin \<Rightarrow> owbin bin_outcome" where
  "bin_changed bh s =
     (case update_bins s of BExc e s1 \<Rightarrow> BExc e s1 | BRet s1 \<Rightarrow> bin_commit bh (sanitize_bin_value s1))"

definition init_attr_values :: "bin_table option \<Rightarrow> owbin \<Rightarrow> owbin" where
  "init_attr_values d s =
     (let model = (case d of None \<Rightarrow> [] | Some t \<Rightarrow> xy_vars t);
          ax = (if model \<noteq> [] then Some (model ! 0) else None);
          ay = (if 2 \<le> length model then Some (model ! 1) else ax)
      in s\<lparr>xy_model := model, attr_x := ax, attr_y := ay\<rparr>)"

definition init_interface_data :: "bin_table option \<Rightarrow> owbin \<Rightarrow> owbin" where
  "init_interface_data d s =
     (let same_domain = (case (bin_data s, d) of
                           (Some t0, Some t) \<Rightarrow> tX t0 \<noteq> [] \<and> tX t \<noteq> [] \<and> tdomain t = tdomain t0
                         | _ \<Rightarrow> False)
      in if same_domain then s else init_attr_values d s)"

definition update_attr :: "bin_fn \<Rightarrow> owbin \<Rightarrow> owbin bin_outcome" where
  "update_attr bh s = bin_commit bh s"

text \<open>\<open>OWBin.set_data\<close>: \<open>openContext\<close> first runs \<open>_init_interface_data\<close> against the
  previous table and then restores the selections stored for the new domain (none for
  \<open>None\<close>); then the table is stored, the messages cleared and the result committed.\<close>

definition bin_set_data :: "bin_fn \<Rightarrow> ctx_fn \<Rightarrow> owbin \<Rightarrow> bin_table option \<Rightarrow> owbin bin_outcome" where
  "bin_set_data bh ctx s dataset =
     (let s1 = init_interface_data dataset s;
          s2 = (case dataset of
                  Some t \<Rightarrow> (case ctx (tdomain t) of Some (ax, ay) \<Rightarrow> s1\<lparr>attr_x := ax, attr_y := ay\<rparr>
                                                    | None \<Rightarrow> s1)
                | None \<Rightarrow> s1);
          s3 = (case dataset of
                  Some t \<Rightarrow> sanitize_bin_value (s2\<lparr>bin_data := Some t\<rparr>)
                | None \<Rightarrow> s2\<lparr>bin_data := None\<rparr>)
      in bin_commit bh (clear_msgs s3))"

text \<open>\<open>__init__\<close>: no data, the axis selections of the settings, the bin attributes.\<close>

definition owbin_init :: "int list \<Rightarrow> bool \<Rightarrow> owbin" where
  "owbin_init shape ac =
     init_bins \<lparr>bin_data = None, attr_x = None, attr_y = None, bin_shape = shape, bins = Map.empty,
                xy_model = [], autocommit = ac, dirty = False, nan_in_image = None,
                invalid_axis = None, invalid_block = None, sent_log = []\<rparr>"

text \<open>
  The controls of \<open>__init__\<close>: the combo boxes offer the variables of the axis model and
  call \<open>_update_attr\<close>; the line edits for \<open>bin_0\<close> and \<open>bin_1\<close> accept integers from 1
  (\<open>bottom=1\<close>) and call \<open>_bin_changed\<close>; the auto-commit box and its button. A value a
  control does not accept leaves the widget unchanged.
\<close>

datatype bin_event =
    BinInput "bin_table option"
  | SetAttrX string
  | SetAttrY string
  | SetBin nat int
  | SetAutocommit bool
  | SendData

fun bin_handle :: "bin_fn \<Rightarrow> ctx_fn \<Rightarrow> owbin \<Rightarrow> bin_event \<Rightarrow> owbin bin_outcome" where
  "bin_handle bh ctx s (BinInput d) = bin_set_data bh ctx s d"
| "bin_handle bh ctx s (SetAttrX v) =
     (if v \<in> set (xy_model s) then update_attr bh (s\<lparr>attr_x := Some v\<rparr>) else BRet s)"
| "bin_handle bh ctx s (SetAttrY v) =
     (if v \<in> set (xy_model s) then update_attr bh (s\<lparr>attr_y := Some v\<rparr>) else BRet s)"
| "bin_handle bh ctx s (SetBin i v) =
     (if i < 2 \<and> 1 \<le> v then bin_changed bh (s\<lparr>bins := (bins s)(i \<mapsto> v)\<rparr>) else BRet s)"
| "bin_handle bh ctx s (SetAutocommit b) =
     (if b \<and> dirty s then bin_commit_now bh (s\<lparr>autocommit := b, dirty := False\<rparr>)
      else BRet (s\<lparr>autocommit := b\<rparr>))"
| "bin_handle bh ctx s SendData = bin_commit_now bh (s\<lparr>dirty := False\<rparr>)"

text \<open>A stored bin shape passed the same validator, so every entry is at least 1.\<close>

inductive bin_reachable :: "bin_fn \<Rightarrow> ctx_fn \<Rightarrow> owbin \<Rightarrow> bool" for bh ctx where
  init: "list_all (\<lambda>b. 1 \<le> b) shape \<Longrightarrow> bin_reachable bh ctx (owbin_init shape ac)"
| step: "bin_reachable bh ctx s \<Longrightarrow> bin_reachable bh ctx (bstate (bin_handle bh ctx s ev))"

section \<open>The bin attributes\<close>

text \<open>The attributes \<open>bin_i\<close> agree with the shape at every index of the shape.\<close>

definition bins_synced :: "owbin \<Rightarrow> bool" where
  "bins_synced s \<longleftrightarrow> (\<forall>i < length (bin_shape s). bins s i = Some (bin_shape s ! i))"

lemma set_bins_lookup:
  "set_bins i bs m j = (if i \<le> j \<and> j < i + length bs then Some (bs ! (j - i)) else m j)"
proof (induction bs arbitrary: i m)
  case (Cons b bs)
  then show ?case by (auto simp: nth_Cons' Suc_diff_Suc)
qed auto

lemma bin_shape_update_same [simp]: "s\<lparr>bin_shape := bin_shape s\<rparr> = s"
  by (cases s) simp

lemma init_bins_synced: "bins_synced (init_bins s)"
  by (simp add: bins_synced_def init_bins_def set_bins_lookup)

lemma update_bins_synced: "bins_synced s \<Longrightarrow> update_bins s = BRet s"
proof -
  assume "bins_synced s"
  then have "map (bins s) [0..<length (bin_shape s)] = map Some (bin_shape s)"
    by (intro nth_equalityI) (auto simp: bins_synced_def)
  then show ?thesis unfolding update_bins_def by simp
qed

lemma update_bins_BRet:
  assumes "update_bins s = BRet s'"
  shows "s' = s\<lparr>bin_shape := bin_shape s'\<rparr> \<and> length (bin_shape s') = length (bin_shape s)
         \<and> (\<forall>j < length (bin_shape s). bins s j = Some (bin_shape s' ! j))"
proof -
  obtain ns where t: "those (map (bins s) [0..<length (bin_shape s)]) = Some ns" and s': "s' = s\<lparr>bin_shape := ns\<rparr>"
    using assms by (auto simp: update_bins_def split: option.splits)
  have m: "map (bins s) [0..<length (bin_shape s)] = map Some ns" using t by (simp add: those_Some_iff)
  then have l: "length ns = length (bin_shape s)" by (metis length_map length_upt minus_nat.diff_0)
  have "bins s j = Some (ns ! j)" if "j < length (bin_shape s)" for j
    using arg_cong [OF m, of "\<lambda>xs. xs ! j"] that l by simp
  then show ?thesis using s' l by simp
qed

lemma update_bins_BExc: "update_bins s = BExc e s' \<Longrightarrow> s' = s"
  by (simp add: update_bins_def split: option.splits)

text \<open>Writing \<open>bin_i\<close> and reading the shape back replaces entry \<open>i\<close> of the shape.\<close>

lemma update_bins_set:
  assumes "bins_synced s"
  shows "update_bins (s\<lparr>bins := (bins s)(i \<mapsto> v)\<rparr>)
         = BRet (s\<lparr>bins := (bins s)(i \<mapsto> v), bin_shape := (bin_shape s)[i := v]\<rparr>)"
proof -
  have "map ((bins s)(i \<mapsto> v)) [0..<length (bin_shape s)] = map Some ((bin_shape s)[i := v])"
    using assms by (intro nth_equalityI) (auto simp: bins_synced_def nth_list_update)
  then show ?thesis unfolding update_bins_def by simp
qed

section \<open>Commit\<close>

text \<open>What a commit leaves alone: the input, the selections, the bins and the mode.\<close>

definition bin_frame :: "owbin \<Rightarrow> owbin \<Rightarrow> bool" where
  "bin_frame s s' \<longleftrightarrow> bin_data s' = bin_data s \<and> attr_x s' = attr_x s \<and> attr_y s' = attr_y s
     \<and> bin_shape s' = bin_shape s \<and> bins s' = bins s \<and> xy_model s' = xy_model s
     \<and> autocommit s' = autocommit s"

lemma bin_frame_msgs [simp]:
  "bin_frame s (send v s') = bin_frame s s'"
  "bin_frame s (clear_msgs s') = bin_frame s s'"
  "bin_frame s (s'\<lparr>nan_in_image := n\<rparr>) = bin_frame s s'"
  "bin_frame s (s'\<lparr>invalid_axis := a\<rparr>) = bin_frame s s'"
  "bin_frame s (s'\<lparr>invalid_block := b\<rparr>) = bin_frame s s'"
  "bin_frame s (s'\<lparr>dirty := d\<rparr>) = bin_frame s s'"
  by (simp_all add: bin_frame_def send_def clear_msgs_def)

lemma bin_frame_refl [simp]: "bin_frame s s"
  by (simp add: bin_frame_def)

lemma sent_log_msgs [simp]:
  "sent_log (send v s) = sent_log s @ [v]"
  "sent_log (clear_msgs s) = sent_log s"
  by (simp_all add: send_def clear_msgs_def)

lemma clear_msgs_fields [simp]:
  "bin_data (clear_msgs s) = bin_data s" "attr_x (clear_msgs s) = attr_x s"
  "attr_y (clear_msgs s) = attr_y s" "bin_shape (clear_msgs s) = bin_shape s"
  "bins (clear_msgs s) = bins s" "xy_model (clear_msgs s) = xy_model s"
  "autocommit (clear_msgs s) = autocommit s"
  by (simp_all add: clear_msgs_def)

text \<open>The three ways a commit ends: it sends a value, or an uncaught exception of
  \<open>bin_hypercube\<close> leaves before the send.\<close>

lemma bin_commit_now_cases:
  "(\<exists>v s2. bin_commit_now bh s = BRet (send v s2) \<and> bin_frame s s2 \<and> sent_log s2 = sent_log s)
   \<or> (\<exists>e s2 t xs sh. bin_commit_now bh s = BExc e s2 \<and> bin_frame s s2 \<and> sent_log s2 = sent_log s
                    \<and> \<not> caught e \<and> bh t xs sh = Inl e)"
proof (cases "\<exists>t ax ay. bin_data s = Some t \<and> attr_x s = Some ax \<and> attr_y s = Some ay
                        \<and> tX t \<noteq> [] \<and> attributes t \<noteq> []")
  case True
  then obtain t ax ay where g: "bin_data s = Some t" "attr_x s = Some ax" "attr_y s = Some ay"
    "tX t \<noteq> []" "attributes t \<noteq> []" by blast
  define s2 where "s2 = (if 0 < nan_count t then (clear_msgs s)\<lparr>nan_in_image := Some (nan_count t)\<rparr>
                         else clear_msgs s)"
  have f2: "bin_frame s s2 \<and> sent_log s2 = sent_log s \<and> bin_shape s2 = bin_shape s"
    by (simp add: s2_def)
  have c: "bin_commit_now bh s =
             (case bh t [ax, ay] (bin_shape s) of
               Inr b \<Rightarrow> BRet (send (Some b) s2)
             | Inl (InvalidAxisException m) \<Rightarrow> BRet (send None (s2\<lparr>invalid_axis := Some m\<rparr>))
             | Inl (InvalidBlockShape m) \<Rightarrow> BRet (send None (s2\<lparr>invalid_block := Some m\<rparr>))
             | Inl e \<Rightarrow> BExc e s2)"
    using g f2 by (simp add: bin_commit_now_def s2_def [symmetric] Let_def)
  have sent: "?thesis" if "bin_commit_now bh s = BRet (send v s3)" "bin_frame s s3" "sent_log s3 = sent_log s"
    for v s3
    using that by blast
  show ?thesis
  proof (cases "bh t [ax, ay] (bin_shape s)")
    case (Inl e)
    show ?thesis
    proof (cases e)
      case (InvalidAxisException m)
      then show ?thesis using c f2 Inl by (intro sent [of None "s2\<lparr>invalid_axis := Some m\<rparr>"]) simp_all
    next
      case (InvalidBlockShape m)
      then show ?thesis using c f2 Inl by (intro sent [of None "s2\<lparr>invalid_block := Some m\<rparr>"]) simp_all
    qed (use c f2 Inl in auto)
  next
    case (Inr b)
    then show ?thesis using c f2 by (intro sent [of "Some b" s2]) simp_all
  qed
next
  case False
  then have "bin_commit_now bh s = BRet (send None (clear_msgs s))"
    by (auto simp: bin_commit_now_def Let_def split: option.splits)
  moreover have "bin_frame s (clear_msgs s) \<and> sent_log (clear_msgs s) = sent_log s" by simp
  ultimately show ?thesis by blast
qed

lemma bin_commit_now_frame: "bin_frame s (bstate (bin_commit_now bh s))"
  using bin_commit_now_cases [of bh s] by auto

lemma bin_commit_frame: "bin_frame s (bstate (bin_commit bh s))"
  using bin_commit_now_frame [of "s\<lparr>dirty := False\<rparr>" bh] by (auto simp: bin_commit_def bin_frame_def)

section \<open>A new input\<close>

lemma bin_set_data_fields:
  "bins (bstate (bin_set_data bh ctx s d)) = bins s
   \<and> bin_shape (bstate (bin_set_data bh ctx s d)) = bin_shape s
   \<and> bin_data (bstate (bin_set_data bh ctx s d)) = d
   \<and> autocommit (bstate (bin_set_data bh ctx s d)) = autocommit s"
proof -
  have "bin_frame x (bstate (bin_commit bh x))" for x by (rule bin_commit_frame)
  then show ?thesis
    by (simp add: bin_set_data_def Let_def bin_frame_def sanitize_bin_value_def init_interface_data_def
                  init_attr_values_def split: option.splits)
qed

lemma bin_set_data_axes_open:
  "(attr_x (bstate (bin_set_data bh ctx s (Some t))), attr_y (bstate (bin_set_data bh ctx s (Some t))))
   = (case ctx (tdomain t) of Some sel \<Rightarrow> sel
      | None \<Rightarrow> (attr_x (init_interface_data (Some t) s), attr_y (init_interface_data (Some t) s)))"
proof -
  have "bin_frame x (bstate (bin_commit bh x))" for x by (rule bin_commit_frame)
  then show ?thesis
    by (simp add: bin_set_data_def Let_def bin_frame_def sanitize_bin_value_def split: option.splits)
qed

section \<open>The invariant of the bin attributes\<close>

definition bin_inv :: "owbin \<Rightarrow> bool" where
  "bin_inv s \<longleftrightarrow> bins_synced s \<and> list_all (\<lambda>b. 1 \<le> b) (bin_shape s)"

lemma bin_inv_cong: "bins s' = bins s \<Longrightarrow> bin_shape s' = bin_shape s \<Longrightarrow> bin_inv s' = bin_inv s"
  by (simp add: bin_inv_def bins_synced_def)

lemma bin_inv_frame: "bin_frame s s' \<Longrightarrow> bin_inv s' = bin_inv s"
  unfolding bin_frame_def bin_inv_def bins_synced_def by simp

lemma bin_inv_set:
  assumes "bin_inv s" and "1 \<le> v"
  shows "bin_inv (s\<lparr>bins := (bins s)(i \<mapsto> v), bin_shape := (bin_shape s)[i := v]\<rparr>)"
proof -
  have "\<forall>b \<in> set ((bin_shape s)[i := v]). 1 \<le> b"
    using assms set_update_subset_insert [of "bin_shape s" i v] by (auto simp: bin_inv_def list_all_iff)
  then show ?thesis
    using assms by (auto simp: bin_inv_def bins_synced_def list_all_iff nth_list_update)
qed

lemma bin_commit_inv: "bin_inv (bstate (bin_commit bh s)) = bin_inv s"
  by (rule bin_inv_frame) (rule bin_commit_frame)

lemma bin_commit_now_inv: "bin_inv (bstate (bin_commit_now bh s)) = bin_inv s"
  by (rule bin_inv_frame) (rule bin_commit_now_frame)

lemma bin_handle_inv:
  assumes "bin_inv s"
  shows "bin_inv (bstate (bin_handle bh ctx s ev))"
proof (cases ev)
  case (BinInput d)
  have "bin_inv (bstate (bin_set_data bh ctx s d)) = bin_inv s"
    using bin_set_data_fields [of bh ctx s d] by (simp add: bin_inv_def bins_synced_def)
  then show ?thesis using BinInput assms by simp
next
  case (SetAttrX x)
  have "bin_inv (bstate (update_attr bh (s\<lparr>attr_x := Some x\<rparr>)))"
    using assms bin_inv_cong [of "s\<lparr>attr_x := Some x\<rparr>" s] by (simp add: update_attr_def bin_commit_inv)
  then show ?thesis using SetAttrX assms by simp
next
  case (SetAttrY y)
  have "bin_inv (bstate (update_attr bh (s\<lparr>attr_y := Some y\<rparr>)))"
    using assms bin_inv_cong [of "s\<lparr>attr_y := Some y\<rparr>" s] by (simp add: update_attr_def bin_commit_inv)
  then show ?thesis using SetAttrY assms by simp
next
  case (SetBin i v)
  show ?thesis
  proof (cases "i < 2 \<and> 1 \<le> v")
    case True
    have "bins_synced s" using assms by (simp add: bin_inv_def)
    then have "bin_changed bh (s\<lparr>bins := (bins s)(i \<mapsto> v)\<rparr>)
               = bin_commit bh (s\<lparr>bins := (bins s)(i \<mapsto> v), bin_shape := (bin_shape s)[i := v]\<rparr>)"
      by (simp add: bin_changed_def update_bins_set sanitize_bin_value_def)
    then show ?thesis using SetBin True assms bin_inv_set [of s v i] by (simp add: bin_commit_inv)
  qed (use SetBin assms in auto)
next
  case (SetAutocommit c)
  have a: "bin_inv (s\<lparr>autocommit := c\<rparr>)" "bin_inv (s\<lparr>autocommit := c, dirty := False\<rparr>)"
    using assms bin_inv_cong [of "s\<lparr>autocommit := c\<rparr>" s] bin_inv_cong [of "s\<lparr>autocommit := c, dirty := False\<rparr>" s]
    by simp_all
  then show ?thesis using SetAutocommit by (auto simp: bin_commit_now_inv)
next
  case SendData
  have "bin_inv (s\<lparr>dirty := False\<rparr>)" using assms bin_inv_cong [of "s\<lparr>dirty := False\<rparr>" s] by simp
  then show ?thesis using SendData by (simp add: bin_commit_now_inv)
qed

lemma bin_set_data_commit:
  "\<exists>x. bin_set_data bh ctx s d = bin_commit bh x \<and> autocommit x = autocommit s
       \<and> sent_log x = sent_log s \<and> bin_data x = d"
  unfolding bin_set_data_def Let_def
  by (intro exI conjI, rule refl)
     (simp_all add: sanitize_bin_value_def init_interface_data_def init_attr_values_def Let_def
               split: option.splits)

section \<open>Properties\<close>

text \<open>
  C25 (invariant): in every reachable state the attributes \<open>bin_i\<close> hold exactly the
  entries of the bin shape, and every entry is at least 1: \<open>_init_bins\<close>, the line
  edits' validator (\<open>bottom=1\<close>) and \<open>_update_bins\<close> keep the two in step.
\<close>

theorem bin_reachable_inv:
  "bin_reachable bh ctx s \<Longrightarrow> bins_synced s \<and> list_all (\<lambda>b. 1 \<le> b) (bin_shape s)"
proof -
  assume "bin_reachable bh ctx s"
  then have "bin_inv s"
  proof (induction rule: bin_reachable.induct)
    case (init shape ac)
    have "bin_shape (owbin_init shape ac) = shape" by (simp add: owbin_init_def init_bins_def)
    then show ?case using init init_bins_synced by (simp add: bin_inv_def owbin_init_def)
  next
    case (step s ev)
    from step.IH show ?case by (rule bin_handle_inv)
  qed
  then show ?thesis unfolding bin_inv_def .
qed

theorem bin_reachable_inv_witness:
  "bin_reachable (\<lambda>t xs sh. Inr t) (\<lambda>_. None) (owbin_init [1, 1] True)
   \<and> bins_synced (owbin_init [1, 1] True) \<and> list_all (\<lambda>b. 1 \<le> b) (bin_shape (owbin_init [1, 1] True))"
proof -
  have r: "bin_reachable (\<lambda>t xs sh. Inr t) (\<lambda>_. None) (owbin_init [1, 1] True)"
    by (rule bin_reachable.init) simp
  show ?thesis using r bin_reachable_inv [OF r] by blast
qed

text \<open>
  C29 (functional): in a reachable state, an accepted edit of \<open>bin_i\<close> (\<open>i < 2\<close>,
  \<open>1 \<le> v\<close>) with auto-commit on replaces entry \<open>i\<close> of the shape and commits with it;
  \<open>_update_bins\<close> cannot raise there.
\<close>

theorem bin_set_bin:
  assumes "bin_reachable bh ctx s" and "i < 2" and "1 \<le> v" and "autocommit s"
  shows "bin_handle bh ctx s (SetBin i v)
         = bin_commit_now bh (s\<lparr>bins := (bins s)(i \<mapsto> v), bin_shape := (bin_shape s)[i := v], dirty := False\<rparr>)"
proof -
  have "bins_synced s" using bin_reachable_inv [OF assms(1)] by simp
  then show ?thesis
    using assms by (simp add: bin_changed_def update_bins_set sanitize_bin_value_def bin_commit_def)
qed

theorem bin_set_bin_witness:
  "bin_reachable (\<lambda>t xs sh. Inr t) (\<lambda>_. None) (owbin_init [1, 1] True)
   \<and> autocommit (owbin_init [1, 1] True)
   \<and> bin_shape (bstate (bin_handle (\<lambda>t xs sh. Inr t) (\<lambda>_. None) (owbin_init [1, 1] True) (SetBin 0 2)))
       = [2, 1]"
proof -
  let ?s = "owbin_init [1, 1] True"
  have r: "bin_reachable (\<lambda>t xs sh. Inr t) (\<lambda>_. None) ?s" by (rule bin_reachable.init) simp
  have a: "autocommit ?s" by (simp add: owbin_init_def init_bins_def)
  have sh: "bin_shape ?s = [1, 1]" by (simp add: owbin_init_def init_bins_def)
  have "bin_shape (bstate (bin_handle (\<lambda>t xs sh. Inr t) (\<lambda>_. None) ?s (SetBin 0 2))) = (bin_shape ?s)[0 := 2]"
    using bin_set_bin [OF r _ _ a, of 0 2] bin_commit_now_frame by (simp add: bin_frame_def)
  then show ?thesis using r a sh by simp
qed

text \<open>
  C26 (liveness): with auto-commit on, every new input, table or \<open>None\<close>, is answered by
  exactly one value on the \<open>Binned Data\<close> output, provided \<open>bin_hypercube\<close> raises
  nothing but the two exceptions \<open>commit\<close> catches.
\<close>

theorem bin_input_answered:
  assumes "autocommit s" and "\<forall>t xs sh e. bh t xs sh = Inl e \<longrightarrow> caught e"
  shows "\<exists>s' v. bin_handle bh ctx s (BinInput d) = BRet s' \<and> sent_log s' = sent_log s @ [v]"
proof -
  obtain x where x: "bin_set_data bh ctx s d = bin_commit bh x" "autocommit x" "sent_log x = sent_log s"
    using bin_set_data_commit [of bh ctx s d] assms(1) by auto
  have c: "bin_handle bh ctx s (BinInput d) = bin_commit_now bh (x\<lparr>dirty := False\<rparr>)"
    using x by (simp add: bin_commit_def)
  show ?thesis
    using bin_commit_now_cases [of bh "x\<lparr>dirty := False\<rparr>"] c x(3) assms(2) by auto
qed

theorem bin_input_answered_witness:
  "\<exists>s' v. bin_handle (\<lambda>t xs sh. Inr t) (\<lambda>_. None) (owbin_init [1, 1] True) (BinInput None) = BRet s'
          \<and> sent_log s' = sent_log (owbin_init [1, 1] True) @ [v]"
proof -
  have a: "autocommit (owbin_init [1, 1] True)" by (simp add: owbin_init_def init_bins_def)
  have h: "\<forall>t xs sh e. (\<lambda>t xs sh. Inr t :: bin_exc + bin_table) t xs sh = Inl e \<longrightarrow> caught e" by simp
  show ?thesis using bin_input_answered [OF a h] .
qed

text \<open>
  C30 (safety): with auto-commit on, removing the input sends \<open>None\<close>, so no stale binned
  table stays on the output, and clears the warning and both error messages.
\<close>

theorem bin_input_none:
  assumes "autocommit s"
  shows "\<exists>s'. bin_handle bh ctx s (BinInput None) = BRet s' \<and> sent_log s' = sent_log s @ [None]
              \<and> bin_data s' = None \<and> nan_in_image s' = None \<and> invalid_axis s' = None
              \<and> invalid_block s' = None"
proof -
  obtain x where x: "bin_set_data bh ctx s None = bin_commit bh x" "autocommit x" "sent_log x = sent_log s"
    "bin_data x = None"
    using bin_set_data_commit [of bh ctx s None] assms by auto
  have "bin_commit_now bh (x\<lparr>dirty := False\<rparr>) = BRet (send None (clear_msgs (x\<lparr>dirty := False\<rparr>)))"
    using x(4) by (simp add: bin_commit_now_def)
  then show ?thesis using x by (simp add: bin_commit_def send_def clear_msgs_def)
qed

theorem bin_input_none_witness:
  "autocommit (owbin_init [1, 1] True)
   \<and> (\<exists>s'. bin_handle (\<lambda>t xs sh. Inr t) (\<lambda>_. None) (owbin_init [1, 1] True) (BinInput None) = BRet s'
           \<and> sent_log s' = [None] \<and> bin_data s' = None \<and> nan_in_image s' = None
           \<and> invalid_axis s' = None \<and> invalid_block s' = None)"
proof -
  have a: "autocommit (owbin_init [1, 1] True)" by (simp add: owbin_init_def init_bins_def)
  have l: "sent_log (owbin_init [1, 1] True) = []" by (simp add: owbin_init_def init_bins_def)
  show ?thesis using a l bin_input_none [OF a, of "\<lambda>t xs sh. Inr t" "\<lambda>_. None"] by simp
qed

text \<open>
  C27 (error): \<open>commit\<close> raises exactly when its guard holds (a table with rows and
  attributes, both axes chosen) and \<open>bin_hypercube\<close> raises an exception other than
  \<open>InvalidAxisException\<close> and \<open>InvalidBlockShape\<close>; \<open>NanInsideHypercube\<close>, although
  imported, is one of them.
\<close>

theorem bin_commit_now_raises:
  "(\<exists>e s'. bin_commit_now bh s = BExc e s')
   \<longleftrightarrow> (\<exists>t ax ay e. bin_data s = Some t \<and> attr_x s = Some ax \<and> attr_y s = Some ay
          \<and> tX t \<noteq> [] \<and> attributes t \<noteq> [] \<and> bh t [ax, ay] (bin_shape s) = Inl e \<and> \<not> caught e)"
proof
  assume "\<exists>e s'. bin_commit_now bh s = BExc e s'"
  then obtain e s' where r: "bin_commit_now bh s = BExc e s'" by blast
  then obtain t ax ay where g: "bin_data s = Some t" "attr_x s = Some ax" "attr_y s = Some ay"
    "tX t \<noteq> []" "attributes t \<noteq> []"
    by (auto simp: bin_commit_now_def Let_def split: option.splits if_splits)
  then have "bh t [ax, ay] (bin_shape s) = Inl e \<and> \<not> caught e"
    using r by (auto simp: bin_commit_now_def Let_def split: sum.splits bin_exc.splits if_splits)
  then show "\<exists>t ax ay e. bin_data s = Some t \<and> attr_x s = Some ax \<and> attr_y s = Some ay
          \<and> tX t \<noteq> [] \<and> attributes t \<noteq> [] \<and> bh t [ax, ay] (bin_shape s) = Inl e \<and> \<not> caught e"
    using g by blast
next
  assume "\<exists>t ax ay e. bin_data s = Some t \<and> attr_x s = Some ax \<and> attr_y s = Some ay
          \<and> tX t \<noteq> [] \<and> attributes t \<noteq> [] \<and> bh t [ax, ay] (bin_shape s) = Inl e \<and> \<not> caught e"
  then obtain t ax ay e where g: "bin_data s = Some t" "attr_x s = Some ax" "attr_y s = Some ay"
    "tX t \<noteq> []" "attributes t \<noteq> []" "bh t [ax, ay] (bin_shape s) = Inl e" "\<not> caught e" by blast
  then show "\<exists>e s'. bin_commit_now bh s = BExc e s'"
    by (cases e) (simp_all add: bin_commit_now_def Let_def)
qed

text \<open>
  C28 (functional): after a new table, the axes are the selections the settings handler
  restores for its domain; without one, they are kept when the previous table had rows
  and the same domain, and otherwise reset to the first listed variable and the second
  (the first again when only one is listed, none when none is).
\<close>

theorem bin_set_data_axes:
  "(attr_x (bstate (bin_set_data bh ctx s (Some t))), attr_y (bstate (bin_set_data bh ctx s (Some t))))
   = (case ctx (tdomain t) of
        Some sel \<Rightarrow> sel
      | None \<Rightarrow>
          if \<exists>t0. bin_data s = Some t0 \<and> tX t0 \<noteq> [] \<and> tX t \<noteq> [] \<and> tdomain t = tdomain t0
          then (attr_x s, attr_y s)
          else if xy_vars t = [] then (None, None)
          else (Some (hd (xy_vars t)),
                Some (if length (xy_vars t) = 1 then hd (xy_vars t) else xy_vars t ! 1)))"
  unfolding bin_set_data_axes_open
  by (cases "xy_vars t")
     (auto simp: init_interface_data_def init_attr_values_def Let_def Suc_le_eq split: option.splits)

end
