(* ===== verification/Spec2Isabelle.thy ===== *)
theory Spec2Isabelle
  imports Peak ZeroFill Apodization Spectral Sweeps WidgetState Phase Transform Driver Widget Gui Bin
begin

text \<open>
  \<^bold>\<open>Verification development for the interferogram-to-spectrum widget of
  orange-spectroscopy\<close> (\<open>src/orangecontrib/infrared/widgets/owfft.py\<close>, class \<open>OWFFT\<close>)
  and for the binning widget \<open>OWBin\<close> (\<open>src/orangecontrib/spectroscopy/widgets/owbin.py\<close>).

  \<^bold>\<open>The program.\<close> \<open>OWFFT\<close> receives a table of interferograms (\<open>set_data\<close>),
  classifies the first row as single or forward-backward sweep (\<open>determine_sweeps\<close>) and
  runs \<open>calculateFFT\<close> when the input or a setting changes (\<open>commit\<close> and the
  callbacks), through the conditional commit of \<open>gui.auto_commit\<close>: with the
  \<open>autocommit\<close> setting off, as it is by default, a change only marks the widget dirty
  and the \<open>Calculate\<close> button runs the transform. \<open>calculateFFT\<close> transforms every row with \<open>fft_single_sweep\<close> (a
  forward-backward row is split, its second half reversed, and the two spectra averaged).
  \<open>fft_single_sweep\<close> locates the zpd (\<open>peak_search\<close>), apodizes (\<open>apodization\<close>),
  zero-fills (\<open>zero_filling\<close>), checks that the peak has not moved, computes the axis once
  per run (\<open>wavenumber_set\<close>) and a low-resolution phase (\<open>compute_phase\<close>, which runs
  the same steps on a double-sided sample around the zpd), and combines the FFT of the
  rotated signal with the phase (Mertz). The run stacks the spectra, optionally cuts
  them to an output band, builds a table and sends it.

  \<^bold>\<open>Theories and correspondence.\<close>
  \<^item> \<open>Prelude\<close>: the sample type, the exceptions as \<open>fft_error\<close> (\<open>is_value_error\<close>
    says which ones \<open>except ValueError\<close> catches), the outcome of a method (\<open>Ret\<close> or
    \<open>Exc\<close> with the state reached), Python slicing, numpy broadcasting, and Python's
    \<open>'%d'\<close> (\<open>py_str_nat\<close>) with its inverse \<open>parse_nat\<close>.
  \<^item> \<open>Peak\<close>: \<open>peak_search\<close> as numpy's argmax scan, refined to the first-maximum
    contract \<open>is_first_max\<close>.
  \<^item> \<open>ZeroFill\<close>: \<open>zero_filling\<close> with \<open>np_next_pow2\<close>.
  \<^item> \<open>Apodization\<close>: the four windows of \<open>apodization\<close> and the errors.
  \<^item> \<open>Spectral\<close>: the numpy primitives (\<open>rfftfreq\<close>, \<open>rfft\<close> as the DFT,
    \<open>arctan2\<close>, \<open>interp\<close>, the \<open>hstack\<close> rotation, \<open>searchsorted\<close>).
  \<^item> \<open>Sweeps\<close>: \<open>determine_sweeps\<close> and \<open>np.hsplit\<close>.
  \<^item> \<open>WidgetState\<close>: the object as the record \<open>owfft\<close> (settings, attributes, error
    and warning slots, the sent output) and \<open>__init__\<close>.
  \<^item> \<open>Phase\<close>: \<open>prepare\<close> (the peak/apodize/zero-fill/check sequence both
    transforms run), \<open>phase_L\<close>, \<open>wavenumber_set\<close>, \<open>phase_of_sample\<close>,
    \<open>compute_phase\<close>.
  \<^item> \<open>Transform\<close>: \<open>mertz_combine\<close>, \<open>fft_single_sweep\<close> and the loop body
    \<open>transform_row\<close>.
  \<^item> \<open>Driver\<close>: the row loop \<open>fft_rows\<close>, \<open>band_limit\<close> and \<open>calculateFFT\<close>.
  \<^item> \<open>Widget\<close>: \<open>set_data\<close>, \<open>commit\<close>, the callbacks, the GUI events
    \<open>handle\<close> and the reachable states \<open>reachable\<close>.
  \<^item> \<open>Gui\<close>: which Qt controls are enabled (\<open>control_enabled\<close>, \<open>boxes_after\<close>), the
    step \<open>gui_step\<close> that applies \<open>handle\<close> to enabled controls only and writes the
    info labels (\<open>labels_after\<close>), its reachable states \<open>gui_reachable\<close>, sequences of
    events \<open>run\<close>, and \<open>main()\<close> as \<open>owfft_main\<close>.
  \<^item> \<open>Bin\<close>: \<open>OWBin\<close> as the record \<open>owbin\<close>; \<open>init_bins\<close>, \<open>update_bins\<close>,
    \<open>bin_changed\<close>, \<open>sanitize_bin_value\<close>, \<open>init_attr_values\<close>,
    \<open>init_interface_data\<close>, \<open>update_attr\<close>, \<open>bin_set_data\<close> and \<open>bin_commit_now\<close>
    are the methods of the same names (\<open>set_data\<close>, \<open>commit\<close>); \<open>bin_commit\<close> is the
    conditional commit \<open>gui.auto_commit\<close> installs; \<open>bin_handle\<close> runs the controls of
    \<open>__init__\<close>; \<open>bin_reachable\<close> are the reachable states. It shares only the
    Prelude with the transform: the two widgets do not call each other.
  Methods that mutate the object take and return an \<open>owfft\<close>; assignments made before an
  exception persist, as in Python. Every \<open>raise\<close>, every numpy error and every early
  \<open>return\<close> of the source is a branch of the model.

  \<^bold>\<open>What is proved.\<close> The peak scan refines its contract; Boxcar and both
  Blackman-Harris windows are 1 at the zpd and in \<open>(0, 1]\<close>, so a non-negative peak
  survives apodization and zero-filling while a negative one makes the zpd check fail;
  zero-filling pads to \<open>(zff+1)\<close> times a power of two; the phase computation clamps its
  sample exactly as without limit and raises the warning; a mirrored forward-backward
  row gives the single-sweep spectrum; end to end, impulses give flat spectra of their
  heights on \<open>rfftfreq(N_zff, dx)\<close>; the axis is computed once per run; band limiting is
  idempotent; a run changes the output only by completing; in every reachable state the
  output is the current table (with auto-commit off a settings change only marks the
  widget dirty), and that table is well formed (each spectrum has one value per
  wavenumber, through stacking and band limiting). numpy's bisection loop leaves every
  interval after at most \<open>floorlog 2 (hi - lo)\<close> passes of its body \<open>bisect_step\<close>,
  and on a sorted axis the band it cuts is the filter of the axis by the limits. The output limits stay ordered. Driven
  through its enabled controls the widget refines the event model, keeps \<open>dx\<close> derived
  from the laser while the HeNe box is checked, its info labels report the number of
  interferograms and of points (read back through the Prelude's \<open>'%d'\<close> and its
  inverse), and \<open>main()\<close> raises exactly the exception of its direct \<open>set_data\<close>
  call and otherwise returns with nothing sent, whatever the session raised.
  The error theorems give the exact inputs on which \<open>determine_sweeps\<close>,
  \<open>apodization\<close> and the transform raise.
  For \<open>OWBin\<close>: the bin attributes and the bin shape stay synchronised and at least 1
  in every reachable state, an accepted bin edit replaces its entry and commits, every input is answered by exactly
  one output unless \<open>bin_hypercube\<close> raises an uncaught exception (exactly
  characterised), a removed input sends \<open>None\<close>, and the axis selection after a new
  table is given for every case.

  \<^bold>\<open>Idealisation.\<close> Samples are real numbers: float rounding, NaN, infinities and
  the overflow of \<open>int(inf)\<close> are not modelled, and \<open>rfft\<close> is the exact DFT rather
  than the FFT algorithm. Tables are lists of rows. No loop needs fuel: every loop of
  the source runs over a finite list, and numpy's bisection is a \<open>function\<close> whose
  termination is proved by the measure \<open>hi - lo\<close>, which its body \<open>bisect_step\<close>
  at least halves. \<open>1 / laser_wavenumber / 2\<close> (\<open>__init__\<close> and \<open>dx_changed\<close>) is
  HOL's division, 0 where Python would raise \<open>ZeroDivisionError\<close> for a zero
  setting; the setting has no control in the widget and defaults to \<open>15797.337544\<close>.
  Exceptions of the handlers during \<open>app.exec_()\<close> are reported by the PyQt4 event loop,
  which goes on: \<open>run\<close> keeps the state each handler reached.

  For \<open>OWBin\<close>, \<open>bin_hypercube\<close> and the selections Orange's \<open>DomainContextHandler\<close>
  restores are not among the sources; they are the parameters \<open>bh\<close> and \<open>ctx\<close>, so
  the theorems hold for every binning function and every stored context. A table is
  \<open>bin_table\<close>: its attribute names, the variables the axis model lists, and \<open>X\<close>
  with \<open>None\<close> for NaN; its truth value is having rows.

  \<^bold>\<open>Not modelled.\<close> The placement of the Qt widgets (boxes, grids, fixed labels),
  which changes no state, the class metadata (name, description, icon), and
  \<open>WidgetPreview\<close>; the interactive session of \<open>main()\<close> is an
  arbitrary list of events; \<open>build_spec_table\<close> (not under \<open>src/\<close>), modelled as the pair of
  axis and rows; the binning itself and Orange's context matching, which live outside
  \<open>src/\<close> and enter only as parameters; and the tests of \<open>OWCurves\<close>, whose code is not
  among the sources.
\<close>

end
